(* ===== verification/Finance_Prelude.thy ===== *)
theory Finance_Prelude
  imports Complex_Main "HOL-Library.Product_Lexorder"
begin

text \<open>
  Shared vocabulary of the finance-manager development: the identifier and money types of
  the data store (Prisma rows of \<open>src/\<close>), the collections of lemmas the component
  theories feed, and generic facts about sums over filtered lists that the aggregation
  code of several components (budget, monthly statistics, charts, dashboard) relies on.

  Money is kept in integer minor units (cents).  The store keeps amounts as exact
  decimals and sums them exactly in the database (\<open>_sum\<close> of Prisma); the
  client-side \<open>reduce\<close> loops of the JSX components add JavaScript doubles, whose
  rounding is not modelled (see the header of \<open>Spec2Isabelle\<close>).
\<close>

type_synonym cents = int
type_synonym user_id = nat
type_synonym account_id = nat
type_synonym txn_id = nat
type_synonym budget_id = nat

named_theorems calendar_simps "evaluation rules of the calendar model"
named_theorems ledger_simps "evaluation rules of the ledger and aggregation model"

subsection \<open>Searching lists\<close>

lemma find_append_list:
  "find P (xs @ ys) = (case find P xs of None \<Rightarrow> find P ys | Some x \<Rightarrow> Some x)"
  by (induction xs) auto

lemma find_map_invariant:
  "(\<And>x. P (f x) = P x) \<Longrightarrow> find P (map f xs) = map_option f (find P xs)"
  by (induction xs) auto

text \<open>Rows with distinct keys: the row with a given key is found, and is the only one.\<close>

lemma find_distinct_key:
  "distinct (map f xs) \<Longrightarrow> x \<in> set xs \<Longrightarrow> find (\<lambda>y. f y = f x) xs = Some x"
  by (induction xs) (auto simp: image_iff)

lemma filter_distinct_key:
  "distinct (map f xs) \<Longrightarrow> x \<in> set xs \<Longrightarrow> filter (\<lambda>y. f y = f x) xs = [x]"
  by (induction xs) (auto simp: filter_empty_conv image_iff)

subsection \<open>Sums over filtered lists\<close>

lemma sum_list_map_filter_split:
  fixes f :: "'a \<Rightarrow> 'b::comm_monoid_add"
  shows "sum_list (map f (filter P xs)) + sum_list (map f (filter (\<lambda>x. \<not> P x) xs))
     = sum_list (map f xs)"
  by (induction xs) (simp_all add: add_ac)

lemma foldl_add_sum_list:
  "foldl (\<lambda>s x. s + f x) a xs = a + sum_list (map f xs)"
  by (induction xs arbitrary: a) (simp_all add: add.assoc)

lemma sum_list_map_filter_nonneg:
  fixes f :: "'a \<Rightarrow> int"
  assumes "\<forall>x \<in> set xs. 0 \<le> f x"
  shows "0 \<le> sum_list (map f (filter P xs))"
  using assms by (induction xs) auto

lemma sum_list_map_filter_conj:
  "filter (\<lambda>x. P x \<and> Q x) xs = filter Q (filter P xs)"
  by (simp add: conj_commute)

lemma sum_list_map_filter_cong:
  "(\<And>x. x \<in> set xs \<Longrightarrow> P x = Q x) \<Longrightarrow>
     sum_list (map f (filter P xs)) = sum_list (map f (filter Q xs))"
  by (metis filter_cong)

text \<open>
  A sum over a list split by a key: the sum of the per-key sums over the distinct keys
  equals the whole sum.  This is the law behind every "group by category" of the
  program.
\<close>

lemma sum_list_group_by_key:
  fixes f :: "'a \<Rightarrow> 'b::comm_monoid_add"
  shows "sum_list (map (\<lambda>k. sum_list (map f (filter (\<lambda>x. g x = k) xs))) (remdups (map g xs)))
           = sum_list (map f xs)"
proof -
  have "sum_list (map (\<lambda>k. sum_list (map f (filter (\<lambda>x. g x = k) xs))) (remdups (map g xs)))
        = (\<Sum>k \<in> set (map g xs). sum_list (map f (filter (\<lambda>x. g x = k) xs)))"
    by (simp add: sum_list_distinct_conv_sum_set)
  also have "\<dots> = sum_list (map f xs)"
  proof (induction xs)
    case Nil
    then show ?case by simp
  next
    case (Cons x xs)
    have "(\<Sum>k \<in> set (map g (x # xs)). sum_list (map f (filter (\<lambda>y. g y = k) (x # xs))))
          = (\<Sum>k \<in> insert (g x) (g ` set xs).
               (if g x = k then f x else 0) + sum_list (map f (filter (\<lambda>y. g y = k) xs)))"
      by (rule sum.cong) auto
    also have "\<dots> = (\<Sum>k \<in> insert (g x) (g ` set xs). if g x = k then f x else 0)
                   + (\<Sum>k \<in> insert (g x) (g ` set xs). sum_list (map f (filter (\<lambda>y. g y = k) xs)))"
      by (simp add: sum.distrib)
    also have "(\<Sum>k \<in> insert (g x) (g ` set xs). if g x = k then f x else 0) = f x"
      by simp
    also have "(\<Sum>k \<in> insert (g x) (g ` set xs). sum_list (map f (filter (\<lambda>y. g y = k) xs)))
               = (\<Sum>k \<in> g ` set xs. sum_list (map f (filter (\<lambda>y. g y = k) xs)))"
    proof (cases "g x \<in> g ` set xs")
      case False
      then have "filter (\<lambda>y. g y = g x) xs = []"
        by (auto simp: filter_empty_conv image_iff)
      with False show ?thesis by simp
    qed (simp add: insert_absorb)
    also have "\<dots> = sum_list (map f xs)"
      using Cons.IH by simp
    finally show ?case by simp
  qed
  finally show ?thesis .
qed

text \<open>The same sum over any duplicate-free list of the keys, in whatever order.\<close>

lemma sum_list_group_by_distinct_keys:
  fixes f :: "'a \<Rightarrow> 'b::comm_monoid_add"
  assumes "distinct ks" and "set ks = g ` set xs"
  shows "sum_list (map (\<lambda>k. sum_list (map f (filter (\<lambda>x. g x = k) xs))) ks) = sum_list (map f xs)"
proof -
  have "sum_list (map (\<lambda>k. sum_list (map f (filter (\<lambda>x. g x = k) xs))) ks)
        = sum_list (map (\<lambda>k. sum_list (map f (filter (\<lambda>x. g x = k) xs))) (remdups (map g xs)))"
    using assms by (simp add: sum_list_distinct_conv_sum_set)
  then show ?thesis by (simp add: sum_list_group_by_key)
qed

end
