(* ===== verification/Calendar.thy ===== *)
theory Calendar
  imports Finance_Prelude
begin

text \<open>
  The Period Calculator.  Calendar dates and instants as JavaScript's \<open>Date\<close> sees them
  in the canonical (local) time zone: a month index from 0 to 11 (\<open>getMonth()\<close>), a
  day of month from 1, and a time of day in milliseconds.  The constructor
  \<open>new Date(y, m, d, h, mi, s, ms)\<close> normalises out-of-range fields by carrying into
  the next or previous month; \<open>norm_day\<close> models that carry as a loop with a
  termination proof.  On top of it: the month windows the source builds
  (\<open>src/actions/budget.js\<close>, \<open>src/app/api/test-monthly-stats/route.js\<close>,
  \<open>src/app/api/test-budget-alerts/route.js\<close>), JavaScript's \<open>setMonth\<close>, and the
  recurrence advance of the specification (section 4.1), which clamps instead of carrying.
\<close>

subsection \<open>Dates and instants, ordered chronologically\<close>

datatype date = Date (year: int) (month: nat) (day: nat)

datatype instant = Instant (i_date: date) (i_ms: nat)

datatype interval = DAILY | WEEKLY | MONTHLY | YEARLY

definition date_key :: "date \<Rightarrow> int \<times> nat \<times> nat" where
  "date_key d = (year d, month d, day d)"

definition instant_key :: "instant \<Rightarrow> (int \<times> nat \<times> nat) \<times> nat" where
  "instant_key t = (date_key (i_date t), i_ms t)"

lemma date_key_inj: "date_key d = date_key e \<Longrightarrow> d = e"
  by (cases d; cases e) (simp add: date_key_def)

lemma instant_key_inj: "instant_key t = instant_key u \<Longrightarrow> t = u"
  by (cases t; cases u) (auto simp: instant_key_def dest: date_key_inj)

instantiation date :: linorder
begin

definition less_eq_date :: "date \<Rightarrow> date \<Rightarrow> bool" where
  "less_eq_date d e \<longleftrightarrow> date_key d \<le> date_key e"

definition less_date :: "date \<Rightarrow> date \<Rightarrow> bool" where
  "less_date d e \<longleftrightarrow> date_key d < date_key e"

instance
  by standard (auto simp: less_eq_date_def less_date_def intro: date_key_inj)

end

instantiation instant :: linorder
begin

definition less_eq_instant :: "instant \<Rightarrow> instant \<Rightarrow> bool" where
  "less_eq_instant t u \<longleftrightarrow> instant_key t \<le> instant_key u"

definition less_instant :: "instant \<Rightarrow> instant \<Rightarrow> bool" where
  "less_instant t u \<longleftrightarrow> instant_key t < instant_key u"

instance
  by standard (auto simp: less_eq_instant_def less_instant_def intro: instant_key_inj)

end

lemma date_less_eq_iff [calendar_simps]:
  "Date y m d \<le> Date y' m' d' \<longleftrightarrow> y < y' \<or> y = y' \<and> (m < m' \<or> m = m' \<and> d \<le> d')"
  by (auto simp: less_eq_date_def date_key_def)

lemma date_less_iff [calendar_simps]:
  "Date y m d < Date y' m' d' \<longleftrightarrow> y < y' \<or> y = y' \<and> (m < m' \<or> m = m' \<and> d < d')"
  by (auto simp: less_date_def date_key_def)

lemma instant_less_eq_iff [calendar_simps]:
  "Instant a x \<le> Instant b y \<longleftrightarrow> a < b \<or> a = b \<and> x \<le> y"
  by (auto simp: less_eq_instant_def instant_key_def less_date_def intro: date_key_inj)

lemma instant_less_iff [calendar_simps]:
  "Instant a x < Instant b y \<longleftrightarrow> a < b \<or> a = b \<and> x < y"
  by (auto simp: less_instant_def instant_key_def less_date_def intro: date_key_inj)

subsection \<open>Month lengths\<close>

definition ms_per_day :: int where
  "ms_per_day = 86400000"

definition is_leap :: "int \<Rightarrow> bool" where
  "is_leap y \<longleftrightarrow> y mod 4 = 0 \<and> (y mod 100 \<noteq> 0 \<or> y mod 400 = 0)"

definition days_in_month :: "int \<Rightarrow> nat \<Rightarrow> nat" where
  "days_in_month y m =
     (if m = 1 then (if is_leap y then 29 else 28)
      else if m = 3 \<or> m = 5 \<or> m = 8 \<or> m = 10 then 30 else 31)"

definition valid_date :: "date \<Rightarrow> bool" where
  "valid_date d \<longleftrightarrow> month d < 12 \<and> 1 \<le> day d \<and> day d \<le> days_in_month (year d) (month d)"

definition valid_instant :: "instant \<Rightarrow> bool" where
  "valid_instant t \<longleftrightarrow> valid_date (i_date t) \<and> int (i_ms t) < ms_per_day"

lemma days_in_month_bounds: "28 \<le> days_in_month y m \<and> days_in_month y m \<le> 31"
  by (simp add: days_in_month_def)

text \<open>A month counted from year 0: \<open>12 * year + month\<close>; its length.\<close>

definition month_index :: "date \<Rightarrow> int" where
  "month_index d = 12 * year d + int (month d)"

definition dim_idx :: "int \<Rightarrow> int" where
  "dim_idx mi = int (days_in_month (mi div 12) (nat (mi mod 12)))"

definition date_of_idx :: "int \<Rightarrow> nat \<Rightarrow> date" where
  "date_of_idx mi d = Date (mi div 12) (nat (mi mod 12)) d"

lemma dim_idx_bounds: "28 \<le> dim_idx mi \<and> dim_idx mi \<le> 31"
  using days_in_month_bounds by (simp add: dim_idx_def)

lemma date_of_month_index:
  "month d < 12 \<Longrightarrow> date_of_idx (month_index d) n = Date (year d) (month d) n"
  by (cases d) (simp add: date_of_idx_def month_index_def)

lemma dim_idx_month_index:
  "month d < 12 \<Longrightarrow> dim_idx (month_index d) = int (days_in_month (year d) (month d))"
  by (cases d) (simp add: dim_idx_def month_index_def)

lemma date_of_idx_less:
  assumes "mi < mi'"
  shows "date_of_idx mi a < date_of_idx mi' b"
proof (cases "mi div 12 < mi' div 12")
  case True
  then show ?thesis by (simp add: date_of_idx_def date_less_iff)
next
  case False
  have "mi div 12 \<le> mi' div 12"
    using assms by (simp add: zdiv_mono1)
  with False have eq: "mi div 12 = mi' div 12" by simp
  have "mi mod 12 < mi' mod 12"
    using assms eq minus_div_mult_eq_mod [of mi 12] minus_div_mult_eq_mod [of mi' 12]
    by linarith
  moreover have "0 < mi' mod 12"
    using \<open>mi mod 12 < mi' mod 12\<close> pos_mod_sign [of 12 mi] by linarith
  ultimately show ?thesis
    using eq by (simp add: date_of_idx_def date_less_iff nat_less_eq_zless)
qed

lemma valid_date_of_idx:
  "1 \<le> d \<Longrightarrow> int d \<le> dim_idx mi \<Longrightarrow> valid_date (date_of_idx mi d)"
  by (simp add: date_of_idx_def valid_date_def dim_idx_def nat_less_iff)

subsection \<open>The JavaScript \<open>Date\<close> constructor\<close>

text \<open>
  \<open>norm_day mi d\<close> is the date \<open>d - 1\<close> days after the first day of month \<open>mi\<close>:
  a day below 1 borrows the length of the previous month, a day beyond the month's length
  carries into the next.  Each step either raises a day below 1 or lowers one above the
  month's length, hence the lexicographic measure.
\<close>

function norm_day :: "int \<Rightarrow> int \<Rightarrow> date" where
  "norm_day mi d =
     (if d < 1 then norm_day (mi - 1) (d + dim_idx (mi - 1))
      else if dim_idx mi < d then norm_day (mi + 1) (d - dim_idx mi)
      else date_of_idx mi (nat d))"
  by pat_completeness auto
termination
proof (relation "measures [\<lambda>(mi, d). nat (1 - d), \<lambda>(mi, d). nat d]")
  fix mi d :: int
  assume "d < 1"
  then show "((mi - 1, d + dim_idx (mi - 1)), mi, d) \<in> measures [\<lambda>(mi, d). nat (1 - d), \<lambda>(mi, d). nat d]"
    using dim_idx_bounds [of "mi - 1"] by simp
next
  fix mi d :: int
  assume "\<not> d < 1" and "dim_idx mi < d"
  then show "((mi + 1, d - dim_idx mi), mi, d) \<in> measures [\<lambda>(mi, d). nat (1 - d), \<lambda>(mi, d). nat d]"
    using dim_idx_bounds [of mi] by simp
qed simp

declare norm_day.simps [simp del]

text \<open>\<open>new Date(y, m, d)\<close> and \<open>new Date(y, m, d, h, mi, s, ms)\<close>.\<close>

definition js_date :: "int \<Rightarrow> int \<Rightarrow> int \<Rightarrow> date" where
  "js_date y m d = norm_day (12 * y + m) d"

definition js_datetime :: "int \<Rightarrow> int \<Rightarrow> int \<Rightarrow> int \<Rightarrow> int \<Rightarrow> int \<Rightarrow> int \<Rightarrow> instant" where
  "js_datetime y m d h mi s ms =
     (let total = ((h * 60 + mi) * 60 + s) * 1000 + ms
      in Instant (js_date y m (d + total div ms_per_day)) (nat (total mod ms_per_day)))"

text \<open>\<open>t.setMonth(m)\<close> and \<open>t.setDate(d)\<close>: the other fields are kept and the result is
  normalised, so setting a month whose length is below the day carries over.\<close>

definition js_set_month :: "instant \<Rightarrow> int \<Rightarrow> instant" where
  "js_set_month t m = Instant (js_date (year (i_date t)) m (int (day (i_date t)))) (i_ms t)"

definition js_set_date :: "instant \<Rightarrow> int \<Rightarrow> instant" where
  "js_set_date t d = Instant (js_date (year (i_date t)) (int (month (i_date t))) d) (i_ms t)"

lemma norm_day_in_month:
  "1 \<le> d \<Longrightarrow> d \<le> dim_idx mi \<Longrightarrow> norm_day mi d = date_of_idx mi (nat d)"
  by (simp add: norm_day.simps)

lemma norm_day_next_month:
  "dim_idx mi < d \<Longrightarrow> d \<le> dim_idx mi + dim_idx (mi + 1) \<Longrightarrow>
     norm_day mi d = date_of_idx (mi + 1) (nat (d - dim_idx mi))"
  using dim_idx_bounds [of mi] by (simp add: norm_day.simps [of mi] norm_day_in_month)

lemma norm_day_prev_month:
  "d < 1 \<Longrightarrow> 1 \<le> d + dim_idx (mi - 1) \<Longrightarrow>
     norm_day mi d = date_of_idx (mi - 1) (nat (d + dim_idx (mi - 1)))"
  using dim_idx_bounds [of "mi - 1"] by (simp add: norm_day.simps [of mi] norm_day_in_month)

lemma valid_norm_day: "valid_date (norm_day mi d)"
proof (induction mi d rule: norm_day.induct)
  case (1 mi d)
  show ?case
    using "1.IH" dim_idx_bounds [of mi]
    by (subst norm_day.simps) (auto intro: valid_date_of_idx)
qed

lemma valid_js_date: "valid_date (js_date y m d)"
  by (simp add: js_date_def valid_norm_day)

lemma js_date_in_range:
  "0 \<le> m \<Longrightarrow> m < 12 \<Longrightarrow> 1 \<le> d \<Longrightarrow> d \<le> int (days_in_month y (nat m)) \<Longrightarrow>
     js_date y m d = Date y (nat m) (nat d)"
  by (simp add: js_date_def norm_day_in_month dim_idx_def date_of_idx_def)

text \<open>\<open>new Date(y, m + 1, 0)\<close> is the last day of month \<open>m\<close>, also in December.\<close>

lemma js_date_day_zero:
  assumes "0 \<le> m" and "m < 12"
  shows "js_date y (m + 1) 0 = Date y (nat m) (days_in_month y (nat m))"
proof -
  have "js_date y (m + 1) 0 = date_of_idx (12 * y + m) (nat (dim_idx (12 * y + m)))"
    using norm_day_prev_month [of 0 "12 * y + m + 1"] dim_idx_bounds [of "12 * y + m"]
    by (simp add: js_date_def add.assoc)
  also have "\<dots> = Date y (nat m) (days_in_month y (nat m))"
    using assms by (simp add: date_of_idx_def dim_idx_def)
  finally show ?thesis .
qed

subsection \<open>Month windows built by the source\<close>

text \<open>
  \<open>getCurrentBudget\<close> (\<open>src/actions/budget.js\<close>): the window runs from
  \<open>new Date(y, m, 1)\<close> to \<open>new Date(y, m + 1, 0)\<close>, both at midnight.
\<close>

definition budget_month_window :: "instant \<Rightarrow> instant \<times> instant" where
  "budget_month_window now =
     (let y = year (i_date now); m = int (month (i_date now))
      in (js_datetime y m 1 0 0 0 0, js_datetime y (m + 1) 0 0 0 0 0))"

text \<open>
  \<open>getMonthlyStats\<close> (\<open>src/app/api/test-monthly-stats/route.js\<close>): the window ends
  at \<open>new Date(y, m + 1, 0, 23, 59, 59, 999)\<close>, the last millisecond of the month.
\<close>

definition stats_month_window :: "instant \<Rightarrow> instant \<times> instant" where
  "stats_month_window t =
     (let y = year (i_date t); m = int (month (i_date t))
      in (js_datetime y m 1 0 0 0 0, js_datetime y (m + 1) 0 23 59 59 999))"

text \<open>
  The test alert route (\<open>src/app/api/test-budget-alerts/route.js\<close>):
  \<open>startDate = new Date(); startDate.setDate(1)\<close>, which keeps the time of day.
\<close>

definition alert_start_date :: "instant \<Rightarrow> instant" where
  "alert_start_date now = js_set_date now 1"

text \<open>\<open>lastMonth = new Date(); lastMonth.setMonth(lastMonth.getMonth() - 1)\<close>.\<close>

definition last_month_of :: "instant \<Rightarrow> instant" where
  "last_month_of now = js_set_month now (int (month (i_date now)) - 1)"

definition same_month :: "instant \<Rightarrow> instant \<Rightarrow> bool" where
  "same_month t u \<longleftrightarrow> year (i_date t) = year (i_date u) \<and> month (i_date t) = month (i_date u)"

definition in_window :: "instant \<times> instant \<Rightarrow> instant \<Rightarrow> bool" where
  "in_window w t \<longleftrightarrow> fst w \<le> t \<and> t \<le> snd w"

subsection \<open>Recurrence advance (specification, section 4.1)\<close>

text \<open>
  \<open>DAILY\<close> and \<open>WEEKLY\<close> add days (carrying into the next month as the calendar
  does); \<open>MONTHLY\<close> and \<open>YEARLY\<close> move the month or the year and clamp the day
  to the target month's length, so that Jan 31 goes to Feb 28 or 29 and Feb 29 to
  Feb 28.  The time of day of a recurring instant is kept.
\<close>

fun advance :: "date \<Rightarrow> interval \<Rightarrow> date" where
  "advance d DAILY = norm_day (month_index d) (int (day d) + 1)"
| "advance d WEEKLY = norm_day (month_index d) (int (day d) + 7)"
| "advance d MONTHLY =
     (let mi = month_index d + 1
      in date_of_idx mi (min (day d) (nat (dim_idx mi))))"
| "advance d YEARLY =
     Date (year d + 1) (month d) (min (day d) (days_in_month (year d + 1) (month d)))"

definition advance_instant :: "instant \<Rightarrow> interval \<Rightarrow> instant" where
  "advance_instant t i = Instant (advance (i_date t) i) (i_ms t)"

subsection \<open>Facts about the constructor and the windows\<close>

lemma js_datetime_in_day:
  assumes "0 \<le> ((h * 60 + mi) * 60 + s) * 1000 + ms"
    and "((h * 60 + mi) * 60 + s) * 1000 + ms < ms_per_day"
  shows "js_datetime y m d h mi s ms = Instant (js_date y m d) (nat (((h * 60 + mi) * 60 + s) * 1000 + ms))"
  using assms by (simp add: js_datetime_def)

lemma valid_date_idx: "valid_date d \<Longrightarrow> d = date_of_idx (month_index d) (day d)"
  by (cases d) (simp add: valid_date_def date_of_idx_def month_index_def)

lemma month_span_iff:
  assumes "valid_date e"
  shows "(Date y m 1 \<le> e \<and> e \<le> Date y m (days_in_month y m)) \<longleftrightarrow> year e = y \<and> month e = m"
  using assms by (cases e) (auto simp: date_less_eq_iff valid_date_def)

lemma budget_month_window_eq:
  assumes "valid_date (i_date now)"
  shows "budget_month_window now =
           (Instant (Date (year (i_date now)) (month (i_date now)) 1) 0,
            Instant (Date (year (i_date now)) (month (i_date now))
                       (days_in_month (year (i_date now)) (month (i_date now)))) 0)"
  using assms days_in_month_bounds [of "year (i_date now)" "month (i_date now)"]
  by (simp add: budget_month_window_def Let_def js_datetime_in_day ms_per_day_def js_date_in_range
      js_date_day_zero valid_date_def)

lemma stats_month_window_eq:
  assumes "valid_date (i_date t)"
  shows "stats_month_window t =
           (Instant (Date (year (i_date t)) (month (i_date t)) 1) 0,
            Instant (Date (year (i_date t)) (month (i_date t))
                       (days_in_month (year (i_date t)) (month (i_date t)))) 86399999)"
  using assms days_in_month_bounds [of "year (i_date t)" "month (i_date t)"]
  by (simp add: stats_month_window_def Let_def js_datetime_in_day ms_per_day_def js_date_in_range
      js_date_day_zero valid_date_def)

lemma alert_start_date_eq:
  assumes "valid_date (i_date now)"
  shows "alert_start_date now = Instant (Date (year (i_date now)) (month (i_date now)) 1) (i_ms now)"
  using assms days_in_month_bounds [of "year (i_date now)" "month (i_date now)"]
  by (simp add: alert_start_date_def js_set_date_def js_date_in_range valid_date_def)

subsection \<open>Facts about the advance\<close>

lemma advance_by_days:
  assumes "valid_date d" and "1 \<le> k" and "k \<le> 28"
  shows "d < norm_day (month_index d) (int (day d) + k)"
proof (cases "int (day d) + k \<le> dim_idx (month_index d)")
  case True
  then have "norm_day (month_index d) (int (day d) + k) = date_of_idx (month_index d) (day d + nat k)"
    using assms by (simp add: norm_day_in_month nat_add_distrib)
  moreover have "date_of_idx (month_index d) (day d) < date_of_idx (month_index d) (day d + nat k)"
    using assms by (simp add: date_of_idx_def date_less_iff)
  ultimately show ?thesis
    using valid_date_idx [OF assms(1)] by simp
next
  case False
  have "int (day d) \<le> dim_idx (month_index d)"
    using assms(1) by (simp add: valid_date_def dim_idx_month_index)
  then have "norm_day (month_index d) (int (day d) + k)
               = date_of_idx (month_index d + 1) (nat (int (day d) + k - dim_idx (month_index d)))"
    using False assms dim_idx_bounds [of "month_index d + 1"] by (simp add: norm_day_next_month)
  moreover have "date_of_idx (month_index d) (day d) < \<dots>"
    by (rule date_of_idx_less) simp
  ultimately show ?thesis
    using valid_date_idx [OF assms(1)] by simp
qed

lemma advance_increases: "valid_date d \<Longrightarrow> d < advance d i"
proof (cases i)
  case MONTHLY
  assume "valid_date d"
  then have "date_of_idx (month_index d) (day d) < advance d MONTHLY"
    by (simp add: Let_def date_of_idx_less)
  with MONTHLY show ?thesis
    using valid_date_idx [OF \<open>valid_date d\<close>] by simp
next
  case YEARLY
  then show ?thesis by (cases d) (simp add: date_less_iff)
qed (simp_all add: advance_by_days)

lemma advance_valid: "valid_date d \<Longrightarrow> valid_date (advance d i)"
proof (cases i)
  case MONTHLY
  assume "valid_date d"
  then have "valid_date (date_of_idx (month_index d + 1) (min (day d) (nat (dim_idx (month_index d + 1)))))"
    using dim_idx_bounds [of "month_index d + 1"]
    by (intro valid_date_of_idx) (auto simp: valid_date_def)
  with MONTHLY show ?thesis by (simp add: Let_def)
next
  case YEARLY
  assume "valid_date d"
  then show ?thesis
    using YEARLY days_in_month_bounds [of "year d + 1" "month d"]
    by (simp add: valid_date_def)
qed (simp_all add: valid_norm_day)

lemma advance_monthly_index:
  "valid_date d \<Longrightarrow> month_index (advance d MONTHLY) = month_index d + 1"
  by (simp add: Let_def date_of_idx_def month_index_def)

lemma advance_monthly_day_le: "day (advance d MONTHLY) \<le> day d"
  by (simp add: Let_def date_of_idx_def)

lemma stats_window_iff:
  assumes "valid_instant now" and "valid_instant t"
  shows "in_window (stats_month_window now) t \<longleftrightarrow> same_month t now"
proof -
  obtain y m d x where now: "now = Instant (Date y m d) x" by (metis date.exhaust instant.exhaust)
  obtain y' m' d' x' where t: "t = Instant (Date y' m' d') x'" by (metis date.exhaust instant.exhaust)
  show ?thesis
    using assms stats_month_window_eq [of now]
    by (auto simp: now t in_window_def calendar_simps valid_instant_def valid_date_def
        same_month_def ms_per_day_def)
qed

lemma budget_window_iff:
  assumes "valid_instant now" and "valid_instant t"
  shows "in_window (budget_month_window now) t \<longleftrightarrow>
           same_month t now
           \<and> (day (i_date t) < days_in_month (year (i_date t)) (month (i_date t)) \<or> i_ms t = 0)"
proof -
  obtain y m d x where now: "now = Instant (Date y m d) x" by (metis date.exhaust instant.exhaust)
  obtain y' m' d' x' where t: "t = Instant (Date y' m' d') x'" by (metis date.exhaust instant.exhaust)
  show ?thesis
    using assms budget_month_window_eq [of now]
    by (auto simp: now t in_window_def calendar_simps valid_instant_def valid_date_def same_month_def)
qed

lemma last_month_of_eq:
  assumes "valid_instant now" and "1 \<le> month (i_date now)"
  shows "last_month_of now =
           (let y = year (i_date now); m = month (i_date now); d = day (i_date now)
            in if d \<le> days_in_month y (m - 1) then Instant (Date y (m - 1) d) (i_ms now)
               else Instant (Date y m (d - days_in_month y (m - 1))) (i_ms now))"
proof -
  obtain y m d x where now: "now = Instant (Date y m d) x" by (metis date.exhaust instant.exhaust)
  obtain k where k: "m = Suc k" using assms(2) now by (cases m) auto
  have v: "Suc k < 12" "1 \<le> d" "d \<le> days_in_month y (Suc k)"
    using assms by (simp_all add: now k valid_instant_def valid_date_def)
  have lm: "last_month_of now = Instant (norm_day (12 * y + int k) (int d)) x"
    by (simp add: now k last_month_of_def js_set_month_def js_date_def)
  have dprev: "dim_idx (12 * y + int k) = int (days_in_month y k)"
    using v by (simp add: dim_idx_def)
  show ?thesis
  proof (cases "d \<le> days_in_month y k")
    case True
    then have "norm_day (12 * y + int k) (int d) = Date y k d"
      using v dprev by (simp add: norm_day_in_month date_of_idx_def)
    then show ?thesis using True by (simp add: lm) (simp add: now k)
  next
    case False
    have "dim_idx (12 * y + int k + 1) = int (days_in_month y (Suc k))"
      using dim_idx_month_index [of "Date y (Suc k) d"] v(1) by (simp add: month_index_def add_ac)
    then have le: "int d \<le> dim_idx (12 * y + int k) + dim_idx (12 * y + int k + 1)"
      using v dprev days_in_month_bounds [of y k] by simp
    have lt: "dim_idx (12 * y + int k) < int d"
      using False dprev by simp
    have "norm_day (12 * y + int k) (int d)
            = date_of_idx (12 * y + int k + 1) (nat (int d - dim_idx (12 * y + int k)))"
      using lt le by (rule norm_day_next_month)
    also have "\<dots> = Date y (Suc k) (d - days_in_month y k)"
      using date_of_month_index [of "Date y (Suc k) d"] v(1) dprev False
      by (simp add: month_index_def add_ac nat_diff_distrib')
    finally show ?thesis using False by (simp add: lm) (simp add: now k)
  qed
qed

subsection \<open>Properties of the period calculator\<close>

text \<open>
  C6. Advancing a valid date by any interval gives a valid date strictly later than
  the original: the recurrence never stands still and never produces an impossible
  date such as Feb 30.
\<close>

theorem advance_strictly_increases:
  "valid_date d \<Longrightarrow> d < advance d i \<and> valid_date (advance d i)"
  using advance_increases advance_valid by blast

theorem advance_strictly_increases_witness:
  "valid_date (Date 2024 0 31) \<and> Date 2024 0 31 < advance (Date 2024 0 31) MONTHLY
     \<and> valid_date (advance (Date 2024 0 31) MONTHLY)"
proof -
  have h: "valid_date (Date 2024 0 31)"
    by (simp add: valid_date_def days_in_month_def)
  show ?thesis
    using h advance_strictly_increases [OF h, of MONTHLY] by simp
qed

text \<open>
  C7. Repeated \<open>MONTHLY\<close> advances from a valid date (the 31st included) land on a
  valid date in each following month, one month per step, and never on a later day of
  the month than the start: the clamp never wraps into the month after.
\<close>

theorem monthly_advance_iterate:
  assumes "valid_date d"
  shows "valid_date (((\<lambda>x. advance x MONTHLY) ^^ n) d)
         \<and> month_index (((\<lambda>x. advance x MONTHLY) ^^ n) d) = month_index d + int n
         \<and> day (((\<lambda>x. advance x MONTHLY) ^^ n) d) \<le> day d"
proof (induction n)
  case 0
  then show ?case using assms by simp
next
  case (Suc n)
  let ?x = "((\<lambda>x. advance x MONTHLY) ^^ n) d"
  have "valid_date ?x" and "month_index ?x = month_index d + int n" and "day ?x \<le> day d"
    using Suc.IH by auto
  then show ?case
    using advance_valid [of ?x MONTHLY] advance_monthly_index [of ?x] advance_monthly_day_le [of ?x]
    by (simp del: advance.simps)
qed

theorem monthly_advance_iterate_witness:
  "valid_date (((\<lambda>x. advance x MONTHLY) ^^ 3) (Date 2024 0 31))
   \<and> month_index (((\<lambda>x. advance x MONTHLY) ^^ 3) (Date 2024 0 31)) = month_index (Date 2024 0 31) + 3
   \<and> day (((\<lambda>x. advance x MONTHLY) ^^ 3) (Date 2024 0 31)) \<le> 31"
proof -
  have h: "valid_date (Date 2024 0 31)"
    by (simp add: valid_date_def days_in_month_def)
  show ?thesis
    using monthly_advance_iterate [OF h, of 3] by simp
qed

text \<open>
  C11. The window of \<open>getMonthlyStats\<close> (\<open>src/app/api/test-monthly-stats/route.js\<close>)
  contains exactly the instants of the calendar month of its reference instant.
\<close>

theorem stats_window_is_calendar_month:
  assumes "valid_instant now" and "valid_instant t"
  shows "in_window (stats_month_window now) t \<longleftrightarrow> same_month t now"
  using assms by (rule stats_window_iff)

theorem stats_window_is_calendar_month_witness:
  "in_window (stats_month_window (Instant (Date 2024 1 10) 5)) (Instant (Date 2024 1 29) 86399999)"
proof -
  have h1: "valid_instant (Instant (Date 2024 1 10) 5)"
    by (simp add: valid_instant_def valid_date_def days_in_month_def is_leap_def ms_per_day_def)
  have h2: "valid_instant (Instant (Date 2024 1 29) 86399999)"
    by (simp add: valid_instant_def valid_date_def days_in_month_def is_leap_def ms_per_day_def)
  show ?thesis
    using stats_window_is_calendar_month [OF h1 h2] by (simp add: same_month_def)
qed

text \<open>
  C4. The window of \<open>getCurrentBudget\<close> (\<open>src/actions/budget.js\<close>) ends at midnight
  at the start of the month's last day (\<open>new Date(y, m + 1, 0)\<close>): an instant of the
  month is inside it iff it is not on the last day, or is exactly midnight of it.  An
  expense made during the last day of the month is not counted against the budget.
\<close>

theorem budget_window_last_day:
  assumes "valid_instant now" and "valid_instant t"
  shows "in_window (budget_month_window now) t \<longleftrightarrow>
           same_month t now
           \<and> (day (i_date t) < days_in_month (year (i_date t)) (month (i_date t)) \<or> i_ms t = 0)"
  using assms by (rule budget_window_iff)

theorem budget_window_last_day_witness:
  "\<not> in_window (budget_month_window (Instant (Date 2024 1 10) 5)) (Instant (Date 2024 1 29) 43200000)"
proof -
  have h1: "valid_instant (Instant (Date 2024 1 10) 5)"
    by (simp add: valid_instant_def valid_date_def days_in_month_def is_leap_def ms_per_day_def)
  have h2: "valid_instant (Instant (Date 2024 1 29) 43200000)"
    by (simp add: valid_instant_def valid_date_def days_in_month_def is_leap_def ms_per_day_def)
  show ?thesis
    using budget_window_last_day [OF h1 h2] by (simp add: days_in_month_def is_leap_def)
qed

text \<open>
  C24. \<open>lastMonth.setMonth(lastMonth.getMonth() - 1)\<close> in the monthly statistics route
  reaches the previous month only when today's day of month exists in it; from March 31
  it carries back into March, so the "last month" statistics report the current month.
\<close>

theorem last_month_overflow:
  assumes "valid_instant now" and "1 \<le> month (i_date now)"
  shows "month (i_date (last_month_of now)) = month (i_date now) - 1 \<longleftrightarrow>
           day (i_date now) \<le> days_in_month (year (i_date now)) (month (i_date now) - 1)"
  using last_month_of_eq [OF assms] assms(2) by (auto simp: Let_def)

theorem last_month_overflow_witness:
  "month (i_date (last_month_of (Instant (Date 2024 2 31) 0))) \<noteq> 1"
proof -
  have h: "valid_instant (Instant (Date 2024 2 31) 0)"
    by (simp add: valid_instant_def valid_date_def days_in_month_def ms_per_day_def)
  show ?thesis
    using last_month_overflow [OF h] by (simp add: days_in_month_def is_leap_def)
qed

end
