(* ===== verification/Ledger.thy ===== *)
theory Ledger
  imports Calendar
begin

text \<open>
  The Aggregator.  The rows of the data store as the source reads them (Prisma's
  \<open>User\<close>, \<open>Account\<close>, \<open>Budget\<close> and \<open>Transaction\<close>), the read side of
  \<open>getCurrentBudget\<close> (\<open>src/actions/budget.js\<close>) with Prisma's \<open>aggregate\<close>/\<open>_sum\<close>,
  the reduce of \<open>getMonthlyStats\<close> (\<open>src/app/api/test-monthly-stats/route.js\<close>) with its
  per-category object, and the client-side totals of the dashboard
  (\<open>dashboard/page.jsx\<close>), the account page (\<open>account/[id]/page.jsx\<close>) and the expense
  breakdown (\<open>transaction-overview.jsx\<close>).  Amounts are integer cents.
\<close>

subsection \<open>Rows of the data store\<close>

datatype tx_type = INCOME | EXPENSE

record transaction =
  tx_id :: txn_id
  tx_user :: user_id
  tx_account :: account_id
  tx_type :: tx_type
  tx_amount :: cents
  tx_category :: string
  tx_date :: instant
  tx_description :: "string option"
  tx_is_recurring :: bool
  tx_interval :: "interval option"
  tx_next_date :: "instant option"

record user =
  u_id :: user_id
  u_clerk_id :: string
  u_name :: string
  u_email :: string

record account =
  a_id :: account_id
  a_user :: user_id
  a_name :: string
  a_type :: string
  a_balance :: cents
  a_is_default :: bool

record budget =
  b_id :: budget_id
  b_user :: user_id
  b_amount :: cents

record db =
  users :: "user list"
  accounts :: "account list"
  budgets :: "budget list"
  transactions :: "transaction list"

datatype api_error = Unauthorized | UserNotFound | NoDefaultAccount | NoBudget

subsection \<open>\<open>getCurrentBudget\<close>\<close>

text \<open>\<open>db.user.findUnique({where: {clerkUserId}})\<close>: clerk ids are unique in the store.\<close>

definition find_user :: "db \<Rightarrow> string \<Rightarrow> user option" where
  "find_user d cid = find (\<lambda>u. u_clerk_id u = cid) (users d)"

text \<open>
  The \<open>where\<close> clause of the expense aggregate.  Prisma drops a filter whose value is
  \<open>undefined\<close>: an absent account id selects every account of the user.
\<close>

definition expense_filter ::
  "user_id \<Rightarrow> account_id option \<Rightarrow> instant \<times> instant \<Rightarrow> transaction \<Rightarrow> bool" where
  "expense_filter uid acc w t \<longleftrightarrow>
     tx_user t = uid \<and> tx_type t = EXPENSE \<and> in_window w (tx_date t)
     \<and> (case acc of None \<Rightarrow> True | Some a \<Rightarrow> tx_account t = a)"

text \<open>\<open>aggregate({_sum: {amount: true}})\<close>: \<open>null\<close> when no row matches.\<close>

definition prisma_sum :: "(transaction \<Rightarrow> bool) \<Rightarrow> transaction list \<Rightarrow> cents option" where
  "prisma_sum P ts =
     (let xs = filter P ts in if xs = [] then None else Some (sum_list (map tx_amount xs)))"

definition get_current_budget ::
  "db \<Rightarrow> string option \<Rightarrow> instant \<Rightarrow> account_id option \<Rightarrow> api_error + (budget option \<times> cents)" where
  "get_current_budget d auth now acc =
     (case auth of
        None \<Rightarrow> Inl Unauthorized
      | Some cid \<Rightarrow>
          (case find_user d cid of
             None \<Rightarrow> Inl UserNotFound
           | Some u \<Rightarrow>
               (let b = find (\<lambda>b. b_user b = u_id u) (budgets d);
                    s = prisma_sum (expense_filter (u_id u) acc (budget_month_window now)) (transactions d)
                in Inr (b, case s of None \<Rightarrow> 0 | Some v \<Rightarrow> v))))"

subsection \<open>\<open>getMonthlyStats\<close>\<close>

record monthly_stats =
  total_expenses :: cents
  total_income :: cents
  by_category :: "string \<rightharpoonup> cents"
  transaction_count :: nat

text \<open>
  Adding an expense to a per-category object: \<open>acc[c] = (acc[c] || 0) + amount\<close>
  (\<open>getMonthlyStats\<close>) and \<open>if (!acc[c]) acc[c] = 0; acc[c] += amount\<close>
  (\<open>DashboardOverview\<close>) both compute this map update.
\<close>

definition add_to_category :: "(string \<rightharpoonup> cents) \<Rightarrow> transaction \<Rightarrow> (string \<rightharpoonup> cents)" where
  "add_to_category acc t =
     acc(tx_category t \<mapsto> (case acc (tx_category t) of None \<Rightarrow> 0 | Some v \<Rightarrow> v) + tx_amount t)"

text \<open>One step of the \<open>reduce\<close>: an expense adds to its category
  (\<open>(byCategory[c] || 0) + amount\<close>), anything else counts as income.\<close>

definition stats_step :: "monthly_stats \<Rightarrow> transaction \<Rightarrow> monthly_stats" where
  "stats_step st t =
     (if tx_type t = EXPENSE
      then st\<lparr>total_expenses := total_expenses st + tx_amount t,
              by_category := add_to_category (by_category st) t\<rparr>
      else st\<lparr>total_income := total_income st + tx_amount t\<rparr>)"

definition stats_rows :: "transaction list \<Rightarrow> user_id \<Rightarrow> instant \<Rightarrow> transaction list" where
  "stats_rows ts uid r = filter (\<lambda>t. tx_user t = uid \<and> in_window (stats_month_window r) (tx_date t)) ts"

definition get_monthly_stats :: "transaction list \<Rightarrow> user_id \<Rightarrow> instant \<Rightarrow> monthly_stats" where
  "get_monthly_stats ts uid r =
     (let xs = stats_rows ts uid r
      in foldl stats_step
           \<lparr>total_expenses = 0, total_income = 0, by_category = Map.empty,
            transaction_count = length xs\<rparr> xs)"

subsection \<open>Client-side totals\<close>

text \<open>\<open>DashboardPage\<close>: total balance and this month's income and expenses.\<close>

definition total_balance :: "account list \<Rightarrow> cents" where
  "total_balance accs = foldl (\<lambda>s a. s + a_balance a) 0 accs"

definition monthly_transactions :: "transaction list \<Rightarrow> instant \<Rightarrow> transaction list" where
  "monthly_transactions ts now = filter (\<lambda>t. same_month (tx_date t) now) ts"

definition sum_of_type :: "tx_type \<Rightarrow> transaction list \<Rightarrow> cents" where
  "sum_of_type k ts = foldl (\<lambda>s t. s + tx_amount t) 0 (filter (\<lambda>t. tx_type t = k) ts)"

definition default_account :: "account list \<Rightarrow> account option" where
  "default_account accs = find a_is_default accs"

text \<open>\<open>AccountPage\<close>: all-time income, expenses and net flow of one account.\<close>

definition net_flow :: "transaction list \<Rightarrow> cents" where
  "net_flow ts = sum_of_type INCOME ts - sum_of_type EXPENSE ts"

text \<open>\<open>DashboardOverview\<close>: the selected account, and its current month's expenses
  grouped by category (the pie chart) with their total.\<close>

definition initial_selected_account :: "account list \<Rightarrow> account_id option" where
  "initial_selected_account accs =
     (case find a_is_default accs of
        Some a \<Rightarrow> Some (a_id a)
      | None \<Rightarrow> (case accs of [] \<Rightarrow> None | a # _ \<Rightarrow> Some (a_id a)))"

definition current_month_expenses ::
  "transaction list \<Rightarrow> account_id option \<Rightarrow> instant \<Rightarrow> transaction list" where
  "current_month_expenses ts sel now =
     filter (\<lambda>t. tx_type t = EXPENSE \<and> same_month (tx_date t) now)
       (filter (\<lambda>t. Some (tx_account t) = sel) ts)"

definition expenses_by_category :: "transaction list \<Rightarrow> (string \<rightharpoonup> cents)" where
  "expenses_by_category ts = foldl add_to_category Map.empty ts"

text \<open>\<open>Object.entries(expensesByCategory)\<close> lists the keys in insertion order, the
  order in which the categories first occur.\<close>

definition pie_chart_data :: "transaction list \<Rightarrow> (string \<times> cents) list" where
  "pie_chart_data es =
     map (\<lambda>c. (c, the (expenses_by_category es c))) (rev (remdups (rev (map tx_category es))))"

subsection \<open>Characterisation of the reduces\<close>

definition cat_sum :: "string \<Rightarrow> transaction list \<Rightarrow> cents" where
  "cat_sum c ts = sum_list (map tx_amount (filter (\<lambda>t. tx_category t = c) ts))"

lemma cat_sum_Cons [ledger_simps]:
  "cat_sum c (t # ts) = (if tx_category t = c then tx_amount t else 0) + cat_sum c ts"
  by (simp add: cat_sum_def)

lemma cat_sum_notin: "c \<notin> tx_category ` set ts \<Longrightarrow> cat_sum c ts = 0"
  by (induction ts) (auto simp: ledger_simps cat_sum_def)

lemma add_to_category_apply:
  "add_to_category m t c =
     (if tx_category t = c then Some ((case m c of None \<Rightarrow> 0 | Some v \<Rightarrow> v) + tx_amount t) else m c)"
  by (auto simp: add_to_category_def)

lemma foldl_add_to_category:
  "foldl add_to_category m ts c =
     (if c \<in> tx_category ` set ts
      then Some ((case m c of None \<Rightarrow> 0 | Some v \<Rightarrow> v) + cat_sum c ts)
      else m c)"
proof (induction ts arbitrary: m)
  case Nil
  then show ?case by simp
next
  case (Cons t ts)
  have "foldl add_to_category m (t # ts) c = foldl add_to_category (add_to_category m t) ts c"
    by simp
  also have "\<dots> = (if c \<in> tx_category ` set ts
      then Some ((case add_to_category m t c of None \<Rightarrow> 0 | Some v \<Rightarrow> v) + cat_sum c ts)
      else add_to_category m t c)"
    by (rule Cons.IH)
  also have "\<dots> = (if c \<in> tx_category ` set (t # ts)
      then Some ((case m c of None \<Rightarrow> 0 | Some v \<Rightarrow> v) + cat_sum c (t # ts))
      else m c)"
    by (auto simp: add_to_category_apply ledger_simps cat_sum_notin add_ac split: option.split)
  finally show ?case .
qed

lemma foldl_stats_step:
  "foldl stats_step st xs =
     st\<lparr>total_expenses := total_expenses st + sum_of_type EXPENSE xs,
        total_income := total_income st + sum_list (map tx_amount (filter (\<lambda>t. tx_type t \<noteq> EXPENSE) xs)),
        by_category := foldl add_to_category (by_category st) (filter (\<lambda>t. tx_type t = EXPENSE) xs)\<rparr>"
  by (induction xs arbitrary: st) (simp_all add: stats_step_def sum_of_type_def foldl_add_sum_list)

lemma sum_of_type_eq [ledger_simps]:
  "sum_of_type k ts = sum_list (map tx_amount (filter (\<lambda>t. tx_type t = k) ts))"
  by (simp add: sum_of_type_def foldl_add_sum_list)

lemma tx_type_not_expense: "tx_type t \<noteq> EXPENSE \<longleftrightarrow> tx_type t = INCOME"
  by (cases "tx_type t") simp_all

lemma current_budget_Some:
  assumes "find_user d cid = Some u"
  shows "get_current_budget d (Some cid) now acc =
           Inr (find (\<lambda>b. b_user b = u_id u) (budgets d),
                sum_list (map tx_amount (filter (expense_filter (u_id u) acc (budget_month_window now))
                  (transactions d))))"
  using assms by (simp add: get_current_budget_def prisma_sum_def Let_def)

subsection \<open>Sample store for the witnesses\<close>

abbreviation sample_user :: user where
  "sample_user \<equiv> \<lparr>u_id = 1, u_clerk_id = ''clerk_1'', u_name = ''Alex'', u_email = ''alex@example.com''\<rparr>"

abbreviation sample_budget :: budget where
  "sample_budget \<equiv> \<lparr>b_id = 7, b_user = 1, b_amount = 100000\<rparr>"

abbreviation sample_txn :: "txn_id \<Rightarrow> tx_type \<Rightarrow> cents \<Rightarrow> string \<Rightarrow> instant \<Rightarrow> transaction" where
  "sample_txn i k a c t \<equiv> \<lparr>tx_id = i, tx_user = 1, tx_account = 3, tx_type = k, tx_amount = a,
     tx_category = c, tx_date = t, tx_description = None, tx_is_recurring = False,
     tx_interval = None, tx_next_date = None\<rparr>"

abbreviation sample_rows :: "transaction list" where
  "sample_rows \<equiv> [sample_txn 1 EXPENSE 5000 ''food'' (Instant (Date 2024 1 10) 0),
                  sample_txn 2 EXPENSE 2500 ''food'' (Instant (Date 2024 1 29) 43200000),
                  sample_txn 3 INCOME 10000 ''salary'' (Instant (Date 2024 1 5) 0)]"

abbreviation sample_account :: account where
  "sample_account \<equiv> \<lparr>a_id = 3, a_user = 1, a_name = ''Main'', a_type = ''CURRENT'', a_balance = 250000, a_is_default = True\<rparr>"

abbreviation sample_db :: db where
  "sample_db \<equiv> \<lparr>users = [sample_user], accounts = [sample_account], budgets = [sample_budget],
     transactions = sample_rows\<rparr>"

lemma sample_rows_valid: "\<forall>t \<in> set sample_rows. valid_instant (tx_date t) \<and> tx_user t = 1"
  by (simp add: valid_instant_def valid_date_def days_in_month_def is_leap_def ms_per_day_def)

subsection \<open>Properties of the aggregator\<close>

text \<open>
  C3. For a known user, \<open>getCurrentBudget\<close> returns the user's budget (the first
  one stored) and the sum of the user's expenses (of the given account, or of all
  accounts when none is given) dated in the calendar month of the current instant,
  leaving out those made on the month's last day after midnight.
\<close>

theorem current_budget_expenses_month:
  assumes "find_user d cid = Some u" and "valid_instant now"
    and "\<forall>t \<in> set (transactions d). valid_instant (tx_date t)"
  shows "get_current_budget d (Some cid) now acc =
           Inr (find (\<lambda>b. b_user b = u_id u) (budgets d),
                sum_list (map tx_amount (filter (\<lambda>t. tx_user t = u_id u \<and> tx_type t = EXPENSE
                   \<and> (case acc of None \<Rightarrow> True | Some a \<Rightarrow> tx_account t = a)
                   \<and> same_month (tx_date t) now
                   \<and> (day (i_date (tx_date t)) < days_in_month (year (i_date (tx_date t))) (month (i_date (tx_date t)))
                      \<or> i_ms (tx_date t) = 0)) (transactions d))))"
proof -
  have "filter (expense_filter (u_id u) acc (budget_month_window now)) (transactions d)
        = filter (\<lambda>t. tx_user t = u_id u \<and> tx_type t = EXPENSE
                   \<and> (case acc of None \<Rightarrow> True | Some a \<Rightarrow> tx_account t = a)
                   \<and> same_month (tx_date t) now
                   \<and> (day (i_date (tx_date t)) < days_in_month (year (i_date (tx_date t))) (month (i_date (tx_date t)))
                      \<or> i_ms (tx_date t) = 0)) (transactions d)"
    using assms(2,3) by (intro filter_cong) (auto simp: expense_filter_def budget_window_iff)
  then show ?thesis
    using current_budget_Some [OF assms(1)] by simp
qed

text \<open>
  \<open>getCurrentBudget\<close> fails with \<open>Unauthorized\<close> when there is no session and
  with \<open>User not found\<close> when the session's Clerk id has no user row.
\<close>

theorem current_budget_errors:
  "get_current_budget d None now acc = Inl Unauthorized
   \<and> (find_user d cid = None \<longrightarrow> get_current_budget d (Some cid) now acc = Inl UserNotFound)"
  by (simp add: get_current_budget_def)

text \<open>
  When no transaction matches the expense query (in particular for an empty
  ledger), Prisma's \<open>_sum\<close> is \<open>null\<close> and \<open>getCurrentBudget\<close> reports 0 expenses,
  not an error.
\<close>

theorem current_budget_no_rows:
  assumes "find_user d cid = Some u"
    and "\<forall>t \<in> set (transactions d). \<not> expense_filter (u_id u) acc (budget_month_window now) t"
  shows "get_current_budget d (Some cid) now acc = Inr (find (\<lambda>b. b_user b = u_id u) (budgets d), 0)"
proof -
  have "filter (expense_filter (u_id u) acc (budget_month_window now)) (transactions d) = []"
    using assms(2) by (simp add: filter_empty_conv)
  then show ?thesis using current_budget_Some [OF assms(1)] by simp
qed

text \<open>
  C5. The per-category object built by \<open>getMonthlyStats\<close>' reduce maps a category to
  the sum of the month's expenses in it, and has no entry for a category without an
  expense that month: the fold refines the abstract group-by.
\<close>

theorem monthly_stats_by_category:
  "by_category (get_monthly_stats ts uid r) c =
     (let es = filter (\<lambda>t. tx_type t = EXPENSE) (stats_rows ts uid r)
      in if c \<in> tx_category ` set es then Some (cat_sum c es) else None)"
  by (simp add: get_monthly_stats_def foldl_stats_step foldl_add_to_category Let_def)

text \<open>
  The totals of \<open>getMonthlyStats\<close> agree with its breakdown: total expenses are the
  sum of the per-category sums, expenses plus income is the sum of all the month's
  amounts, and the count is the number of the month's transactions.
\<close>

theorem monthly_stats_totals:
  "total_expenses (get_monthly_stats ts uid r) =
     sum_list (map (\<lambda>c. cat_sum c (filter (\<lambda>t. tx_type t = EXPENSE) (stats_rows ts uid r)))
       (remdups (map tx_category (filter (\<lambda>t. tx_type t = EXPENSE) (stats_rows ts uid r)))))
   \<and> total_expenses (get_monthly_stats ts uid r) + total_income (get_monthly_stats ts uid r)
       = sum_list (map tx_amount (stats_rows ts uid r))
   \<and> transaction_count (get_monthly_stats ts uid r) = length (stats_rows ts uid r)"
proof (intro conjI)
  show "total_expenses (get_monthly_stats ts uid r) =
     sum_list (map (\<lambda>c. cat_sum c (filter (\<lambda>t. tx_type t = EXPENSE) (stats_rows ts uid r)))
       (remdups (map tx_category (filter (\<lambda>t. tx_type t = EXPENSE) (stats_rows ts uid r)))))"
    using sum_list_group_by_key [of tx_amount tx_category "filter (\<lambda>t. tx_type t = EXPENSE) (stats_rows ts uid r)"]
    by (simp add: get_monthly_stats_def foldl_stats_step sum_of_type_eq cat_sum_def Let_def)
  show "total_expenses (get_monthly_stats ts uid r) + total_income (get_monthly_stats ts uid r)
       = sum_list (map tx_amount (stats_rows ts uid r))"
    using sum_list_map_filter_split [of tx_amount "\<lambda>t. tx_type t = EXPENSE" "stats_rows ts uid r"]
    by (simp add: get_monthly_stats_def foldl_stats_step sum_of_type_eq Let_def)
  show "transaction_count (get_monthly_stats ts uid r) = length (stats_rows ts uid r)"
    by (simp add: get_monthly_stats_def foldl_stats_step Let_def)
qed

text \<open>
  C37. The dashboard's client-side "monthly income/expenses" (filter on
  \<open>getMonth()\<close>/\<open>getFullYear()\<close>, then sum) agree with the totals of
  \<open>getMonthlyStats\<close> for the same user and month.
\<close>

theorem dashboard_matches_stats:
  assumes "valid_instant now" and "\<forall>t \<in> set ts. valid_instant (tx_date t) \<and> tx_user t = uid"
  shows "sum_of_type EXPENSE (monthly_transactions ts now) = total_expenses (get_monthly_stats ts uid now)
       \<and> sum_of_type INCOME (monthly_transactions ts now) = total_income (get_monthly_stats ts uid now)"
proof -
  have rows: "stats_rows ts uid now = monthly_transactions ts now"
    using assms unfolding stats_rows_def monthly_transactions_def
    by (intro filter_cong) (auto simp: stats_window_iff)
  show ?thesis
    by (simp add: get_monthly_stats_def foldl_stats_step rows Let_def sum_of_type_eq tx_type_not_expense)
qed

text \<open>
  In the dashboard's expense breakdown the pie slices (one per category of this
  month's expenses of the selected account) add up to the total displayed above them.
\<close>

theorem overview_breakdown_total:
  "sum_list (map snd (pie_chart_data (current_month_expenses ts sel now)))
   = foldl (\<lambda>s t. s + tx_amount t) 0 (current_month_expenses ts sel now)"
proof -
  let ?es = "current_month_expenses ts sel now"
  have "sum_list (map snd (pie_chart_data ?es))
        = sum_list (map (\<lambda>c. cat_sum c ?es) (rev (remdups (rev (map tx_category ?es)))))"
    unfolding pie_chart_data_def map_map comp_def snd_conv
    by (intro arg_cong [where f = sum_list] map_cong)
       (auto simp: expenses_by_category_def foldl_add_to_category)
  also have "\<dots> = sum_list (map tx_amount ?es)"
    using sum_list_group_by_distinct_keys [of "rev (remdups (rev (map tx_category ?es)))" tx_category ?es tx_amount]
    by (simp add: cat_sum_def)
  also have "\<dots> = foldl (\<lambda>s t. s + tx_amount t) 0 ?es"
    by (simp add: foldl_add_sum_list)
  finally show ?thesis .
qed

theorem current_budget_expenses_month_witness:
  "get_current_budget sample_db (Some ''clerk_1'') (Instant (Date 2024 1 10) 5) (Some 3)
     = Inr (Some sample_budget, 5000)"
proof -
  have h1: "find_user sample_db ''clerk_1'' = Some sample_user" by (simp add: find_user_def)
  have h2: "valid_instant (Instant (Date 2024 1 10) 5)"
    by (simp add: valid_instant_def valid_date_def days_in_month_def is_leap_def ms_per_day_def)
  have h3: "\<forall>t \<in> set (transactions sample_db). valid_instant (tx_date t)"
    using sample_rows_valid by simp
  show ?thesis
    using current_budget_expenses_month [OF h1 h2 h3, of "Some 3"]
    by (simp add: same_month_def days_in_month_def is_leap_def)
qed

theorem current_budget_errors_witness:
  "get_current_budget sample_db None (Instant (Date 2024 1 10) 5) None = Inl Unauthorized
   \<and> get_current_budget sample_db (Some ''nobody'') (Instant (Date 2024 1 10) 5) None = Inl UserNotFound"
proof -
  have h: "find_user sample_db ''nobody'' = None" by (simp add: find_user_def)
  show ?thesis
    using current_budget_errors [of sample_db "Instant (Date 2024 1 10) 5" None "''nobody''"] h by simp
qed

theorem current_budget_no_rows_witness:
  "get_current_budget (sample_db\<lparr>transactions := []\<rparr>) (Some ''clerk_1'') (Instant (Date 2024 1 10) 5) None
     = Inr (Some sample_budget, 0)"
proof -
  have h1: "find_user (sample_db\<lparr>transactions := []\<rparr>) ''clerk_1'' = Some sample_user"
    by (simp add: find_user_def)
  have h2: "\<forall>t \<in> set (transactions (sample_db\<lparr>transactions := []\<rparr>)).
      \<not> expense_filter (u_id sample_user) None (budget_month_window (Instant (Date 2024 1 10) 5)) t"
    by simp
  show ?thesis using current_budget_no_rows [OF h1 h2] by simp
qed

theorem dashboard_matches_stats_witness:
  "sum_of_type EXPENSE (monthly_transactions sample_rows (Instant (Date 2024 1 10) 5))
     = total_expenses (get_monthly_stats sample_rows 1 (Instant (Date 2024 1 10) 5))
   \<and> sum_of_type INCOME (monthly_transactions sample_rows (Instant (Date 2024 1 10) 5))
     = total_income (get_monthly_stats sample_rows 1 (Instant (Date 2024 1 10) 5))"
proof -
  have h: "valid_instant (Instant (Date 2024 1 10) 5)"
    by (simp add: valid_instant_def valid_date_def days_in_month_def is_leap_def ms_per_day_def)
  show ?thesis using dashboard_matches_stats [OF h sample_rows_valid] .
qed

end
