(* ===== verification/Budget.thy ===== *)
theory Budget
  imports Ledger
begin

text \<open>
  Budgets.  JavaScript number arithmetic as far as the budget code uses it (division
  by zero gives \<open>Infinity\<close> or \<open>NaN\<close>, and every comparison with \<open>NaN\<close> is
  false), the percentage and the progress bands of \<open>BudgetProgress\<close>
  (\<open>src/app/(main)/dashboard/_components/budget-progress.jsx\<close>), its client-side input
  check, and the server action \<open>updateBudget\<close> (\<open>src/actions/budget.js\<close>) with
  Prisma's upsert on the user's budget row.
\<close>

subsection \<open>JavaScript numbers\<close>

text \<open>
  A finite double is modelled by the exact rational it approximates (the amounts are
  decimals with two places, whose quotients the model keeps exact); the three special
  values are kept apart.
\<close>

datatype jsnum = Num rat | PosInf | NegInf | NaN

definition js_div :: "rat \<Rightarrow> rat \<Rightarrow> jsnum" where
  "js_div a b =
     (if b \<noteq> 0 then Num (a / b) else if 0 < a then PosInf else if a < 0 then NegInf else NaN)"

fun js_times :: "jsnum \<Rightarrow> rat \<Rightarrow> jsnum" where
  "js_times (Num x) c = Num (x * c)"
| "js_times PosInf c = (if 0 < c then PosInf else if c < 0 then NegInf else NaN)"
| "js_times NegInf c = (if 0 < c then NegInf else if c < 0 then PosInf else NaN)"
| "js_times NaN c = NaN"

text \<open>\<open>x >= c\<close> and \<open>x <= c\<close> for a finite constant \<open>c\<close>.\<close>

fun js_ge :: "jsnum \<Rightarrow> rat \<Rightarrow> bool" where
  "js_ge (Num x) c = (c \<le> x)"
| "js_ge PosInf c = True"
| "js_ge NegInf c = False"
| "js_ge NaN c = False"

fun js_le :: "jsnum \<Rightarrow> rat \<Rightarrow> bool" where
  "js_le (Num x) c = (x \<le> c)"
| "js_le PosInf c = False"
| "js_le NegInf c = True"
| "js_le NaN c = False"

text \<open>
  \<open>(totalExpenses / budgetAmount) * 100\<close>.  The source divides amounts in currency
  units (\<open>toNumber()\<close> of the decimals); the quotient of the amounts in cents is the
  same number, with the same sign when the divisor is zero.
\<close>

definition percent_used :: "cents \<Rightarrow> cents \<Rightarrow> jsnum" where
  "percent_used expenses amount = js_times (js_div (of_int expenses) (of_int amount)) 100"

subsection \<open>\<open>BudgetProgress\<close>\<close>

text \<open>\<open>percentUsed = initialBudget ? (currentExpenses / initialBudget.amount) * 100 : 0\<close>.\<close>

definition progress_percent :: "budget option \<Rightarrow> cents \<Rightarrow> jsnum" where
  "progress_percent b e = (case b of None \<Rightarrow> Num 0 | Some bb \<Rightarrow> percent_used e (b_amount bb))"

text \<open>\<open>getProgressColor\<close>, \<open>getProgressText\<close>, \<open>getProgressTextColor\<close>: three
  functions with the same cascade of thresholds.\<close>

definition get_progress_color :: "jsnum \<Rightarrow> string" where
  "get_progress_color p =
     (if js_ge p 90 then ''#ef4444'' else if js_ge p 75 then ''#eab308''
      else if js_ge p 50 then ''#3b82f6'' else ''#10b981'')"

definition get_progress_text :: "jsnum \<Rightarrow> string" where
  "get_progress_text p =
     (if js_ge p 90 then ''Critical'' else if js_ge p 75 then ''Warning''
      else if js_ge p 50 then ''Moderate'' else ''Good'')"

definition get_progress_text_color :: "jsnum \<Rightarrow> string" where
  "get_progress_text_color p =
     (if js_ge p 90 then ''text-red-600'' else if js_ge p 75 then ''text-yellow-600''
      else if js_ge p 50 then ''text-blue-600'' else ''text-emerald-600'')"

text \<open>
  \<open>handleUpdateBudget\<close>: \<open>amount = parseFloat(newBudget)\<close>; when
  \<open>isNaN(amount) || amount <= 0\<close> the edit is refused with a toast, otherwise
  \<open>updateBudget(amount)\<close> is called.  The parsed number is the input.
\<close>

definition handle_update_budget :: "jsnum \<Rightarrow> jsnum option" where
  "handle_update_budget x = (if x = NaN \<or> js_le x 0 then None else Some x)"

subsection \<open>\<open>updateBudget\<close>\<close>

text \<open>
  \<open>db.budget.upsert({where: {userId}, update: {amount}, create: {userId, amount}})\<close>:
  the user's budget row gets the new amount, or a row is created with a fresh id.  The
  server does not check the amount.  A thrown error is returned as
  \<open>{success: false}\<close>, which is the left value here.
\<close>

definition upsert_budget :: "budget list \<Rightarrow> user_id \<Rightarrow> cents \<Rightarrow> budget_id \<Rightarrow> budget list \<times> budget" where
  "upsert_budget bs uid amt fresh =
     (case find (\<lambda>b. b_user b = uid) bs of
        Some b \<Rightarrow> (map (\<lambda>x. if b_user x = uid then x\<lparr>b_amount := amt\<rparr> else x) bs, b\<lparr>b_amount := amt\<rparr>)
      | None \<Rightarrow> (bs @ [\<lparr>b_id = fresh, b_user = uid, b_amount = amt\<rparr>],
                 \<lparr>b_id = fresh, b_user = uid, b_amount = amt\<rparr>))"

definition update_budget ::
  "db \<Rightarrow> string option \<Rightarrow> cents \<Rightarrow> budget_id \<Rightarrow> api_error + (db \<times> budget)" where
  "update_budget d auth amt fresh =
     (case auth of
        None \<Rightarrow> Inl Unauthorized
      | Some cid \<Rightarrow>
          (case find_user d cid of
             None \<Rightarrow> Inl UserNotFound
           | Some u \<Rightarrow>
               (let (bs, b) = upsert_budget (budgets d) (u_id u) amt fresh
                in Inr (d\<lparr>budgets := bs\<rparr>, b))))"

text \<open>The store keeps at most one budget per user (\<open>userId\<close> is unique).\<close>

definition one_budget_per_user :: "db \<Rightarrow> bool" where
  "one_budget_per_user d \<longleftrightarrow> distinct (map b_user (budgets d))"

subsection \<open>Facts about percentages and the upsert\<close>

lemma percent_used_pos:
  "0 < amt \<Longrightarrow> percent_used e amt = Num (of_int e * 100 / of_int amt)"
  by (simp add: percent_used_def js_div_def)

lemma percent_ge_iff:
  assumes "0 < amt"
  shows "js_ge (percent_used e amt) c \<longleftrightarrow> c * of_int amt \<le> 100 * of_int e"
proof -
  have "0 < (of_int amt :: rat)" using assms by simp
  then show ?thesis
    using assms by (simp add: percent_used_pos pos_le_divide_eq mult.commute)
qed

lemma percent_used_zero_budget:
  "percent_used e 0 = (if 0 < e then PosInf else if e < 0 then NegInf else NaN)"
  by (simp add: percent_used_def js_div_def)

lemma find_upsert_budget:
  "find (\<lambda>b. b_user b = uid) (fst (upsert_budget bs uid amt fresh)) = Some (snd (upsert_budget bs uid amt fresh))"
proof (cases "find (\<lambda>b. b_user b = uid) bs")
  case None
  then show ?thesis by (simp add: upsert_budget_def find_append_list)
next
  case (Some b)
  then have "b_user b = uid" by (simp add: find_Some_iff) (metis nth_mem)
  moreover have "find (\<lambda>b. b_user b = uid) (map (\<lambda>x. if b_user x = uid then x\<lparr>b_amount := amt\<rparr> else x) bs)
        = map_option (\<lambda>x. if b_user x = uid then x\<lparr>b_amount := amt\<rparr> else x) (find (\<lambda>b. b_user b = uid) bs)"
    by (rule find_map_invariant) simp
  ultimately show ?thesis using Some by (simp add: upsert_budget_def)
qed

lemma map_b_user_upsert:
  "map b_user (fst (upsert_budget bs uid amt fresh)) =
     (case find (\<lambda>b. b_user b = uid) bs of Some _ \<Rightarrow> map b_user bs | None \<Rightarrow> map b_user bs @ [uid])"
  by (simp add: upsert_budget_def comp_def if_distrib split: option.split)

lemma upsert_budget_users:
  "distinct (map b_user bs) \<Longrightarrow> distinct (map b_user (fst (upsert_budget bs uid amt fresh)))"
  by (auto simp: map_b_user_upsert find_None_iff split: option.split)

lemma update_budget_Inr:
  assumes "update_budget d (Some cid) amt fresh = Inr (d', b)"
  obtains u where "find_user d cid = Some u"
    and "d' = d\<lparr>budgets := fst (upsert_budget (budgets d) (u_id u) amt fresh)\<rparr>"
    and "b = snd (upsert_budget (budgets d) (u_id u) amt fresh)"
  using assms by (cases "find_user d cid") (auto simp: update_budget_def split: prod.splits)

subsection \<open>Properties of budgets\<close>

text \<open>
  C9. \<open>updateBudget\<close> followed by \<open>getCurrentBudget\<close> returns the budget just written,
  with the amount given, and the same expenses as before: the upsert and the read agree
  on which row is the user's budget.
\<close>

theorem update_budget_then_get:
  assumes "update_budget d (Some cid) amt fresh = Inr (d', b)"
  shows "b_amount b = amt
         \<and> get_current_budget d' (Some cid) now acc
             = map_sum id (\<lambda>(_, e). (Some b, e)) (get_current_budget d (Some cid) now acc)"
proof -
  obtain u where u: "find_user d cid = Some u"
    and d': "d' = d\<lparr>budgets := fst (upsert_budget (budgets d) (u_id u) amt fresh)\<rparr>"
    and b: "b = snd (upsert_budget (budgets d) (u_id u) amt fresh)"
    using assms by (rule update_budget_Inr)
  have "b_amount b = amt"
    using b by (simp add: upsert_budget_def split: option.split)
  moreover have "find_user d' cid = Some u"
    using u d' by (simp add: find_user_def)
  ultimately show ?thesis
    using u b d' find_upsert_budget [of "u_id u" "budgets d" amt fresh]
    by (simp add: current_budget_Some)
qed

text \<open>
  C10. \<open>updateBudget\<close> keeps at most one budget row per user: it updates the user's row
  when there is one and creates one otherwise.
\<close>

theorem update_budget_keeps_one_per_user:
  assumes "one_budget_per_user d" and "update_budget d auth amt fresh = Inr (d', b)"
  shows "one_budget_per_user d'"
proof -
  obtain cid where "auth = Some cid" using assms(2) by (cases auth) (simp_all add: update_budget_def)
  with assms(2) have "update_budget d (Some cid) amt fresh = Inr (d', b)" by simp
  then obtain u where "find_user d cid = Some u"
    and "d' = d\<lparr>budgets := fst (upsert_budget (budgets d) (u_id u) amt fresh)\<rparr>"
    and "b = snd (upsert_budget (budgets d) (u_id u) amt fresh)"
    by (rule update_budget_Inr)
  then show ?thesis
    using assms(1) upsert_budget_users by (simp add: one_budget_per_user_def)
qed

text \<open>
  For a positive budget the progress label of \<open>BudgetProgress\<close> is decided by exact
  integer comparisons of the amounts: Critical from 90\<open>%\<close>, Warning from 75\<open>%\<close>,
  Moderate from 50\<open>%\<close>, Good below.
\<close>

theorem progress_bands:
  assumes "0 < b_amount b"
  shows "get_progress_text (progress_percent (Some b) e) =
           (if 9 * b_amount b \<le> 10 * e then ''Critical''
            else if 3 * b_amount b \<le> 4 * e then ''Warning''
            else if b_amount b \<le> 2 * e then ''Moderate'' else ''Good'')"
  using assms by (simp add: progress_percent_def get_progress_text_def percent_ge_iff)

text \<open>
  With a budget of 0 the percentage is \<open>Infinity\<close> or \<open>NaN\<close>: the label is
  Critical as soon as anything is spent and Good otherwise; nothing fails.
\<close>

theorem progress_zero_budget:
  assumes "b_amount b = 0"
  shows "get_progress_text (progress_percent (Some b) e) = (if 0 < e then ''Critical'' else ''Good'')"
  using assms by (simp add: progress_percent_def get_progress_text_def percent_used_zero_budget)

text \<open>
  The client check of \<open>handleUpdateBudget\<close> passes exactly the positive numbers and
  \<open>Infinity\<close> (the result of \<open>parseFloat("Infinity")\<close>) on to \<open>updateBudget\<close>.
\<close>

theorem budget_input_check:
  "handle_update_budget x = (if (\<exists>q. x = Num q \<and> 0 < q) \<or> x = PosInf then Some x else None)"
  by (cases x) (auto simp: handle_update_budget_def)

theorem update_budget_then_get_witness:
  "b_amount (sample_budget\<lparr>b_amount := 150000\<rparr>) = 150000
   \<and> get_current_budget (sample_db\<lparr>budgets := [sample_budget\<lparr>b_amount := 150000\<rparr>]\<rparr>)
        (Some ''clerk_1'') (Instant (Date 2024 1 10) 5) (Some 3)
     = map_sum id (\<lambda>(_, e). (Some (sample_budget\<lparr>b_amount := 150000\<rparr>), e))
         (get_current_budget sample_db (Some ''clerk_1'') (Instant (Date 2024 1 10) 5) (Some 3))"
proof -
  have h: "update_budget sample_db (Some ''clerk_1'') 150000 8
             = Inr (sample_db\<lparr>budgets := [sample_budget\<lparr>b_amount := 150000\<rparr>]\<rparr>,
                    sample_budget\<lparr>b_amount := 150000\<rparr>)"
    by (simp add: update_budget_def find_user_def upsert_budget_def)
  show ?thesis using update_budget_then_get [OF h] .
qed

theorem update_budget_keeps_one_per_user_witness:
  "one_budget_per_user (sample_db\<lparr>budgets := []\<rparr>)
   \<and> one_budget_per_user (sample_db\<lparr>budgets := [\<lparr>b_id = 8, b_user = 1, b_amount = 150000\<rparr>]\<rparr>)"
proof -
  have h1: "one_budget_per_user (sample_db\<lparr>budgets := []\<rparr>)"
    by (simp add: one_budget_per_user_def)
  have h2: "update_budget (sample_db\<lparr>budgets := []\<rparr>) (Some ''clerk_1'') 150000 8
             = Inr (sample_db\<lparr>budgets := [\<lparr>b_id = 8, b_user = 1, b_amount = 150000\<rparr>]\<rparr>,
                    \<lparr>b_id = 8, b_user = 1, b_amount = 150000\<rparr>)"
    by (simp add: update_budget_def find_user_def upsert_budget_def)
  show ?thesis using h1 update_budget_keeps_one_per_user [OF h1 h2] by simp
qed

theorem progress_bands_witness:
  "get_progress_text (progress_percent (Some sample_budget) 85000) = ''Warning''"
proof -
  have h: "0 < b_amount sample_budget" by simp
  show ?thesis using progress_bands [OF h, of 85000] by simp
qed

theorem progress_zero_budget_witness:
  "get_progress_text (progress_percent (Some (sample_budget\<lparr>b_amount := 0\<rparr>)) 1) = ''Critical''"
  using progress_zero_budget [of "sample_budget\<lparr>b_amount := 0\<rparr>" 1] by simp

end
