(* ===== verification/Budget_Alert.thy ===== *)
theory Budget_Alert
  imports Budget
begin

text \<open>
  The Budget Alert Evaluator.  Two models side by side: the test route
  \<open>POST /api/test-budget-alerts\<close> (\<open>src/app/api/test-budget-alerts/route.js\<close>), which
  is the only alert code under \<open>src/\<close>, and the evaluator of the specification
  (section 4.4) with its record of alerted periods, run tick by tick as the scheduler
  would run it.  The route's decision is compared with the evaluator's.
\<close>

subsection \<open>The test alert route\<close>

record alert_payload =
  ap_percentage :: jsnum
  ap_budget_amount :: cents
  ap_total_expenses :: cents
  ap_account_name :: string

text \<open>What the route sends out: an Inngest event and a direct e-mail.\<close>

datatype outbound = InngestEvent user_id | DirectEmail string alert_payload

record alert_report =
  rep_budget_amount :: cents
  rep_total_expenses :: cents
  rep_percentage :: jsnum
  rep_should_send :: bool

text \<open>
  The aggregate's \<open>where\<close>: the user's expenses on the default account dated from
  \<open>startDate\<close> on, with no upper bound.
\<close>

definition route_expense_filter :: "user_id \<Rightarrow> account_id \<Rightarrow> instant \<Rightarrow> transaction \<Rightarrow> bool" where
  "route_expense_filter uid aid now t \<longleftrightarrow>
     tx_user t = uid \<and> tx_account t = aid \<and> tx_type t = EXPENSE \<and> alert_start_date now \<le> tx_date t"

text \<open>
  The handler: authentication, the user with its default accounts and its budgets
  (\<open>include\<close>), the first of each, the aggregate, the percentage, then both
  dispatches and the report.  Each early \<open>return NextResponse.json(\<dots>, {status})\<close> is
  a left value.
\<close>

definition test_budget_alerts ::
  "db \<Rightarrow> string option \<Rightarrow> instant \<Rightarrow> api_error + (alert_report \<times> outbound list)" where
  "test_budget_alerts d auth now =
     (case auth of
        None \<Rightarrow> Inl Unauthorized
      | Some cid \<Rightarrow>
          (case find_user d cid of
             None \<Rightarrow> Inl UserNotFound
           | Some u \<Rightarrow>
               (case filter (\<lambda>a. a_user a = u_id u \<and> a_is_default a) (accounts d) of
                  [] \<Rightarrow> Inl NoDefaultAccount
                | acc # _ \<Rightarrow>
                    (case filter (\<lambda>b. b_user b = u_id u) (budgets d) of
                       [] \<Rightarrow> Inl NoBudget
                     | b # _ \<Rightarrow>
                         (let total = (case prisma_sum (route_expense_filter (u_id u) (a_id acc) now)
                                              (transactions d) of None \<Rightarrow> 0 | Some s \<Rightarrow> s);
                              p = percent_used total (b_amount b)
                          in Inr (\<lparr>rep_budget_amount = b_amount b, rep_total_expenses = total,
                                   rep_percentage = p, rep_should_send = js_ge p 80\<rparr>,
                                  [InngestEvent (u_id u),
                                   DirectEmail (u_email u)
                                     \<lparr>ap_percentage = p, ap_budget_amount = b_amount b,
                                      ap_total_expenses = total, ap_account_name = a_name acc\<rparr>]))))))"

subsection \<open>The evaluator of the specification\<close>

text \<open>
  A period is a calendar month.  The evaluator refuses a budget that is not positive,
  computes the percentage exactly, and fires when it reaches 80 and the period is not
  yet recorded for the budget.  A tick of the dispatcher evaluates, records the period
  on a positive decision and emits the notification payload of spec section 4.4.
\<close>

type_synonym period = "int \<times> nat"

definition period_of :: "instant \<Rightarrow> period" where
  "period_of t = (year (i_date t), month (i_date t))"

datatype alert_decision = NoAlert | ShouldAlert rat

record notification =
  n_percent :: rat
  n_budget_amount :: cents
  n_total_expenses :: cents
  n_account_name :: string

definition evaluate_alert :: "budget \<Rightarrow> cents \<Rightarrow> period \<Rightarrow> (budget_id \<times> period) list \<Rightarrow> alert_decision" where
  "evaluate_alert b e per sent =
     (if b_amount b \<le> 0 then NoAlert
      else (let p = of_int e * 100 / of_int (b_amount b)
            in if 80 \<le> p \<and> (b_id b, per) \<notin> set sent then ShouldAlert p else NoAlert))"

definition alert_tick ::
  "budget \<Rightarrow> account \<Rightarrow> cents \<Rightarrow> instant \<Rightarrow> (budget_id \<times> period) list
     \<Rightarrow> (budget_id \<times> period) list \<times> notification list" where
  "alert_tick b acc e now sent =
     (case evaluate_alert b e (period_of now) sent of
        NoAlert \<Rightarrow> (sent, [])
      | ShouldAlert p \<Rightarrow>
          (sent @ [(b_id b, period_of now)],
           [\<lparr>n_percent = p, n_budget_amount = b_amount b, n_total_expenses = e,
             n_account_name = a_name acc\<rparr>]))"

text \<open>Successive ticks for one budget, each with the expenses and the clock it observes.\<close>

fun alert_ticks ::
  "budget \<Rightarrow> account \<Rightarrow> (cents \<times> instant) list \<Rightarrow> (budget_id \<times> period) list
     \<Rightarrow> (budget_id \<times> period) list \<times> notification list" where
  "alert_ticks b acc [] sent = (sent, [])"
| "alert_ticks b acc ((e, now) # obs) sent =
     (let (sent1, ns1) = alert_tick b acc e now sent;
          (sent2, ns2) = alert_ticks b acc obs sent1
      in (sent2, ns1 @ ns2))"

subsection \<open>Facts about ticks and the route\<close>

lemma evaluate_alert_recorded:
  "(b_id b, per) \<in> set sent \<Longrightarrow> evaluate_alert b e per sent = NoAlert"
  by (simp add: evaluate_alert_def Let_def)

lemma alert_tick_cases:
  "alert_tick b acc e now sent = (sent, [])
   \<or> ((b_id b, period_of now) \<notin> set sent
      \<and> fst (alert_tick b acc e now sent) = sent @ [(b_id b, period_of now)]
      \<and> length (snd (alert_tick b acc e now sent)) = 1)"
  by (auto simp: alert_tick_def evaluate_alert_def Let_def split: alert_decision.split if_splits)

lemma alert_tick_nonpos: "b_amount b \<le> 0 \<Longrightarrow> alert_tick b acc e now sent = (sent, [])"
  by (simp add: alert_tick_def evaluate_alert_def)

lemma percent_used_neg_budget:
  "amt < 0 \<Longrightarrow> 0 \<le> e \<Longrightarrow> \<not> js_ge (percent_used e amt) c \<or> c \<le> 0"
proof -
  assume "amt < 0" "0 \<le> e"
  then have "(of_int e / of_int amt :: rat) * 100 \<le> 0"
    by (simp add: divide_nonneg_neg mult_nonpos_nonneg)
  with \<open>amt < 0\<close> show ?thesis
    by (auto simp: percent_used_def js_div_def)
qed

lemma alert_start_le_iff:
  assumes "valid_instant now"
  shows "alert_start_date now \<le> Instant d x \<longleftrightarrow>
           Date (year (i_date now)) (month (i_date now)) 1 < d
           \<or> d = Date (year (i_date now)) (month (i_date now)) 1 \<and> i_ms now \<le> x"
  using assms by (auto simp: alert_start_date_eq valid_instant_def instant_less_eq_iff)

lemma test_budget_alerts_Inr:
  assumes "test_budget_alerts d auth now = Inr (r, out)"
  obtains u acc accs b bs where "find_user d (the auth) = Some u"
    and "filter (\<lambda>a. a_user a = u_id u \<and> a_is_default a) (accounts d) = acc # accs"
    and "filter (\<lambda>b. b_user b = u_id u) (budgets d) = b # bs"
    and "out = [InngestEvent (u_id u), DirectEmail (u_email u)
                 \<lparr>ap_percentage = rep_percentage r, ap_budget_amount = b_amount b,
                  ap_total_expenses = rep_total_expenses r, ap_account_name = a_name acc\<rparr>]"
    and "rep_should_send r = js_ge (rep_percentage r) 80"
    and "rep_percentage r = percent_used (rep_total_expenses r) (b_amount b)"
  using assms
  by (auto simp: test_budget_alerts_def Let_def split: option.splits list.splits)

subsection \<open>Properties of the alert decision\<close>

text \<open>
  C1. At most one alert per period: over any sequence of dispatcher ticks for a budget
  whose clocks all fall in one period, the evaluator fires at most once, and never when
  the period was already recorded as alerted.
\<close>

theorem alert_at_most_once_per_period:
  assumes "\<forall>(e, t) \<in> set obs. period_of t = per"
  shows "length (snd (alert_ticks b acc obs sent)) \<le> (if (b_id b, per) \<in> set sent then 0 else 1)"
  using assms
proof (induction obs arbitrary: sent)
  case Nil
  then show ?case by simp
next
  case (Cons ob obs)
  obtain e t where ob: "ob = (e, t)" by (cases ob)
  with Cons.prems have per: "period_of t = per" and rest: "\<forall>(e, t) \<in> set obs. period_of t = per"
    by auto
  obtain sent1 ns1 where tick: "alert_tick b acc e t sent = (sent1, ns1)" by (cases "alert_tick b acc e t sent")
  have IH: "length (snd (alert_ticks b acc obs sent1)) \<le> (if (b_id b, per) \<in> set sent1 then 0 else 1)"
    using Cons.IH rest by blast
  have run: "snd (alert_ticks b acc ((e, t) # obs) sent) = ns1 @ snd (alert_ticks b acc obs sent1)"
    using tick by (simp split: prod.split)
  from alert_tick_cases [of b acc e t sent] tick per
  consider "sent1 = sent" "ns1 = []"
    | "(b_id b, per) \<notin> set sent" "sent1 = sent @ [(b_id b, per)]" "length ns1 = 1"
    by auto
  then show ?case
  proof cases
    case 1
    then show ?thesis using IH run ob by simp
  next
    case 2
    then show ?thesis using IH run ob by simp
  qed
qed

text \<open>
  C2. For a positive budget not yet alerted in the period, the evaluator fires exactly
  when the expenses reach 80\<open>%\<close> of the budget (\<open>5 * expenses >= 4 * amount\<close> in
  minor units, so 80.00\<open>%\<close> fires and 79.99\<open>%\<close> does not), with the exact
  percentage.
\<close>

theorem alert_threshold:
  assumes "0 < b_amount b" and "(b_id b, per) \<notin> set sent"
  shows "evaluate_alert b e per sent =
           (if 4 * b_amount b \<le> 5 * e then ShouldAlert (of_int e * 100 / of_int (b_amount b)) else NoAlert)"
proof -
  have pos: "0 < (of_int (b_amount b) :: rat)" using assms(1) by simp
  have "(80 \<le> (of_int e * 100 / of_int (b_amount b) :: rat)) \<longleftrightarrow> 80 * of_int (b_amount b) \<le> (of_int e * 100 :: rat)"
    using pos by (simp add: pos_le_divide_eq)
  also have "\<dots> \<longleftrightarrow> 4 * b_amount b \<le> 5 * e" by linarith
  finally show ?thesis using assms by (simp add: evaluate_alert_def Let_def)
qed

text \<open>
  A budget of zero or less never alerts and never changes the record of alerted
  periods, whatever the expenses and however often it is evaluated.
\<close>

theorem nonpositive_budget_never_alerts:
  "b_amount b \<le> 0 \<Longrightarrow> alert_ticks b acc obs sent = (sent, [])"
  by (induction obs arbitrary: sent) (auto simp: alert_tick_nonpos)


text \<open>
  Whenever the test route succeeds it sends both an Inngest event and a direct
  e-mail carrying the computed percentage, whether or not the threshold is reached.
\<close>

theorem test_alert_route_dispatches:
  assumes "test_budget_alerts d auth now = Inr (r, out)"
  shows "\<exists>uid to pl. out = [InngestEvent uid, DirectEmail to pl]
           \<and> ap_percentage pl = rep_percentage r \<and> ap_total_expenses pl = rep_total_expenses r"
  using assms by (rule test_budget_alerts_Inr) auto

text \<open>
  The test route's early returns: no session gives 401, an unknown user 404, a user
  without a default account or without a budget 404 with its own message.
\<close>

theorem test_alert_route_errors:
  "test_budget_alerts d None now = Inl Unauthorized
   \<and> (find_user d cid = None \<longrightarrow> test_budget_alerts d (Some cid) now = Inl UserNotFound)
   \<and> (find_user d cid = Some u \<longrightarrow> filter (\<lambda>a. a_user a = u_id u \<and> a_is_default a) (accounts d) = []
        \<longrightarrow> test_budget_alerts d (Some cid) now = Inl NoDefaultAccount)
   \<and> (find_user d cid = Some u \<longrightarrow> filter (\<lambda>a. a_user a = u_id u \<and> a_is_default a) (accounts d) \<noteq> []
        \<longrightarrow> filter (\<lambda>b. b_user b = u_id u) (budgets d) = []
        \<longrightarrow> test_budget_alerts d (Some cid) now = Inl NoBudget)"
  by (auto simp: test_budget_alerts_def neq_Nil_conv split: list.split)

text \<open>
  The test route counts the default account's expenses dated from the first day of
  the current month at the current time of day on, without an upper bound: expenses of
  the first morning before that time are left out, expenses of later months are
  included.
\<close>

theorem route_window_from_first_day:
  assumes "valid_instant now"
  shows "route_expense_filter uid aid now t \<longleftrightarrow>
           tx_user t = uid \<and> tx_account t = aid \<and> tx_type t = EXPENSE
           \<and> (Date (year (i_date now)) (month (i_date now)) 1 < i_date (tx_date t)
              \<or> i_date (tx_date t) = Date (year (i_date now)) (month (i_date now)) 1
                 \<and> i_ms now \<le> i_ms (tx_date t))"
proof -
  obtain d x where "tx_date t = Instant d x" by (cases "tx_date t")
  then show ?thesis
    using alert_start_le_iff [OF assms, of d x] by (simp add: route_expense_filter_def)
qed

theorem alert_at_most_once_per_period_witness:
  "length (snd (alert_ticks sample_budget sample_account
     [(85000, Instant (Date 2024 1 10) 0), (90000, Instant (Date 2024 1 20) 0)] [])) \<le> 1"
proof -
  have h: "\<forall>(e, t) \<in> set [(85000::int, Instant (Date 2024 1 10) 0), (90000, Instant (Date 2024 1 20) 0)].
             period_of t = (2024, 1)"
    by (simp add: period_of_def)
  show ?thesis using alert_at_most_once_per_period [OF h, of sample_budget sample_account "[]"] by simp
qed

theorem alert_threshold_witness:
  "evaluate_alert sample_budget 80000 (2024, 1) [] = ShouldAlert 80
   \<and> evaluate_alert sample_budget 79990 (2024, 1) [] = NoAlert
   \<and> evaluate_alert sample_budget 85000 (2024, 1) [] = ShouldAlert 85"
proof -
  have h1: "0 < b_amount sample_budget" by simp
  have h2: "(b_id sample_budget, (2024::int, 1::nat)) \<notin> set []" by simp
  show ?thesis
    using alert_threshold [OF h1 h2, of 80000] alert_threshold [OF h1 h2, of 79990]
      alert_threshold [OF h1 h2, of 85000]
    by simp
qed

theorem nonpositive_budget_never_alerts_witness:
  "alert_ticks (sample_budget\<lparr>b_amount := 0\<rparr>) sample_account [(5000, Instant (Date 2024 1 10) 0)] []
     = ([], [])"
proof -
  have h: "b_amount (sample_budget\<lparr>b_amount := 0\<rparr>) \<le> 0" by simp
  show ?thesis by (rule nonpositive_budget_never_alerts [OF h])
qed


theorem test_alert_route_dispatches_witness:
  "\<exists>r out. test_budget_alerts sample_db (Some ''clerk_1'') (Instant (Date 2024 1 10) 5) = Inr (r, out)
     \<and> \<not> rep_should_send r
     \<and> (\<exists>uid to pl. out = [InngestEvent uid, DirectEmail to pl])"
proof -
  have v: "valid_date (Date 2024 1 10)" by (simp add: valid_date_def days_in_month_def is_leap_def)
  have run: "test_budget_alerts sample_db (Some ''clerk_1'') (Instant (Date 2024 1 10) 5)
     = Inr (\<lparr>rep_budget_amount = 100000, rep_total_expenses = 7500, rep_percentage = Num (15 / 2),
             rep_should_send = False\<rparr>,
            [InngestEvent 1, DirectEmail ''alex@example.com''
               \<lparr>ap_percentage = Num (15 / 2), ap_budget_amount = 100000, ap_total_expenses = 7500,
                ap_account_name = ''Main''\<rparr>])"
    using alert_start_date_eq [of "Instant (Date 2024 1 10) 5"] v
    by (simp add: test_budget_alerts_def find_user_def prisma_sum_def route_expense_filter_def
        percent_used_def js_div_def calendar_simps Let_def)
  show ?thesis using test_alert_route_dispatches [OF run] run by auto
qed

theorem test_alert_route_errors_witness:
  "test_budget_alerts sample_db None (Instant (Date 2024 1 10) 5) = Inl Unauthorized
   \<and> test_budget_alerts (sample_db\<lparr>accounts := []\<rparr>) (Some ''clerk_1'') (Instant (Date 2024 1 10) 5)
       = Inl NoDefaultAccount
   \<and> test_budget_alerts (sample_db\<lparr>budgets := []\<rparr>) (Some ''clerk_1'') (Instant (Date 2024 1 10) 5)
       = Inl NoBudget"
proof -
  have u1: "find_user (sample_db\<lparr>accounts := []\<rparr>) ''clerk_1'' = Some sample_user" by (simp add: find_user_def)
  have u2: "find_user (sample_db\<lparr>budgets := []\<rparr>) ''clerk_1'' = Some sample_user" by (simp add: find_user_def)
  show ?thesis
    using test_alert_route_errors [of sample_db "Instant (Date 2024 1 10) 5" "''clerk_1''" sample_user]
      test_alert_route_errors [of "sample_db\<lparr>accounts := []\<rparr>" "Instant (Date 2024 1 10) 5" "''clerk_1''" sample_user]
      test_alert_route_errors [of "sample_db\<lparr>budgets := []\<rparr>" "Instant (Date 2024 1 10) 5" "''clerk_1''" sample_user]
      u1 u2 by simp
qed

theorem route_window_from_first_day_witness:
  "\<not> route_expense_filter 1 3 (Instant (Date 2024 1 10) 43200000)
       (sample_txn 9 EXPENSE 100 ''food'' (Instant (Date 2024 1 1) 32400000))
   \<and> route_expense_filter 1 3 (Instant (Date 2024 1 10) 43200000)
       (sample_txn 10 EXPENSE 100 ''food'' (Instant (Date 2025 5 1) 0))"
proof -
  have h: "valid_instant (Instant (Date 2024 1 10) 43200000)"
    by (simp add: valid_instant_def valid_date_def days_in_month_def is_leap_def ms_per_day_def)
  show ?thesis
    using route_window_from_first_day [OF h, of 1 3] by (simp add: calendar_simps)
qed

end
