(* ===== verification/Js_Array.thy ===== *)
theory Js_Array
  imports Finance_Prelude "HOL-Library.Multiset"
begin

text \<open>
  \<open>Array.prototype.sort\<close> and \<open>slice\<close> as the components of \<open>src/\<close> use them.
  Since ECMAScript 2019 the sort is stable: for a comparator that is a consistent
  comparison every conforming engine returns the same array, the stable sort of the
  input.  The model is an insertion sort that consults only the sign of the comparator,
  as the engines do; its agreement with the library's \<open>sort_key\<close> is proved for
  comparators that compare a key, ascending or descending (the latter through the
  reversed order \<open>rev_ord\<close>).
\<close>

text \<open>The sign of \<open>a - b\<close> for a comparison subtracting keys.\<close>

definition ccomp :: "'k::linorder \<Rightarrow> 'k \<Rightarrow> int" where
  "ccomp x y = (if x < y then -1 else if x = y then 0 else 1)"

text \<open>Insertion of a later element behind every element the comparator does not put after it.\<close>

fun ins_by :: "('a \<Rightarrow> 'a \<Rightarrow> int) \<Rightarrow> 'a \<Rightarrow> 'a list \<Rightarrow> 'a list" where
  "ins_by c x [] = [x]"
| "ins_by c x (y # ys) = (if 0 < c y x then x # y # ys else y # ins_by c x ys)"

definition js_sort :: "('a \<Rightarrow> 'a \<Rightarrow> int) \<Rightarrow> 'a list \<Rightarrow> 'a list" where
  "js_sort c xs = foldl (\<lambda>acc x. ins_by c x acc) [] xs"

text \<open>\<open>xs.slice(a, b)\<close> for \<open>0 \<le> a \<le> b\<close>.\<close>

definition js_slice :: "'a list \<Rightarrow> nat \<Rightarrow> nat \<Rightarrow> 'a list" where
  "js_slice xs a b = take (b - a) (drop a xs)"

text \<open>The reversed order of a key, for descending comparators \<open>(a, b) \<Rightarrow> b - a\<close>.\<close>

datatype 'a rev_ord = RevOrd 'a

instantiation rev_ord :: (linorder) linorder
begin

fun less_eq_rev_ord :: "'a rev_ord \<Rightarrow> 'a rev_ord \<Rightarrow> bool" where
  "less_eq_rev_ord (RevOrd x) (RevOrd y) = (y \<le> x)"

fun less_rev_ord :: "'a rev_ord \<Rightarrow> 'a rev_ord \<Rightarrow> bool" where
  "less_rev_ord (RevOrd x) (RevOrd y) = (y < x)"

instance
proof
  fix a b c :: "'a rev_ord"
  show "(a < b) = (a \<le> b \<and> \<not> b \<le> a)" by (cases a; cases b) auto
  show "a \<le> a" by (cases a) auto
  show "a \<le> b \<Longrightarrow> b \<le> c \<Longrightarrow> a \<le> c" by (cases a; cases b; cases c) auto
  show "a \<le> b \<Longrightarrow> b \<le> a \<Longrightarrow> a = b" by (cases a; cases b) auto
  show "a \<le> b \<or> b \<le> a" by (cases a; cases b) auto
qed

end

subsection \<open>The sort is the stable sort by the key\<close>

lemma ccomp_pos [simp]: "0 < ccomp x y \<longleftrightarrow> y < x"
  by (auto simp: ccomp_def)

lemma ccomp_neg [simp]: "ccomp x y < 0 \<longleftrightarrow> x < y"
  by (auto simp: ccomp_def)

lemma js_sort_sign_cong:
  assumes "\<And>a b. 0 < c a b \<longleftrightarrow> 0 < c' a b"
  shows "js_sort c xs = js_sort c' xs"
proof -
  have "ins_by c x ys = ins_by c' x ys" for x ys
    by (induction ys) (simp_all add: assms)
  then show ?thesis by (simp add: js_sort_def)
qed

lemma mset_ins_by [simp]: "mset (ins_by c x ys) = add_mset x (mset ys)"
  by (induction ys) auto

lemma set_ins_by [simp]: "set (ins_by c x ys) = insert x (set ys)"
  by (induction ys) auto

lemma sorted_ins_by_key:
  "sorted (map k ys) \<Longrightarrow> sorted (map k (ins_by (\<lambda>a b. ccomp (k a) (k b)) x ys))"
  by (induction ys) (auto simp: not_less)

lemma filter_ins_by_key:
  assumes "sorted (map k ys)"
  shows "filter (\<lambda>y. k y = v) (ins_by (\<lambda>a b. ccomp (k a) (k b)) x ys)
         = filter (\<lambda>y. k y = v) ys @ (if k x = v then [x] else [])"
  using assms
proof (induction ys)
  case (Cons y ys)
  show ?case
  proof (cases "k x < k y")
    case True
    with Cons.prems have "\<forall>z \<in> set ys. k x < k z" by auto
    then have "filter (\<lambda>y. k y = k x) ys = []" by (auto simp: filter_empty_conv)
    with True show ?thesis by auto
  qed (use Cons in auto)
qed simp

lemma foldl_ins_by_key:
  assumes "sorted (map k acc)"
  shows "sorted (map k (foldl (\<lambda>acc x. ins_by (\<lambda>a b. ccomp (k a) (k b)) x acc) acc xs))
         \<and> filter (\<lambda>y. k y = v) (foldl (\<lambda>acc x. ins_by (\<lambda>a b. ccomp (k a) (k b)) x acc) acc xs)
           = filter (\<lambda>y. k y = v) acc @ filter (\<lambda>y. k y = v) xs"
  using assms
  by (induction xs arbitrary: acc) (simp_all add: sorted_ins_by_key filter_ins_by_key)

lemma mset_js_sort [simp]: "mset (js_sort c xs) = mset xs"
proof -
  have "mset (foldl (\<lambda>acc x. ins_by c x acc) acc xs) = mset acc + mset xs" for acc
    by (induction xs arbitrary: acc) auto
  then show ?thesis by (simp add: js_sort_def)
qed

lemma distinct_map_js_sort [simp]: "distinct (map f (js_sort c xs)) \<longleftrightarrow> distinct (map f xs)"
  by (rule mset_eq_imp_distinct_iff) simp

lemma sum_list_map_js_sort [simp]:
  fixes f :: "'a \<Rightarrow> 'b::comm_monoid_add"
  shows "sum_list (map f (js_sort c xs)) = sum_list (map f xs)"
  by (metis mset_js_sort mset_map sum_mset_sum_list)

lemma sum_list_filter_js_sort [simp]:
  fixes f :: "'a \<Rightarrow> 'b::comm_monoid_add"
  shows "sum_list (map f (filter P (js_sort c xs))) = sum_list (map f (filter P xs))"
  by (metis mset_filter mset_js_sort mset_map sum_mset_sum_list)

lemma js_sort_key: "js_sort (\<lambda>a b. ccomp (k a) (k b)) xs = sort_key k xs"
proof (rule properties_for_sort_key [symmetric])
  show "mset (js_sort (\<lambda>a b. ccomp (k a) (k b)) xs) = mset xs" by simp
  show "filter (\<lambda>x. k y = k x) (js_sort (\<lambda>a b. ccomp (k a) (k b)) xs) = filter (\<lambda>x. k y = k x) xs" for y
    using foldl_ins_by_key [of k "[]" xs "k y"] by (simp add: js_sort_def eq_commute)
  show "sorted (map k (js_sort (\<lambda>a b. ccomp (k a) (k b)) xs))"
    using foldl_ins_by_key [of k "[]" xs] by (simp add: js_sort_def)
qed

lemma js_sort_zero: "js_sort (\<lambda>a b. 0) xs = xs"
proof -
  have "ins_by (\<lambda>a b. 0) x ys = ys @ [x]" for x :: 'a and ys
    by (induction ys) simp_all
  then have "foldl (\<lambda>acc x. ins_by (\<lambda>a b. 0) x acc) acc xs = acc @ xs" for acc :: "'a list"
    by (induction xs arbitrary: acc) simp_all
  then show ?thesis by (simp add: js_sort_def)
qed

lemma js_sort_key_desc: "js_sort (\<lambda>a b. - ccomp (k a) (k b)) xs = sort_key (\<lambda>x. RevOrd (k x)) xs"
proof -
  have "js_sort (\<lambda>a b. - ccomp (k a) (k b)) xs = js_sort (\<lambda>a b. ccomp (RevOrd (k a)) (RevOrd (k b))) xs"
    by (rule js_sort_sign_cong) simp
  then show ?thesis by (simp add: js_sort_key)
qed

end
