(* ===== verification/Account_View.thy ===== *)
theory Account_View
  imports Ledger Js_Array
begin

text \<open>
  The account page: the statistics and recent transactions of
  \<open>src/app/(main)/account/[id]/page.jsx\<close>, the recent list of the dashboard's
  \<open>transaction-overview.jsx\<close>, and the bar chart of
  \<open>src/app/(main)/account/_components/account-chart.jsx\<close>: its date ranges, the
  window from the start of the day \<open>n\<close> days ago to the end of today, the grouping of
  transactions under their \<open>"MMM dd"\<close> label in insertion order (the order of
  \<open>Object.values\<close>), the sort of the groups by the date their label parses to, and the
  period totals.  A label is kept as its (month, day) pair: two dates have the same
  \<open>"MMM dd"\<close> text exactly when these agree.  \<open>new Date("Jan 05")\<close> parses, in V8, to
  that day of 2001; the model follows V8, normalising the day as the \<open>Date\<close>
  constructor does.
\<close>

subsection \<open>Recent transactions\<close>

text \<open>\<open>transactions.sort((a, b) => new Date(b.date) - new Date(a.date)).slice(0, n)\<close>.\<close>

definition recent_transactions :: "nat \<Rightarrow> transaction list \<Rightarrow> transaction list" where
  "recent_transactions n ts = js_slice (js_sort (\<lambda>a b. ccomp (tx_date b) (tx_date a)) ts) 0 n"

text \<open>The account page shows three, the dashboard overview five of the selected account.\<close>

definition account_recent :: "transaction list \<Rightarrow> transaction list" where
  "account_recent ts = recent_transactions 3 ts"

definition overview_recent :: "account_id option \<Rightarrow> transaction list \<Rightarrow> transaction list" where
  "overview_recent sel ts = recent_transactions 5 (filter (\<lambda>t. Some (tx_account t) = sel) ts)"

subsection \<open>The chart\<close>

definition date_ranges :: "(string \<times> string \<times> nat option) list" where
  "date_ranges =
     [(''7D'', ''Last 7 Days'', Some 7), (''1M'', ''Last Month'', Some 30),
      (''3M'', ''Last 3 Months'', Some 90), (''6M'', ''Last 6 Months'', Some 180),
      (''ALL'', ''All Time'', None)]"

text \<open>date-fns: \<open>startOfDay\<close>, \<open>endOfDay\<close>, and \<open>subDays\<close> through \<open>setDate(getDate() - n)\<close>.\<close>

definition start_of_day :: "instant \<Rightarrow> instant" where
  "start_of_day t = Instant (i_date t) 0"

definition end_of_day :: "instant \<Rightarrow> instant" where
  "end_of_day t = Instant (i_date t) 86399999"

definition sub_days :: "instant \<Rightarrow> nat \<Rightarrow> instant" where
  "sub_days t n = js_set_date t (int (day (i_date t)) - int n)"

text \<open>\<open>new Date(0)\<close>, in local time without offset.\<close>

definition epoch :: instant where
  "epoch = Instant (Date 1970 0 1) 0"

text \<open>\<open>DATE_RANGES[dateRange]\<close> and \<open>startDate\<close>; an unknown key would throw (\<open>None\<close>).\<close>

definition chart_start :: "string \<Rightarrow> instant \<Rightarrow> instant option" where
  "chart_start r now =
     (case map_of date_ranges r of
        None \<Rightarrow> None
      | Some (_, days) \<Rightarrow>
          Some (case days of
                  Some n \<Rightarrow> if n \<noteq> 0 then start_of_day (sub_days now n) else start_of_day epoch
                | None \<Rightarrow> start_of_day epoch))"

definition chart_filter :: "instant \<Rightarrow> instant \<Rightarrow> transaction \<Rightarrow> bool" where
  "chart_filter start now t \<longleftrightarrow> start \<le> tx_date t \<and> tx_date t \<le> end_of_day now"

record chart_point =
  cp_label :: "nat \<times> nat"
  cp_income :: cents
  cp_expense :: cents

definition chart_label :: "transaction \<Rightarrow> nat \<times> nat" where
  "chart_label t = (month (i_date (tx_date t)), day (i_date (tx_date t)))"

text \<open>One step of the \<open>reduce\<close>: create the label's entry if absent, then add the
  amount to its income (type \<open>INCOME\<close>) or its expense (anything else).\<close>

fun chart_add :: "chart_point list \<Rightarrow> transaction \<Rightarrow> chart_point list" where
  "chart_add [] t =
     [\<lparr>cp_label = chart_label t,
       cp_income = (if tx_type t = INCOME then tx_amount t else 0),
       cp_expense = (if tx_type t = INCOME then 0 else tx_amount t)\<rparr>]"
| "chart_add (p # ps) t =
     (if cp_label p = chart_label t
      then (if tx_type t = INCOME then p\<lparr>cp_income := cp_income p + tx_amount t\<rparr>
            else p\<lparr>cp_expense := cp_expense p + tx_amount t\<rparr>) # ps
      else p # chart_add ps t)"

definition label_date :: "nat \<times> nat \<Rightarrow> date" where
  "label_date l = js_date 2001 (int (fst l)) (int (snd l))"

definition chart_data :: "string \<Rightarrow> instant \<Rightarrow> transaction list \<Rightarrow> chart_point list option" where
  "chart_data r now ts =
     map_option
       (\<lambda>start. js_sort (\<lambda>a b. ccomp (label_date (cp_label a)) (label_date (cp_label b)))
                  (foldl chart_add [] (filter (chart_filter start now) ts)))
       (chart_start r now)"

definition chart_totals :: "chart_point list \<Rightarrow> cents \<times> cents" where
  "chart_totals ps = foldl (\<lambda>(i, e) p. (i + cp_income p, e + cp_expense p)) (0, 0) ps"

definition chart_net :: "chart_point list \<Rightarrow> cents" where
  "chart_net ps = fst (chart_totals ps) - snd (chart_totals ps)"

subsection \<open>Specification of the chart bars\<close>

text \<open>The income and the expense of the bars with a label.\<close>

definition label_income :: "chart_point list \<Rightarrow> nat \<times> nat \<Rightarrow> cents" where
  "label_income ps l = sum_list (map cp_income (filter (\<lambda>p. cp_label p = l) ps))"

definition label_expense :: "chart_point list \<Rightarrow> nat \<times> nat \<Rightarrow> cents" where
  "label_expense ps l = sum_list (map cp_expense (filter (\<lambda>p. cp_label p = l) ps))"

subsection \<open>Properties of the account views\<close>


lemma js_sort_date_desc:
  "js_sort (\<lambda>a b. ccomp (tx_date b) (tx_date a)) ts = sort_key (\<lambda>t. RevOrd (tx_date t)) ts"
proof -
  have "js_sort (\<lambda>a b. ccomp (tx_date b) (tx_date a)) ts = js_sort (\<lambda>a b. - ccomp (tx_date a) (tx_date b)) ts"
    by (rule js_sort_sign_cong) simp
  then show ?thesis by (simp add: js_sort_key_desc)
qed

lemma recent_transactions_eq:
  "recent_transactions n ts = take n (sort_key (\<lambda>t. RevOrd (tx_date t)) ts)"
  by (simp add: recent_transactions_def js_slice_def js_sort_date_desc)

text \<open>
  The recent lists (three on the account page, five in the dashboard overview) are
  the first rows of the stable sort by date, newest first: every transaction left out
  is not newer than any shown.
\<close>

theorem recent_are_newest:
  "recent_transactions n ts = take n (sort_key (\<lambda>t. RevOrd (tx_date t)) ts)
   \<and> sorted_wrt (\<lambda>a b. tx_date b \<le> tx_date a) (recent_transactions n ts)
   \<and> (\<forall>t \<in> set ts. t \<notin> set (recent_transactions n ts) \<longrightarrow>
        (\<forall>r \<in> set (recent_transactions n ts). tx_date t \<le> tx_date r))"
proof -
  let ?ys = "sort_key (\<lambda>t. RevOrd (tx_date t)) ts"
  have s: "sorted_wrt (\<lambda>a b. tx_date b \<le> tx_date a) ?ys"
    using sorted_sort_key [of "\<lambda>t. RevOrd (tx_date t)" ts] by (simp add: sorted_map)
  then have "sorted_wrt (\<lambda>a b. tx_date b \<le> tx_date a) (take n ?ys @ drop n ?ys)" by simp
  then have "\<forall>r \<in> set (take n ?ys). \<forall>t \<in> set (drop n ?ys). tx_date t \<le> tx_date r"
    by (simp only: sorted_wrt_append) blast
  moreover have "t \<in> set ts \<Longrightarrow> t \<notin> set (take n ?ys) \<Longrightarrow> t \<in> set (drop n ?ys)" for t
    by (metis Un_iff append_take_drop_id set_append set_sort)
  ultimately show ?thesis
    using s by (auto simp: recent_transactions_eq sorted_wrt_take)
qed


theorem recent_are_newest_witness:
  "recent_transactions 1 [sample_txn 1 EXPENSE 5000 ''food'' (Instant (Date 2024 1 10) 0),
                          sample_txn 2 EXPENSE 2500 ''food'' (Instant (Date 2024 1 12) 0)]
     = [sample_txn 2 EXPENSE 2500 ''food'' (Instant (Date 2024 1 12) 0)]"
  using recent_are_newest [of 1 "[sample_txn 1 EXPENSE 5000 ''food'' (Instant (Date 2024 1 10) 0),
                                  sample_txn 2 EXPENSE 2500 ''food'' (Instant (Date 2024 1 12) 0)]"]
  by (simp add: calendar_simps)

lemma chart_add_labels:
  "map cp_label (chart_add ps t) =
     (if chart_label t \<in> set (map cp_label ps) then map cp_label ps else map cp_label ps @ [chart_label t])"
  by (induction ps) auto

lemma chart_add_sums:
  "label_income (chart_add ps t) l = label_income ps l + (if l = chart_label t \<and> tx_type t = INCOME then tx_amount t else 0)
   \<and> label_expense (chart_add ps t) l = label_expense ps l + (if l = chart_label t \<and> tx_type t \<noteq> INCOME then tx_amount t else 0)"
  by (induction ps) (auto simp: label_income_def label_expense_def)

lemma foldl_chart_add:
  "distinct (map cp_label ps) \<Longrightarrow>
   distinct (map cp_label (foldl chart_add ps xs))
   \<and> set (map cp_label (foldl chart_add ps xs)) = set (map cp_label ps) \<union> chart_label ` set xs
   \<and> label_income (foldl chart_add ps xs) l
       = label_income ps l + sum_list (map tx_amount (filter (\<lambda>t. chart_label t = l \<and> tx_type t = INCOME) xs))
   \<and> label_expense (foldl chart_add ps xs) l
       = label_expense ps l + sum_list (map tx_amount (filter (\<lambda>t. chart_label t = l \<and> tx_type t \<noteq> INCOME) xs))"
proof (induction xs arbitrary: ps)
  case (Cons x xs)
  have "distinct (map cp_label (chart_add ps x))"
    using Cons.prems by (simp add: chart_add_labels)
  from Cons.IH [OF this] show ?case
    by (auto simp: chart_add_labels chart_add_sums split: if_splits)
qed simp

lemma chart_point_sums:
  "distinct (map cp_label ps) \<Longrightarrow> p \<in> set ps \<Longrightarrow>
   cp_income p = label_income ps (cp_label p) \<and> cp_expense p = label_expense ps (cp_label p)"
  by (simp add: label_income_def label_expense_def filter_distinct_key)

text \<open>
  C20. The chart has one bar per "MMM dd" label of the transactions in the selected
  window, and each bar holds exactly the income and the expenses (every non-income
  type) of the window's transactions with that label: the reduce refines a group-by
  over (month, day).
\<close>

theorem chart_groups_by_day:
  assumes "chart_start r now = Some start" and "chart_data r now ts = Some ps"
  shows "distinct (map cp_label ps)
         \<and> cp_label ` set ps = chart_label ` {t \<in> set ts. chart_filter start now t}
         \<and> (\<forall>p \<in> set ps.
              cp_income p = sum_list (map tx_amount (filter (\<lambda>t. chart_filter start now t
                              \<and> chart_label t = cp_label p \<and> tx_type t = INCOME) ts))
            \<and> cp_expense p = sum_list (map tx_amount (filter (\<lambda>t. chart_filter start now t
                              \<and> chart_label t = cp_label p \<and> tx_type t \<noteq> INCOME) ts)))"
proof -
  let ?xs = "filter (chart_filter start now) ts"
  let ?c = "\<lambda>a b. ccomp (label_date (cp_label a)) (label_date (cp_label b))"
  have ps: "ps = js_sort ?c (foldl chart_add [] ?xs)"
    using assms by (simp add: chart_data_def)
  have f: "distinct (map cp_label (foldl chart_add [] ?xs))"
    "set (map cp_label (foldl chart_add [] ?xs)) = chart_label ` set ?xs"
    "\<And>l. label_income (foldl chart_add [] ?xs) l
          = sum_list (map tx_amount (filter (\<lambda>t. chart_label t = l \<and> tx_type t = INCOME) ?xs))"
    "\<And>l. label_expense (foldl chart_add [] ?xs) l
          = sum_list (map tx_amount (filter (\<lambda>t. chart_label t = l \<and> tx_type t \<noteq> INCOME) ?xs))"
    using foldl_chart_add [of "[]" ?xs] by (simp_all add: label_income_def label_expense_def)
  have d: "distinct (map cp_label ps)" using f(1) ps by simp
  have "set ps = set (foldl chart_add [] ?xs)" using ps by (metis mset_js_sort set_mset_mset)
  moreover have "label_income ps l = label_income (foldl chart_add [] ?xs) l"
    and "label_expense ps l = label_expense (foldl chart_add [] ?xs) l" for l
    using ps by (simp_all add: label_income_def label_expense_def)
  ultimately show ?thesis
    using d f chart_point_sums [OF d] by (auto simp: filter_filter conj_commute image_image
       simp flip: set_map)
qed


theorem chart_groups_by_day_witness:
  "chart_start ''3M'' (Instant (Date 2024 0 20) 43200000) = Some (Instant (Date 2023 9 22) 0)
   \<and> cp_label ` set (the (chart_data ''3M'' (Instant (Date 2024 0 20) 43200000)
       [sample_txn 1 EXPENSE 5000 ''food'' (Instant (Date 2023 11 20) 0)])) = {(11, 20)}"
proof -
  have s: "chart_start ''3M'' (Instant (Date 2024 0 20) 43200000) = Some (Instant (Date 2023 9 22) 0)"
    by (simp add: chart_start_def date_ranges_def start_of_day_def sub_days_def js_set_date_def
        js_date_def norm_day.simps dim_idx_def date_of_idx_def days_in_month_def is_leap_def)
  obtain ps where d: "chart_data ''3M'' (Instant (Date 2024 0 20) 43200000)
       [sample_txn 1 EXPENSE 5000 ''food'' (Instant (Date 2023 11 20) 0)] = Some ps"
    using s by (simp add: chart_data_def)
  show ?thesis
    using chart_groups_by_day [OF s d] s d
    by (simp add: chart_filter_def end_of_day_def chart_label_def calendar_simps Collect_conv_if)
qed

lemma chart_totals_sums:
  "chart_totals ps = (sum_list (map cp_income ps), sum_list (map cp_expense ps))"
proof -
  have "foldl (\<lambda>(i, e) p. (i + cp_income p, e + cp_expense p)) (a, b) ps
        = (a + sum_list (map cp_income ps), b + sum_list (map cp_expense ps))" for a b
    by (induction ps arbitrary: a b) (simp_all add: add.assoc)
  then show ?thesis by (simp add: chart_totals_def)
qed

lemma chart_add_totals:
  "sum_list (map cp_income (chart_add ps t)) = sum_list (map cp_income ps) + (if tx_type t = INCOME then tx_amount t else 0)
   \<and> sum_list (map cp_expense (chart_add ps t)) = sum_list (map cp_expense ps) + (if tx_type t = INCOME then 0 else tx_amount t)"
  by (induction ps) (auto simp: add_ac)

lemma foldl_chart_add_totals:
  "sum_list (map cp_income (foldl chart_add ps xs))
     = sum_list (map cp_income ps) + sum_list (map tx_amount (filter (\<lambda>t. tx_type t = INCOME) xs))
   \<and> sum_list (map cp_expense (foldl chart_add ps xs))
     = sum_list (map cp_expense ps) + sum_list (map tx_amount (filter (\<lambda>t. tx_type t \<noteq> INCOME) xs))"
  by (induction xs arbitrary: ps) (simp_all add: chart_add_totals add_ac)

text \<open>
  The period totals under the chart (and the net amount) are the exact sums of the
  income and of the expenses of the transactions in the selected window.
\<close>

theorem chart_totals_exact:
  assumes "chart_start r now = Some start"
  shows "map_option chart_totals (chart_data r now ts) =
           Some (sum_list (map tx_amount (filter (\<lambda>t. chart_filter start now t \<and> tx_type t = INCOME) ts)),
                 sum_list (map tx_amount (filter (\<lambda>t. chart_filter start now t \<and> tx_type t \<noteq> INCOME) ts)))"
  using assms foldl_chart_add_totals [of "[]" "filter (chart_filter start now) ts"]
  by (simp add: chart_data_def chart_totals_sums filter_filter)

theorem chart_totals_exact_witness:
  "map_option chart_totals (chart_data ''ALL'' (Instant (Date 2024 0 20) 43200000)
     [sample_txn 1 EXPENSE 5000 ''food'' (Instant (Date 2023 11 20) 0),
      sample_txn 2 INCOME 10000 ''salary'' (Instant (Date 2024 0 5) 0)]) = Some (10000, 5000)"
proof -
  have s: "chart_start ''ALL'' (Instant (Date 2024 0 20) 43200000) = Some (Instant (Date 1970 0 1) 0)"
    by (simp add: chart_start_def date_ranges_def start_of_day_def epoch_def)
  show ?thesis
    using chart_totals_exact [OF s, of "[sample_txn 1 EXPENSE 5000 ''food'' (Instant (Date 2023 11 20) 0),
      sample_txn 2 INCOME 10000 ''salary'' (Instant (Date 2024 0 5) 0)]"]
    by (simp add: chart_filter_def end_of_day_def calendar_simps)
qed


end
