(* ===== verification/Stats_Route.thy ===== *)
theory Stats_Route
  imports Account_View
begin

text \<open>
  The \<open>GET\<close> handler of \<open>src/app/api/test-monthly-stats/route.js\<close>: after the session
  and user checks it computes \<open>getMonthlyStats\<close> for the current instant and for
  \<open>lastMonth\<close> (the current instant moved back one month with \<open>setMonth\<close>), and reads
  the user's ten most recent transactions (\<open>orderBy: {date: "desc"}, take: 10\<close>; rows
  with equal dates are taken in store order).  Month names (\<open>toLocaleString\<close>) are
  kept as the instants they are printed from.
\<close>

record stats_report =
  sr_user_id :: user_id
  sr_user_name :: string
  sr_user_email :: string
  sr_current_at :: instant
  sr_current :: monthly_stats
  sr_last_at :: instant
  sr_last :: monthly_stats
  sr_recent :: "transaction list"

definition monthly_stats_route :: "db \<Rightarrow> string option \<Rightarrow> instant \<Rightarrow> api_error + stats_report" where
  "monthly_stats_route d auth now =
     (case auth of
        None \<Rightarrow> Inl Unauthorized
      | Some cid \<Rightarrow>
          (case find_user d cid of
             None \<Rightarrow> Inl UserNotFound
           | Some u \<Rightarrow>
               Inr \<lparr>sr_user_id = u_id u, sr_user_name = u_name u, sr_user_email = u_email u,
                    sr_current_at = now,
                    sr_current = get_monthly_stats (transactions d) (u_id u) now,
                    sr_last_at = last_month_of now,
                    sr_last = get_monthly_stats (transactions d) (u_id u) (last_month_of now),
                    sr_recent = recent_transactions 10 (filter (\<lambda>t. tx_user t = u_id u) (transactions d))\<rparr>))"

lemma get_monthly_stats_same_month:
  "year (i_date r) = year (i_date r') \<Longrightarrow> month (i_date r) = month (i_date r') \<Longrightarrow>
   get_monthly_stats ts uid r = get_monthly_stats ts uid r'"
  by (simp add: get_monthly_stats_def stats_rows_def stats_month_window_def)

text \<open>
  C21. On a day that the previous month does not have (March 29 to 31 in a common year,
  the 31st after a 30-day month), the route's "last month" is the current month again:
  both statistics it reports are those of the current month.
\<close>

theorem stats_route_last_month_is_current:
  assumes "valid_instant now" and "1 \<le> month (i_date now)"
    and "days_in_month (year (i_date now)) (month (i_date now) - 1) < day (i_date now)"
    and "monthly_stats_route d (Some cid) now = Inr rep"
  shows "sr_last rep = sr_current rep \<and> month (i_date (sr_last_at rep)) = month (i_date now)"
proof -
  have lm: "year (i_date (last_month_of now)) = year (i_date now)"
    "month (i_date (last_month_of now)) = month (i_date now)"
    using last_month_of_eq [OF assms(1,2)] assms(3) by (simp_all add: Let_def)
  obtain u where "find_user d cid = Some u"
    and rep: "rep = \<lparr>sr_user_id = u_id u, sr_user_name = u_name u, sr_user_email = u_email u,
                    sr_current_at = now,
                    sr_current = get_monthly_stats (transactions d) (u_id u) now,
                    sr_last_at = last_month_of now,
                    sr_last = get_monthly_stats (transactions d) (u_id u) (last_month_of now),
                    sr_recent = recent_transactions 10 (filter (\<lambda>t. tx_user t = u_id u) (transactions d))\<rparr>"
    using assms(4) by (cases "find_user d cid") (auto simp: monthly_stats_route_def)
  then show ?thesis using lm get_monthly_stats_same_month [OF lm] by simp
qed

theorem stats_route_last_month_is_current_witness:
  "\<exists>rep. monthly_stats_route sample_db (Some ''clerk_1'') (Instant (Date 2024 2 31) 0) = Inr rep
      \<and> sr_last rep = sr_current rep"
proof -
  have v: "valid_instant (Instant (Date 2024 2 31) 0)"
    by (simp add: valid_instant_def valid_date_def days_in_month_def ms_per_day_def)
  obtain rep where r: "monthly_stats_route sample_db (Some ''clerk_1'') (Instant (Date 2024 2 31) 0) = Inr rep"
    by (simp add: monthly_stats_route_def find_user_def)
  have "days_in_month 2024 1 < 31" by (simp add: days_in_month_def is_leap_def)
  with stats_route_last_month_is_current [OF v _ _ r] r show ?thesis by auto
qed

end
