(* ===== verification/Recurrence.thy ===== *)
theory Recurrence
  imports Ledger "HOL-Library.While_Combinator"
begin

text \<open>
  The Recurrence Advancer and the recurrence half of the Scheduler/Dispatcher of the
  specification (sections 4.3, 4.5, 5, 6 and 7).  The code that settles recurring
  transactions is not under \<open>src/\<close>: \<open>src/\<close> only stores the recurrence descriptor of a
  transaction (\<open>isRecurring\<close>, \<open>recurringInterval\<close>, \<open>nextRecurringDate\<close>, shown by
  \<open>transaction-table.jsx\<close>), so the operations here are modelled from the
  specification.  The store is explicit: the transaction rows, the account rows with
  their balances, and the next free transaction id.  Settling a due recurring
  transaction is one atomic step doing (a) the insertion of the occurrence,
  (b) \<open>updateRecurrenceNextDate\<close> with \<open>advance\<close>, and (c) \<open>updateAccountBalance\<close>;
  the advancer re-derives the due check from the persisted next date.  A pass of the
  dispatcher enumerates the due transactions (\<open>getDueRecurringTransactions(now)\<close>) and
  advances each; an entity whose store operations fail is left unchanged and reported.
\<close>

record ledger_store =
  ls_txs :: "transaction list"
  ls_accounts :: "account list"
  ls_next_id :: txn_id

text \<open>The signed effect of a transaction on its account's balance.\<close>

definition signed_amount :: "transaction \<Rightarrow> cents" where
  "signed_amount t = (if tx_type t = INCOME then tx_amount t else - tx_amount t)"

definition rec_due :: "instant \<Rightarrow> transaction \<Rightarrow> bool" where
  "rec_due now t \<longleftrightarrow>
     tx_is_recurring t \<and> tx_interval t \<noteq> None
     \<and> (case tx_next_date t of None \<Rightarrow> False | Some n \<Rightarrow> n \<le> now)"

definition find_tx :: "ledger_store \<Rightarrow> txn_id \<Rightarrow> transaction option" where
  "find_tx s i = find (\<lambda>t. tx_id t = i) (ls_txs s)"

text \<open>The occurrence materialised for a due date: same user, account, kind, amount,
  category and description, dated at the due date, itself not recurring.\<close>

definition occurrence :: "txn_id \<Rightarrow> instant \<Rightarrow> transaction \<Rightarrow> transaction" where
  "occurrence i n t =
     t\<lparr>tx_id := i, tx_date := n, tx_is_recurring := False, tx_interval := None, tx_next_date := None\<rparr>"

definition update_balance :: "account_id \<Rightarrow> cents \<Rightarrow> account list \<Rightarrow> account list" where
  "update_balance a delta as = map (\<lambda>x. if a_id x = a then x\<lparr>a_balance := a_balance x + delta\<rparr> else x) as"

definition set_next_date :: "txn_id \<Rightarrow> instant \<Rightarrow> transaction list \<Rightarrow> transaction list" where
  "set_next_date i n ts = map (\<lambda>t. if tx_id t = i then t\<lparr>tx_next_date := Some n\<rparr> else t) ts"

text \<open>The transition \<open>DUE \<rightarrow> SETTLED\<close> of a recurring transaction with interval
  \<open>iv\<close> and due date \<open>n\<close>: steps (a) to (c) as one state change.\<close>

definition settle :: "transaction \<Rightarrow> interval \<Rightarrow> instant \<Rightarrow> ledger_store \<Rightarrow> ledger_store" where
  "settle t iv n s =
     (let occ = occurrence (ls_next_id s) n t
      in \<lparr>ls_txs = set_next_date (tx_id t) (advance_instant n iv) (ls_txs s) @ [occ],
          ls_accounts = update_balance (tx_account t) (signed_amount occ) (ls_accounts s),
          ls_next_id = Suc (ls_next_id s)\<rparr>)"

text \<open>The advancer for one transaction id: the due check reads the persisted row.\<close>

definition advancer :: "instant \<Rightarrow> txn_id \<Rightarrow> ledger_store \<Rightarrow> ledger_store" where
  "advancer now i s =
     (case find_tx s i of
        None \<Rightarrow> s
      | Some t \<Rightarrow>
          (if rec_due now t
           then (case (tx_interval t, tx_next_date t) of
                   (Some iv, Some n) \<Rightarrow> settle t iv n s
                 | _ \<Rightarrow> s)
           else s))"

text \<open>\<open>getDueRecurringTransactions(now)\<close>.\<close>

definition due_ids :: "instant \<Rightarrow> ledger_store \<Rightarrow> txn_id list" where
  "due_ids now s = map tx_id (filter (rec_due now) (ls_txs s))"

text \<open>One pass over the due transactions; \<open>fails\<close> are the entities whose store
  operations fail in this pass (\<open>StoreUnavailable\<close>): they are rolled back and
  reported after the batch, the others are processed.\<close>

definition pass_step ::
  "txn_id list \<Rightarrow> instant \<Rightarrow> ledger_store \<times> txn_id list \<Rightarrow> txn_id \<Rightarrow> ledger_store \<times> txn_id list" where
  "pass_step fails now r i =
     (let (st, errs) = r in if i \<in> set fails then (st, errs @ [i]) else (advancer now i st, errs))"

definition recurrence_pass ::
  "txn_id list \<Rightarrow> instant \<Rightarrow> ledger_store \<Rightarrow> ledger_store \<times> txn_id list" where
  "recurrence_pass fails now s = foldl (pass_step fails now) (s, []) (due_ids now s)"

text \<open>Passes with an unchanged clock and no failures, until nothing is due.\<close>

definition catch_up :: "instant \<Rightarrow> ledger_store \<Rightarrow> ledger_store option" where
  "catch_up now s = while_option (\<lambda>st. due_ids now st \<noteq> []) (\<lambda>st. fst (recurrence_pass [] now st)) s"

text \<open>Well-formedness of the store.\<close>

definition wf_store :: "ledger_store \<Rightarrow> bool" where
  "wf_store s \<longleftrightarrow>
     distinct (map tx_id (ls_txs s)) \<and> (\<forall>t \<in> set (ls_txs s). tx_id t < ls_next_id s)
     \<and> distinct (map a_id (ls_accounts s))
     \<and> (\<forall>t \<in> set (ls_txs s). tx_account t \<in> a_id ` set (ls_accounts s) \<and> valid_instant (tx_date t)
          \<and> (tx_is_recurring t \<longrightarrow> tx_interval t \<noteq> None
               \<and> (\<exists>n. tx_next_date t = Some n \<and> valid_instant n)))"

text \<open>The part of an account's balance not explained by its ledger rows.\<close>

definition ledger_effect :: "ledger_store \<Rightarrow> account_id \<Rightarrow> cents" where
  "ledger_effect s a = sum_list (map signed_amount (filter (\<lambda>t. tx_account t = a) (ls_txs s)))"

definition balance_of :: "ledger_store \<Rightarrow> account_id \<Rightarrow> cents" where
  "balance_of s a = sum_list (map a_balance (filter (\<lambda>x. a_id x = a) (ls_accounts s)))"

subsection \<open>Specification helpers: rows, measures and a sample store\<close>

text \<open>A row the store may hold; the advanced row of a due transaction; the rows a
  pass advances; the distance of a due date from the clock, counted in months and
  days, which each settlement decreases; a sample store with one recurring expense.\<close>

definition row_ok :: "account list \<Rightarrow> transaction \<Rightarrow> bool" where
  "row_ok as t \<longleftrightarrow> tx_account t \<in> a_id ` set as \<and> valid_instant (tx_date t)
     \<and> (tx_is_recurring t \<longrightarrow> tx_interval t \<noteq> None \<and> (\<exists>n. tx_next_date t = Some n \<and> valid_instant n))"

definition adv_row :: "instant \<Rightarrow> transaction \<Rightarrow> transaction" where
  "adv_row now t =
     (if rec_due now t
      then (case (tx_interval t, tx_next_date t) of
              (Some iv, Some n) \<Rightarrow> t\<lparr>tx_next_date := Some (advance_instant n iv)\<rparr>
            | _ \<Rightarrow> t)
      else t)"

definition adv_in :: "txn_id list \<Rightarrow> txn_id list \<Rightarrow> instant \<Rightarrow> transaction \<Rightarrow> transaction" where
  "adv_in L fails now x = (if tx_id x \<in> set L \<and> tx_id x \<notin> set fails then adv_row now x else x)"

definition due_measure :: "instant \<Rightarrow> instant \<Rightarrow> nat" where
  "due_measure now n =
     nat (month_index (i_date now) + 1 - month_index (i_date n)) * 32 + (32 - day (i_date n))"

definition row_measure :: "instant \<Rightarrow> transaction \<Rightarrow> nat" where
  "row_measure now t = (if tx_is_recurring t then (case tx_next_date t of None \<Rightarrow> 0 | Some n \<Rightarrow> due_measure now n) else 0)"

definition store_measure :: "instant \<Rightarrow> ledger_store \<Rightarrow> nat" where
  "store_measure now s = sum_list (map (row_measure now) (ls_txs s))"

abbreviation rec_tx :: transaction where
  "rec_tx \<equiv> \<lparr>tx_id = 1, tx_user = 1, tx_account = 3, tx_type = EXPENSE, tx_amount = 5000,
     tx_category = ''rent'', tx_date = Instant (Date 2023 11 31) 0, tx_description = None,
     tx_is_recurring = True, tx_interval = Some MONTHLY, tx_next_date = Some (Instant (Date 2024 0 31) 0)\<rparr>"

abbreviation rec_sample :: ledger_store where
  "rec_sample \<equiv> \<lparr>ls_txs = [rec_tx], ls_accounts = [sample_account], ls_next_id = 2\<rparr>"

subsection \<open>Properties of the advancer and of a pass\<close>

lemma find_tx_SomeD: "find_tx s i = Some t \<Longrightarrow> t \<in> set (ls_txs s) \<and> tx_id t = i"
  by (auto simp: find_tx_def find_Some_iff)

lemma find_tx_mem:
  "distinct (map tx_id (ls_txs s)) \<Longrightarrow> t \<in> set (ls_txs s) \<Longrightarrow> find_tx s (tx_id t) = Some t"
  by (simp add: find_tx_def find_distinct_key)

lemma map_set_next_date:
  "(\<And>t x. f (t\<lparr>tx_next_date := x\<rparr>) = f t) \<Longrightarrow> map f (set_next_date i n ts) = map f ts"
  by (induction ts) (simp_all add: set_next_date_def)

lemma find_set_next_date:
  "find (\<lambda>t. tx_id t = j) (set_next_date i n ts)
     = map_option (\<lambda>t. if tx_id t = i then t\<lparr>tx_next_date := Some n\<rparr> else t) (find (\<lambda>t. tx_id t = j) ts)"
  by (induction ts) (auto simp: set_next_date_def)

lemma find_tx_settle:
  assumes "wf_store s"
  shows "find_tx (settle t iv n s) j =
           (if j \<in> tx_id ` set (ls_txs s)
            then map_option (\<lambda>x. if tx_id x = tx_id t then x\<lparr>tx_next_date := Some (advance_instant n iv)\<rparr> else x)
                   (find_tx s j)
            else if j = ls_next_id s then Some (occurrence (ls_next_id s) n t) else None)"
proof -
  have fresh: "ls_next_id s \<notin> tx_id ` set (ls_txs s)" using assms by (auto simp: wf_store_def)
  have ids: "map tx_id (set_next_date (tx_id t) (advance_instant n iv) (ls_txs s)) = map tx_id (ls_txs s)"
    by (rule map_set_next_date) simp
  then have "find (\<lambda>x. tx_id x = j) (set_next_date (tx_id t) (advance_instant n iv) (ls_txs s)) = None
             \<longleftrightarrow> j \<notin> tx_id ` set (ls_txs s)"
    by (metis (mono_tags, lifting) find_None_iff image_iff list.set_map)
  then show ?thesis
    using fresh
    by (auto simp: find_tx_def settle_def Let_def find_append_list find_set_next_date occurrence_def
        image_iff split: option.splits)
qed

lemma valid_advance_instant: "valid_instant n \<Longrightarrow> valid_instant (advance_instant n iv)"
  by (simp add: valid_instant_def advance_instant_def advance_valid)

lemma set_set_next_date:
  "set (set_next_date i n ts) = (\<lambda>t. if tx_id t = i then t\<lparr>tx_next_date := Some n\<rparr> else t) ` set ts"
  by (simp add: set_next_date_def)

lemma wf_store_rows:
  "wf_store s \<longleftrightarrow> distinct (map tx_id (ls_txs s)) \<and> (\<forall>t \<in> set (ls_txs s). tx_id t < ls_next_id s)
     \<and> distinct (map a_id (ls_accounts s)) \<and> (\<forall>t \<in> set (ls_txs s). row_ok (ls_accounts s) t)"
  by (simp add: wf_store_def row_ok_def)

lemma row_ok_next_date:
  "row_ok as t \<Longrightarrow> valid_instant m \<Longrightarrow> row_ok as (t\<lparr>tx_next_date := Some m\<rparr>)"
  by (simp add: row_ok_def)

lemma map_a_id_update_balance [simp]: "map a_id (update_balance b delta as) = map a_id as"
  by (induction as) (simp_all add: update_balance_def)

lemma row_ok_update_balance [simp]: "row_ok (update_balance b delta as) t = row_ok as t"
  by (simp add: row_ok_def flip: set_map)

lemma wf_settle:
  assumes "wf_store s" and "t \<in> set (ls_txs s)" and "valid_instant n"
  shows "wf_store (settle t iv n s)"
proof -
  let ?ts = "set_next_date (tx_id t) (advance_instant n iv) (ls_txs s)"
  let ?occ = "occurrence (ls_next_id s) n t"
  have ids: "map tx_id ?ts = map tx_id (ls_txs s)"
    by (rule map_set_next_date) simp
  have fresh: "ls_next_id s \<notin> set (map tx_id (ls_txs s))" using assms(1) by (auto simp: wf_store_def)
  have v: "valid_instant (advance_instant n iv)" using assms(3) by (rule valid_advance_instant)
  have rows: "\<forall>x \<in> set ?ts. row_ok (ls_accounts s) x"
    using assms(1) v by (auto simp: wf_store_rows set_set_next_date intro: row_ok_next_date)
  have occ: "row_ok (ls_accounts s) ?occ"
    using assms by (auto simp: wf_store_rows row_ok_def occurrence_def)
  have lt: "\<forall>x \<in> set ?ts. tx_id x < Suc (ls_next_id s)"
    using assms(1) by (auto simp: wf_store_rows set_set_next_date)
  show ?thesis
    using assms(1) ids fresh rows occ lt
    by (simp add: wf_store_rows settle_def Let_def occurrence_def)
qed

lemma ledger_effect_settle:
  "ledger_effect (settle t iv n s) a = ledger_effect s a + (if a = tx_account t then signed_amount t else 0)"
proof -
  have "sum_list (map signed_amount (filter (\<lambda>x. tx_account x = a) (set_next_date i m ts)))
        = sum_list (map signed_amount (filter (\<lambda>x. tx_account x = a) ts))" for i m ts
    by (induction ts) (auto simp: set_next_date_def signed_amount_def)
  then show ?thesis
    by (simp add: ledger_effect_def settle_def Let_def occurrence_def signed_amount_def)
qed

lemma balance_update_balance:
  "sum_list (map a_balance (filter (\<lambda>x. a_id x = a) (update_balance b delta as)))
   = sum_list (map a_balance (filter (\<lambda>x. a_id x = a) as))
     + (if a = b then of_nat (length (filter (\<lambda>x. a_id x = a) as)) * delta else 0)"
  by (induction as) (auto simp: update_balance_def algebra_simps)

lemma balance_of_settle:
  assumes "wf_store s" and "t \<in> set (ls_txs s)"
  shows "balance_of (settle t iv n s) a = balance_of s a + (if a = tx_account t then signed_amount t else 0)"
proof -
  obtain x where x: "x \<in> set (ls_accounts s)" "a_id x = tx_account t"
    using assms by (auto simp: wf_store_def)
  have "filter (\<lambda>y. a_id y = tx_account t) (ls_accounts s) = [x]"
    using filter_distinct_key [of a_id "ls_accounts s" x] assms(1) x by (simp add: wf_store_def)
  then show ?thesis
    by (simp add: balance_of_def settle_def Let_def balance_update_balance occurrence_def signed_amount_def)
qed

lemma tx_id_adv_row [simp]: "tx_id (adv_row now t) = tx_id t"
  by (simp add: adv_row_def split: option.split)

lemma advancer_eq:
  assumes "wf_store s"
  shows "advancer now i s = s \<and> (\<forall>t. find_tx s i = Some t \<longrightarrow> adv_row now t = t)
         \<or> (\<exists>t iv n. find_tx s i = Some t \<and> rec_due now t \<and> tx_interval t = Some iv
              \<and> tx_next_date t = Some n \<and> valid_instant n \<and> advancer now i s = settle t iv n s
              \<and> adv_row now t = t\<lparr>tx_next_date := Some (advance_instant n iv)\<rparr>)"
proof (cases "find_tx s i")
  case (Some t)
  then have t: "t \<in> set (ls_txs s)" by (simp add: find_tx_SomeD)
  show ?thesis
  proof (cases "rec_due now t")
    case True
    then obtain iv n where "tx_interval t = Some iv" "tx_next_date t = Some n"
      by (auto simp: rec_due_def split: option.splits)
    moreover have "valid_instant n" using assms t calculation True by (auto simp: wf_store_def rec_due_def)
    ultimately show ?thesis using Some True by (simp add: advancer_def adv_row_def)
  qed (simp add: Some advancer_def adv_row_def)
qed (simp add: advancer_def)

lemma wf_advancer:
  assumes "wf_store s" shows "wf_store (advancer now i s)"
  using advancer_eq [OF assms, of now i] assms by (elim disjE) (auto dest!: find_tx_SomeD intro!: wf_settle)

lemma balance_advancer:
  assumes "wf_store s"
  shows "balance_of (advancer now i s) a - ledger_effect (advancer now i s) a = balance_of s a - ledger_effect s a"
  using advancer_eq [OF assms, of now i] assms
  by (elim disjE) (auto simp: balance_of_settle ledger_effect_settle dest!: find_tx_SomeD)

lemma find_tx_advancer:
  assumes "wf_store s" and "j \<in> tx_id ` set (ls_txs s)"
  shows "find_tx (advancer now i s) j = map_option (\<lambda>x. if tx_id x = i then adv_row now x else x) (find_tx s j)"
proof (cases "find_tx s j")
  case None
  then show ?thesis using assms(2) by (auto simp: find_tx_def find_None_iff)
next
  case (Some y)
  have yi: "tx_id y = i \<Longrightarrow> find_tx s i = Some y" using Some find_tx_SomeD by fastforce
  from advancer_eq [OF assms(1), of now i] show ?thesis
  proof (elim disjE exE conjE)
    assume "advancer now i s = s" "\<forall>t. find_tx s i = Some t \<longrightarrow> adv_row now t = t"
    then show ?thesis using Some yi by auto
  next
    fix t iv n
    assume "find_tx s i = Some t" "advancer now i s = settle t iv n s"
      "adv_row now t = t\<lparr>tx_next_date := Some (advance_instant n iv)\<rparr>"
    moreover have "tx_id t = i" using \<open>find_tx s i = Some t\<close> find_tx_SomeD by blast
    moreover have "find_tx (settle t iv n s) j =
        map_option (\<lambda>x. if tx_id x = tx_id t then x\<lparr>tx_next_date := Some (advance_instant n iv)\<rparr> else x)
          (find_tx s j)"
      using assms by (simp add: find_tx_settle)
    ultimately show ?thesis using Some yi by (cases "tx_id y = i") simp_all
  qed
qed

lemma txs_advancer:
  assumes "wf_store s"
  shows "\<exists>occs. ls_txs (advancer now i s) = map (\<lambda>x. if tx_id x = i then adv_row now x else x) (ls_txs s) @ occs
           \<and> (\<forall>y \<in> set occs. \<not> tx_is_recurring y \<and> ls_next_id s \<le> tx_id y)
           \<and> ls_next_id s \<le> ls_next_id (advancer now i s)"
  using advancer_eq [OF assms, of now i]
proof (elim disjE exE conjE)
  assume "advancer now i s = s" "\<forall>t. find_tx s i = Some t \<longrightarrow> adv_row now t = t"
  moreover have "x \<in> set (ls_txs s) \<Longrightarrow> tx_id x = i \<Longrightarrow> find_tx s i = Some x" for x
    using assms find_tx_mem [of s x] by (auto simp: wf_store_def)
  ultimately have "map (\<lambda>x. if tx_id x = i then adv_row now x else x) (ls_txs s) = ls_txs s"
    by (intro map_idI) auto
  then show ?thesis using \<open>advancer now i s = s\<close> by (intro exI [of _ "[]"]) simp
next
  fix t iv n
  assume t: "find_tx s i = Some t" and a: "advancer now i s = settle t iv n s"
    and r: "adv_row now t = t\<lparr>tx_next_date := Some (advance_instant n iv)\<rparr>"
  have ti: "t \<in> set (ls_txs s)" "tx_id t = i" using t by (simp_all add: find_tx_SomeD)
  have eq: "x \<in> set (ls_txs s) \<Longrightarrow> tx_id x = i \<Longrightarrow> x = t" for x
    using assms find_tx_mem [of s x] t ti by (auto simp: wf_store_def)
  have "set_next_date (tx_id t) (advance_instant n iv) (ls_txs s)
             = map (\<lambda>x. if tx_id x = i then adv_row now x else x) (ls_txs s)"
    unfolding set_next_date_def ti(2)
  proof (rule map_cong [OF refl])
    fix x assume "x \<in> set (ls_txs s)"
    then show "(if tx_id x = i then x\<lparr>tx_next_date := Some (advance_instant n iv)\<rparr> else x)
               = (if tx_id x = i then adv_row now x else x)"
      using eq [of x] r by (cases "tx_id x = i") simp_all
  qed
  then show ?thesis
    using a by (intro exI [of _ "[occurrence (ls_next_id s) n t]"]) (simp add: settle_def Let_def occurrence_def)
qed

lemma tx_id_adv_in [simp]: "tx_id (adv_in L fails now x) = tx_id x"
  by (simp add: adv_in_def)

lemma pass_step_cases:
  "fst (pass_step fails now (st, errs) i) = st \<or> fst (pass_step fails now (st, errs) i) = advancer now i st"
  by (simp add: pass_step_def)

lemma foldl_pass_balance:
  "wf_store st \<Longrightarrow>
   balance_of (fst (foldl (pass_step fails now) (st, errs) L)) a
     - ledger_effect (fst (foldl (pass_step fails now) (st, errs) L)) a
   = balance_of st a - ledger_effect st a"
proof (induction L arbitrary: st errs)
  case (Cons i L)
  obtain st1 errs1 where p: "pass_step fails now (st, errs) i = (st1, errs1)" by fastforce
  then have "st1 = st \<or> st1 = advancer now i st" using pass_step_cases [of fails now st errs i] by simp
  then have "wf_store st1 \<and> balance_of st1 a - ledger_effect st1 a = balance_of st a - ledger_effect st a"
    using Cons.prems wf_advancer balance_advancer by auto
  then show ?case using Cons.IH [of st1 errs1] p by simp
qed simp

lemma foldl_pass:
  assumes "wf_store st" and "distinct L" and "set L \<subseteq> tx_id ` set (ls_txs st)"
  shows "wf_store (fst (foldl (pass_step fails now) (st, errs) L))
         \<and> snd (foldl (pass_step fails now) (st, errs) L) = errs @ filter (\<lambda>i. i \<in> set fails) L
         \<and> (\<exists>occs. ls_txs (fst (foldl (pass_step fails now) (st, errs) L))
                    = map (adv_in L fails now) (ls_txs st) @ occs
                  \<and> (\<forall>y \<in> set occs. \<not> tx_is_recurring y \<and> ls_next_id st \<le> tx_id y))"
  using assms
proof (induction L arbitrary: st errs)
  case Nil
  then show ?case by (simp add: adv_in_def)
next
  case (Cons i L)
  obtain st1 errs1 where p1: "pass_step fails now (st, errs) i = (st1, errs1)" by fastforce
  obtain occs1 where
    wf1: "wf_store st1" and e1: "errs1 = errs @ (if i \<in> set fails then [i] else [])"
    and txs1: "ls_txs st1 = map (\<lambda>x. if tx_id x = i \<and> i \<notin> set fails then adv_row now x else x) (ls_txs st) @ occs1"
    and occ1: "\<forall>y \<in> set occs1. \<not> tx_is_recurring y \<and> ls_next_id st \<le> tx_id y"
    and nid: "ls_next_id st \<le> ls_next_id st1"
  proof (cases "i \<in> set fails")
    case True
    with p1 Cons.prems(1) show ?thesis by (intro that [of "[]"]) (auto simp: pass_step_def)
  next
    case False
    with p1 have "st1 = advancer now i st" "errs1 = errs" by (simp_all add: pass_step_def)
    with False Cons.prems(1) txs_advancer [OF Cons.prems(1), of now i] show ?thesis
      by (auto intro!: that wf_advancer)
  qed
  have lt: "\<forall>t \<in> set (ls_txs st). tx_id t < ls_next_id st" using Cons.prems(1) by (simp add: wf_store_def)
  have "map tx_id (ls_txs st1) = map tx_id (ls_txs st) @ map tx_id occs1"
    using txs1 by (simp add: comp_def if_distrib)
  then have ids1: "tx_id ` set (ls_txs st) \<subseteq> tx_id ` set (ls_txs st1)"
    by (metis Un_upper1 list.set_map set_append)
  have IH: "wf_store (fst (foldl (pass_step fails now) (st1, errs1) L))
         \<and> snd (foldl (pass_step fails now) (st1, errs1) L) = errs1 @ filter (\<lambda>i. i \<in> set fails) L
         \<and> (\<exists>occs. ls_txs (fst (foldl (pass_step fails now) (st1, errs1) L))
                    = map (adv_in L fails now) (ls_txs st1) @ occs
                  \<and> (\<forall>y \<in> set occs. \<not> tx_is_recurring y \<and> ls_next_id st1 \<le> tx_id y))"
    using Cons.IH [OF wf1] Cons.prems(2,3) ids1 by auto
  then obtain occs2 where
    txs2: "ls_txs (fst (foldl (pass_step fails now) (st1, errs1) L)) = map (adv_in L fails now) (ls_txs st1) @ occs2"
    and occ2: "\<forall>y \<in> set occs2. \<not> tx_is_recurring y \<and> ls_next_id st1 \<le> tx_id y" by blast
  have notL: "\<forall>y \<in> set occs1. tx_id y \<notin> set L"
    using occ1 lt Cons.prems(3) by fastforce
  have "map (adv_in L fails now) occs1 = occs1"
    using notL by (intro map_idI) (simp add: adv_in_def)
  moreover have "map (adv_in L fails now) (map (\<lambda>x. if tx_id x = i \<and> i \<notin> set fails then adv_row now x else x) (ls_txs st))
                 = map (adv_in (i # L) fails now) (ls_txs st)"
    using Cons.prems(2) by (auto simp: adv_in_def)
  ultimately have "ls_txs (fst (foldl (pass_step fails now) (st1, errs1) L))
                   = map (adv_in (i # L) fails now) (ls_txs st) @ occs1 @ occs2"
    using txs1 txs2 by simp
  moreover have "\<forall>y \<in> set (occs1 @ occs2). \<not> tx_is_recurring y \<and> ls_next_id st \<le> tx_id y"
    using occ1 occ2 nid by auto
  ultimately show ?case
    using IH p1 e1 by fastforce
qed

lemma due_ids_props:
  "wf_store s \<Longrightarrow> distinct (due_ids now s) \<and> set (due_ids now s) \<subseteq> tx_id ` set (ls_txs s)"
  by (auto simp: due_ids_def wf_store_def distinct_map_filter)

lemma pass_facts:
  assumes "wf_store s"
  shows "wf_store (fst (recurrence_pass fails now s))
         \<and> snd (recurrence_pass fails now s) = filter (\<lambda>i. i \<in> set fails) (due_ids now s)
         \<and> (\<exists>occs. ls_txs (fst (recurrence_pass fails now s)) = map (adv_in (due_ids now s) fails now) (ls_txs s) @ occs
                  \<and> (\<forall>y \<in> set occs. \<not> tx_is_recurring y \<and> ls_next_id s \<le> tx_id y))"
  using foldl_pass [OF assms, of "due_ids now s" fails now "[]"] due_ids_props [OF assms, of now]
  by (simp add: recurrence_pass_def)

lemma adv_in_due:
  "adv_in (due_ids now s) fails now t = (if tx_id t \<in> set fails then t else adv_row now t)"
  if "t \<in> set (ls_txs s)"
  using that by (auto simp: adv_in_def adv_row_def due_ids_def)

text \<open>
  C17. A dispatcher pass keeps the store well formed, whichever entities fail:
  transaction ids stay distinct and below the next free id, every row refers to an
  existing account and has a valid date, and every recurring row keeps its interval
  and a valid next date.
\<close>

theorem recurrence_pass_wf: "wf_store s \<Longrightarrow> wf_store (fst (recurrence_pass fails now s))"
  using pass_facts by blast

text \<open>
  C14. A dispatcher pass keeps every account balance consistent with the ledger: the
  balance minus the signed sum of the account's transactions is unchanged, because
  each settlement inserts the occurrence and applies its signed effect in one step.
\<close>

theorem recurrence_pass_balance:
  "wf_store s \<Longrightarrow>
   balance_of (fst (recurrence_pass fails now s)) a - ledger_effect (fst (recurrence_pass fails now s)) a
   = balance_of s a - ledger_effect s a"
  unfolding recurrence_pass_def by (rule foldl_pass_balance)

text \<open>
  C16. Failures are isolated: after a pass, the reported entities are exactly the due
  ones that failed, each failed row is unchanged, and every other row is advanced
  exactly as the advancer alone would advance it.
\<close>

theorem pass_isolates_failures:
  assumes "wf_store s" and "recurrence_pass fails now s = (s', errs)"
  shows "errs = filter (\<lambda>i. i \<in> set fails) (due_ids now s)
         \<and> (\<forall>t \<in> set (ls_txs s). find_tx s' (tx_id t) = Some (if tx_id t \<in> set fails then t else adv_row now t))"
proof -
  obtain occs where txs: "ls_txs s' = map (adv_in (due_ids now s) fails now) (ls_txs s) @ occs"
    and errs: "errs = filter (\<lambda>i. i \<in> set fails) (due_ids now s)"
    using pass_facts [OF assms(1), of fails now] assms(2) by auto
  have "find_tx s' (tx_id t) = Some (adv_in (due_ids now s) fails now t)" if "t \<in> set (ls_txs s)" for t
  proof -
    have "find (\<lambda>x. tx_id x = tx_id t) (map (adv_in (due_ids now s) fails now) (ls_txs s))
          = map_option (adv_in (due_ids now s) fails now) (find (\<lambda>x. tx_id x = tx_id t) (ls_txs s))"
      by (rule find_map_invariant) simp
    moreover have "find (\<lambda>x. tx_id x = tx_id t) (ls_txs s) = Some t"
      using find_tx_mem [of s t] assms(1) that by (simp add: wf_store_def find_tx_def)
    ultimately show ?thesis by (simp add: find_tx_def txs find_append_list)
  qed
  then show ?thesis using errs adv_in_due by simp
qed

lemma month_index_mono:
  "month d < 12 \<Longrightarrow> d \<le> d' \<Longrightarrow> month_index d \<le> month_index d'"
  by (cases d; cases d') (auto simp: date_less_eq_iff month_index_def)

lemma month_index_strict:
  "month d < 12 \<Longrightarrow> d < d' \<Longrightarrow>
   month_index d < month_index d' \<or> month_index d = month_index d' \<and> day d < day d'"
  by (cases d; cases d') (auto simp: date_less_iff month_index_def)

lemma due_measure_advance:
  assumes "valid_instant n" and "n \<le> now"
  shows "due_measure now (advance_instant n iv) < due_measure now n"
proof -
  let ?d = "i_date n" and ?d' = "advance (i_date n) iv"
  have v: "valid_date ?d" using assms(1) by (simp add: valid_instant_def)
  have v': "valid_date ?d'" using v by (rule advance_valid)
  have lt: "?d < ?d'" using v by (rule advance_increases)
  have le: "?d \<le> i_date now"
    using assms(2) by (cases n; cases now) (auto simp: instant_less_eq_iff)
  have mi: "month_index ?d \<le> month_index (i_date now)"
    using le v by (intro month_index_mono) (simp_all add: valid_date_def)
  have days: "1 \<le> day ?d'" "day ?d \<le> 31" "day ?d' \<le> 31"
    using v v' days_in_month_bounds [of "year ?d" "month ?d"] days_in_month_bounds [of "year ?d'" "month ?d'"]
    by (simp_all add: valid_date_def)
  from month_index_strict [OF _ lt] v
  consider "month_index ?d < month_index ?d'" | "month_index ?d = month_index ?d'" "day ?d < day ?d'"
    by (auto simp: valid_date_def)
  then show ?thesis
  proof cases
    case 1
    then have "nat (month_index (i_date now) + 1 - month_index ?d') + 1
               \<le> nat (month_index (i_date now) + 1 - month_index ?d)"
      using mi by linarith
    then show ?thesis using days by (simp add: due_measure_def advance_instant_def)
  next
    case 2
    then show ?thesis using days by (simp add: due_measure_def advance_instant_def)
  qed
qed

lemma sum_list_map_strict_mono:
  fixes f g :: "'a \<Rightarrow> nat"
  shows "(\<forall>x \<in> set xs. f x \<le> g x) \<Longrightarrow> (\<exists>x \<in> set xs. f x < g x) \<Longrightarrow>
         sum_list (map f xs) < sum_list (map g xs)"
proof (induction xs)
  case (Cons x xs)
  have "sum_list (map f xs) \<le> sum_list (map g xs)"
    using Cons.prems(1) by (intro sum_list_mono) simp
  then show ?case using Cons by (cases "f x < g x") auto
qed simp

lemma row_measure_adv_row:
  assumes "row_ok as t"
  shows "row_measure now (adv_row now t) \<le> row_measure now t
         \<and> (rec_due now t \<longrightarrow> row_measure now (adv_row now t) < row_measure now t)"
proof (cases "rec_due now t")
  case True
  then obtain iv n where "tx_interval t = Some iv" "tx_next_date t = Some n" "n \<le> now" "tx_is_recurring t"
    by (auto simp: rec_due_def split: option.splits)
  moreover have "valid_instant n" using assms calculation by (auto simp: row_ok_def)
  ultimately show ?thesis
    using due_measure_advance [of n now iv] True by (simp add: adv_row_def row_measure_def)
qed (simp add: adv_row_def)

lemma pass_measure:
  assumes "wf_store s" and "due_ids now s \<noteq> []"
  shows "store_measure now (fst (recurrence_pass [] now s)) < store_measure now s"
proof -
  obtain occs where txs: "ls_txs (fst (recurrence_pass [] now s)) = map (adv_in (due_ids now s) [] now) (ls_txs s) @ occs"
    and occ: "\<forall>y \<in> set occs. \<not> tx_is_recurring y"
    using pass_facts [OF assms(1), of "[]" now] by auto
  have m: "map (row_measure now \<circ> adv_in (due_ids now s) [] now) (ls_txs s)
           = map (\<lambda>t. row_measure now (adv_row now t)) (ls_txs s)"
    by (rule map_cong) (auto simp: adv_in_due)
  have occ0: "sum_list (map (row_measure now) occs) = 0"
    using occ by (simp add: row_measure_def sum_list_eq_0_iff)
  have ok: "\<forall>t \<in> set (ls_txs s). row_ok (ls_accounts s) t" using assms(1) by (simp add: wf_store_rows)
  obtain t where "t \<in> set (ls_txs s)" "rec_due now t"
    using assms(2) by (auto simp: due_ids_def filter_empty_conv)
  then have "sum_list (map (\<lambda>t. row_measure now (adv_row now t)) (ls_txs s)) < sum_list (map (row_measure now) (ls_txs s))"
    using ok row_measure_adv_row by (intro sum_list_map_strict_mono) blast+
  then show ?thesis by (simp add: store_measure_def txs m occ0)
qed

text \<open>
  C15. Repeated passes with an unchanged clock terminate: from a well-formed store, the
  passes reach a well-formed store in which nothing is due, however far behind the
  recurrences are.
\<close>

theorem catch_up_terminates:
  assumes "wf_store s"
  shows "\<exists>s'. catch_up now s = Some s' \<and> wf_store s' \<and> due_ids now s' = []"
proof -
  have step: "wf_store (fst (recurrence_pass [] now st))
              \<and> store_measure now (fst (recurrence_pass [] now st)) < store_measure now st"
    if "wf_store st" "due_ids now st \<noteq> []" for st
    using that pass_facts pass_measure by blast
  have "\<exists>t. while_option (\<lambda>st. due_ids now st \<noteq> []) (\<lambda>st. fst (recurrence_pass [] now st)) s = Some t"
    by (rule measure_while_option_Some [where P = wf_store and f = "store_measure now"]) (use step assms in auto)
  then obtain s' where s': "catch_up now s = Some s'" by (auto simp: catch_up_def)
  moreover have "wf_store s'"
    by (rule while_option_rule [where P = wf_store, OF _ s' [unfolded catch_up_def] assms]) (use step in blast)
  moreover have "due_ids now s' = []"
    using s' unfolding catch_up_def by (auto dest: while_option_stop)
  ultimately show ?thesis by blast
qed

text \<open>
  C13. Invoking the advancer twice with an unchanged clock settles a second occurrence
  exactly when the advanced next date is still not after now: the second call is a
  no-op if and only if now < advance(next, interval).
\<close>

theorem advancer_twice:
  assumes "wf_store s" and "find_tx s i = Some t" and "rec_due now t"
    and "tx_interval t = Some iv" and "tx_next_date t = Some n"
  shows "advancer now i (advancer now i s) = advancer now i s \<longleftrightarrow> now < advance_instant n iv"
proof -
  have s1: "advancer now i s = settle t iv n s"
    using assms(2-5) by (simp add: advancer_def)
  have ti: "t \<in> set (ls_txs s)" "tx_id t = i" using assms(2) by (simp_all add: find_tx_SomeD)
  let ?t1 = "t\<lparr>tx_next_date := Some (advance_instant n iv)\<rparr>"
  have "i \<in> tx_id ` set (ls_txs s)" using ti by auto
  then have f1: "find_tx (settle t iv n s) i = Some ?t1"
    using assms(1,2) ti by (simp add: find_tx_settle)
  have "rec_due now ?t1 \<longleftrightarrow> advance_instant n iv \<le> now"
    using assms(3,4) by (simp add: rec_due_def)
  moreover have "settle ?t1 iv (advance_instant n iv) (settle t iv n s) \<noteq> settle t iv n s"
    by (simp add: settle_def Let_def)
  moreover have "advancer now i (settle t iv n s)
      = (if rec_due now ?t1 then settle ?t1 iv (advance_instant n iv) (settle t iv n s) else settle t iv n s)"
    using f1 assms(4) by (simp add: advancer_def)
  ultimately show ?thesis by (auto simp: s1 not_le)
qed

lemma rec_sample_wf: "wf_store rec_sample"
  by (simp add: wf_store_def valid_instant_def valid_date_def days_in_month_def ms_per_day_def)

lemmas rec_eval = advancer_def find_tx_def rec_due_def settle_def occurrence_def set_next_date_def
  update_balance_def advance_instant_def Let_def date_of_idx_def dim_idx_def month_index_def
  days_in_month_def is_leap_def signed_amount_def calendar_simps


theorem advancer_twice_witness:
  "advancer (Instant (Date 2024 0 31) 43200000) 1 (advancer (Instant (Date 2024 0 31) 43200000) 1 rec_sample)
     = advancer (Instant (Date 2024 0 31) 43200000) 1 rec_sample
   \<and> advancer (Instant (Date 2024 2 5) 0) 1 (advancer (Instant (Date 2024 2 5) 0) 1 rec_sample)
     \<noteq> advancer (Instant (Date 2024 2 5) 0) 1 rec_sample"
proof -
  have f: "find_tx rec_sample 1 = Some rec_tx" by (simp add: find_tx_def)
  have adv: "advance_instant (Instant (Date 2024 0 31) 0) MONTHLY = Instant (Date 2024 1 29) 0"
    by (simp add: rec_eval)
  have d1: "rec_due (Instant (Date 2024 0 31) 43200000) rec_tx" and d2: "rec_due (Instant (Date 2024 2 5) 0) rec_tx"
    by (simp_all add: rec_due_def calendar_simps)
  show ?thesis
    using advancer_twice [OF rec_sample_wf f d1, of MONTHLY "Instant (Date 2024 0 31) 0"]
      advancer_twice [OF rec_sample_wf f d2, of MONTHLY "Instant (Date 2024 0 31) 0"]
    by (simp add: adv calendar_simps)
qed

theorem catch_up_terminates_witness:
  "wf_store rec_sample \<and> (\<exists>s'. catch_up (Instant (Date 2024 2 31) 0) rec_sample = Some s' \<and> wf_store s'
      \<and> due_ids (Instant (Date 2024 2 31) 0) s' = [])"
  using rec_sample_wf catch_up_terminates [OF rec_sample_wf, of "Instant (Date 2024 2 31) 0"] by blast

theorem pass_isolates_failures_witness:
  "wf_store rec_sample
   \<and> recurrence_pass [1] (Instant (Date 2024 0 31) 43200000) rec_sample = (rec_sample, [1])
   \<and> find_tx rec_sample 1 = Some rec_tx"
proof -
  have p: "recurrence_pass [1] (Instant (Date 2024 0 31) 43200000) rec_sample = (rec_sample, [1])"
    by (simp add: recurrence_pass_def due_ids_def pass_step_def rec_due_def calendar_simps)
  show ?thesis
    using pass_isolates_failures [OF rec_sample_wf p] rec_sample_wf p by (simp add: find_tx_def)
qed

theorem recurrence_pass_wf_witness:
  "wf_store rec_sample \<and> wf_store (fst (recurrence_pass [] (Instant (Date 2024 0 31) 43200000) rec_sample))"
  using rec_sample_wf recurrence_pass_wf [OF rec_sample_wf] by blast

theorem recurrence_pass_balance_witness:
  "wf_store rec_sample
   \<and> balance_of (fst (recurrence_pass [] (Instant (Date 2024 0 31) 43200000) rec_sample)) 3
     - ledger_effect (fst (recurrence_pass [] (Instant (Date 2024 0 31) 43200000) rec_sample)) 3
     = 250000 - (-5000)"
  using rec_sample_wf recurrence_pass_balance [OF rec_sample_wf, of "[]" "Instant (Date 2024 0 31) 43200000" 3]
  by (simp add: balance_of_def ledger_effect_def signed_amount_def)

end
