(* ===== verification/Site_Shell.thy ===== *)
theory Site_Shell
  imports Finance_Prelude
begin

text \<open>
  The shell around the application: the root layout (\<open>src/app/layout.js\<close>) with the
  \<open>Header\<close> (\<open>src/components/header.jsx\<close>), the landing page
  (\<open>src/app/page.js\<close>) with its \<open>HeroSection\<close> (\<open>src/components/hero.jsx\<close>), and the
  dashboard layout (\<open>src/app/(main)/dashboard/layout.js\<close>).  The content arrays of
  \<open>@/data/landing\<close> are not under \<open>src/\<close>: the page is a function of them.  The
  header's controls depend on the Clerk session (\<open>SignedIn\<close>/\<open>SignedOut\<close>) and on the
  viewport width through the Tailwind classes \<open>hidden sm:block\<close>, \<open>hidden md:flex\<close>
  and \<open>md:hidden\<close>, read with Tailwind's default breakpoints (\<open>sm\<close> = 640px,
  \<open>md\<close> = 768px).  The hero's effect registers a window \<open>scroll\<close> listener that adds
  or removes the class \<open>scrolled\<close> of the hero image, and removes the listener on
  unmount.
\<close>

subsection \<open>The header\<close>

datatype nav_target = Route string | Anchor string

text \<open>A control of the header: a link with its label, Clerk's sign-in button with its
  redirect, Clerk's user button, and the mobile menu button (which has no handler).\<close>

datatype nav_item = NavLink nav_target string | SignInButton string | UserButton | MenuButton

definition sm_breakpoint :: nat where "sm_breakpoint = 640"
definition md_breakpoint :: nat where "md_breakpoint = 768"

text \<open>The controls rendered and visible for a session state and a viewport width, in
  document order.\<close>

definition header_items :: "bool \<Rightarrow> nat \<Rightarrow> nav_item list" where
  "header_items signed_in w =
     [NavLink (Route ''/'') ''logo'']
     @ (if \<not> signed_in \<and> md_breakpoint \<le> w
        then [NavLink (Anchor ''features'') ''Features'', NavLink (Anchor ''testimonials'') ''Testimonials'']
        else [])
     @ (if signed_in
        then (if sm_breakpoint \<le> w then [NavLink (Route ''/dashboard'') ''Dashboard''] else [])
             @ [NavLink (Route ''/transaction/create'') (if sm_breakpoint \<le> w then ''Add Transaction'' else ''Add'')]
        else [])
     @ (if signed_in then [] else [SignInButton ''/dashboard''])
     @ (if signed_in then [UserButton] else [])
     @ (if signed_in \<and> w < md_breakpoint then [MenuButton] else [])"

text \<open>Where activating a control leads: a route, an in-page anchor, Clerk's sign-in
  flow ending at its redirect, Clerk's account menu; the menu button does nothing.\<close>

datatype nav_action = GoTo nav_target | SignInThen string | OpenUserMenu

fun item_action :: "nav_item \<Rightarrow> nav_action option" where
  "item_action (NavLink t _) = Some (GoTo t)"
| "item_action (SignInButton r) = Some (SignInThen r)"
| "item_action UserButton = Some OpenUserMenu"
| "item_action MenuButton = None"

subsection \<open>The landing page\<close>

datatype section_kind = HeroSection | StatsSection | FeaturesSection | HowItWorksSection
  | TestimonialsSection | CtaSection

record page_section =
  sec_kind :: section_kind
  sec_id :: "string option"
  sec_title :: string
  sec_cards :: nat
  sec_stars :: "nat list"
  sec_links :: "string list"

text \<open>\<open>HeroSection\<close> (\<open>hero.jsx\<close>): the heading, the link to the dashboard, the
  image whose classes the scroll listener changes, and three feature tiles.\<close>

definition hero_section :: page_section where
  "hero_section =
     \<lparr>sec_kind = HeroSection, sec_id = None, sec_title = ''Smart Finance Smarter You'', sec_cards = 3,
      sec_stars = [], sec_links = [''/dashboard'']\<rparr>"

text \<open>\<open>LandingPage\<close>: the sections in order, each data array rendered as one card per
  element; every testimonial card shows \<open>[...Array(5)]\<close> stars.\<close>

definition landing_page :: "'s list \<Rightarrow> 'f list \<Rightarrow> 'h list \<Rightarrow> 't list \<Rightarrow> page_section list" where
  "landing_page stats features steps testimonials =
     [hero_section,
      \<lparr>sec_kind = StatsSection, sec_id = None, sec_title = [], sec_cards = length stats,
       sec_stars = [], sec_links = []\<rparr>,
      \<lparr>sec_kind = FeaturesSection, sec_id = Some ''features'', sec_title = ''Powerful features for modern finance'',
       sec_cards = length features, sec_stars = [], sec_links = []\<rparr>,
      \<lparr>sec_kind = HowItWorksSection, sec_id = None, sec_title = ''Get started in minutes'',
       sec_cards = length steps, sec_stars = [], sec_links = []\<rparr>,
      \<lparr>sec_kind = TestimonialsSection, sec_id = Some ''testimonials'', sec_title = ''Loved by thousands'',
       sec_cards = length testimonials, sec_stars = map (\<lambda>_. 5) testimonials, sec_links = []\<rparr>,
      \<lparr>sec_kind = CtaSection, sec_id = None, sec_title = ''Ready to transform your finances?'', sec_cards = 0,
       sec_stars = [], sec_links = [''/dashboard'']\<rparr>]"

text \<open>\<open>RootLayout\<close>: the header, the page in \<open>main\<close>, and a footer with the current
  year.\<close>

record layout_view =
  lv_header :: "nav_item list"
  lv_main :: "page_section list"
  lv_footer_year :: int

definition root_layout :: "bool \<Rightarrow> nat \<Rightarrow> int \<Rightarrow> page_section list \<Rightarrow> layout_view" where
  "root_layout signed_in w year children =
     \<lparr>lv_header = header_items signed_in w, lv_main = children, lv_footer_year = year\<rparr>"

text \<open>An in-page anchor resolves when exactly one section carries its id.\<close>

definition anchor_resolves :: "page_section list \<Rightarrow> string \<Rightarrow> bool" where
  "anchor_resolves secs a \<longleftrightarrow> length (filter (\<lambda>s. sec_id s = Some a) secs) = 1"

definition header_anchors :: "nav_item list \<Rightarrow> string list" where
  "header_anchors items = [a. NavLink (Anchor a) _ \<leftarrow> items]"

subsection \<open>The hero's scroll effect\<close>

text \<open>The window's scroll position, whether the hero is mounted, whether its listener is
  registered, and the class list of the hero image (a \<open>DOMTokenList\<close>: ordered, no
  duplicates).\<close>

record hero_state =
  hs_mounted :: bool
  hs_listening :: bool
  hs_scroll_y :: int
  hs_classes :: "string list"

definition hero_image_classes :: "string list" where
  "hero_image_classes = [''transform'', ''transition-all'', ''duration-700'']"

definition class_add :: "string \<Rightarrow> string list \<Rightarrow> string list" where
  "class_add c cs = (if c \<in> set cs then cs else cs @ [c])"

definition class_remove :: "string \<Rightarrow> string list \<Rightarrow> string list" where
  "class_remove c cs = removeAll c cs"

definition handle_scroll :: "int \<Rightarrow> string list \<Rightarrow> string list" where
  "handle_scroll y cs = (if y > 100 then class_add ''scrolled'' cs else class_remove ''scrolled'' cs)"

datatype hero_event = HeroMount | WindowScroll int | HeroUnmount

text \<open>Mounting renders a fresh image element and runs the effect, which only registers
  the listener; a scroll moves the window and runs the listener if registered;
  unmounting runs the cleanup.\<close>

fun hero_step :: "hero_event \<Rightarrow> hero_state \<Rightarrow> hero_state option" where
  "hero_step HeroMount s =
     (if hs_mounted s then None
      else Some (s\<lparr>hs_mounted := True, hs_listening := True, hs_classes := hero_image_classes\<rparr>))"
| "hero_step (WindowScroll y) s =
     Some (if hs_listening s then s\<lparr>hs_scroll_y := y, hs_classes := handle_scroll y (hs_classes s)\<rparr>
           else s\<lparr>hs_scroll_y := y\<rparr>)"
| "hero_step HeroUnmount s =
     (if hs_mounted s then Some (s\<lparr>hs_mounted := False, hs_listening := False\<rparr>) else None)"

definition hero_init :: "int \<Rightarrow> hero_state" where
  "hero_init y = \<lparr>hs_mounted = False, hs_listening = False, hs_scroll_y = y, hs_classes = []\<rparr>"

fun hero_run :: "hero_event list \<Rightarrow> hero_state \<Rightarrow> hero_state option" where
  "hero_run [] s = Some s"
| "hero_run (ev # evs) s = (case hero_step ev s of None \<Rightarrow> None | Some s' \<Rightarrow> hero_run evs s')"

inductive hero_reachable :: "hero_state \<Rightarrow> bool" where
  init: "hero_reachable (hero_init y)"
| step: "hero_reachable s \<Longrightarrow> hero_step ev s = Some s' \<Longrightarrow> hero_reachable s'"

definition hero_inv :: "hero_state \<Rightarrow> bool" where
  "hero_inv s \<longleftrightarrow>
     hs_listening s = hs_mounted s \<and> distinct (hs_classes s)
     \<and> (hs_mounted s \<longrightarrow> ''scrolled'' \<in> set (hs_classes s) \<longrightarrow> 100 < hs_scroll_y s)"

subsection \<open>Properties of the shell\<close>

lemma distinct_handle_scroll: "distinct cs \<Longrightarrow> distinct (handle_scroll y cs)"
  by (simp add: handle_scroll_def class_add_def class_remove_def distinct_removeAll)

lemma scrolled_handle_scroll: "''scrolled'' \<in> set (handle_scroll y cs) \<longleftrightarrow> 100 < y"
  by (simp add: handle_scroll_def class_add_def class_remove_def)

lemma hero_inv_init: "hero_inv (hero_init y)"
  by (simp add: hero_inv_def hero_init_def)

lemma hero_inv_step:
  assumes "hero_inv s" and "hero_step ev s = Some s'"
  shows "hero_inv s'"
  using assms
  by (cases ev)
     (auto simp: hero_inv_def hero_image_classes_def distinct_handle_scroll scrolled_handle_scroll
        split: if_splits)

lemma hero_reachable_inv: "hero_reachable s \<Longrightarrow> hero_inv s"
  by (induction rule: hero_reachable.induct) (auto intro: hero_inv_init hero_inv_step)

lemma hero_run_reachable:
  "hero_reachable s \<Longrightarrow> hero_run evs s = Some s' \<Longrightarrow> hero_reachable s'"
  by (induction evs arbitrary: s) (auto split: option.splits intro: hero_reachable.step)

text \<open>
  C38. The hero's listener is registered exactly while the hero is mounted (the
  effect's cleanup removes it), the image's class list stays duplicate-free, the class
  "scrolled" is present only when the window is scrolled past 100px, and every scroll
  while mounted sets the class exactly when the new position is past 100px.
\<close>

theorem hero_scroll_class:
  assumes "hero_reachable s"
  shows "hs_listening s = hs_mounted s \<and> distinct (hs_classes s)
         \<and> (hs_mounted s \<and> ''scrolled'' \<in> set (hs_classes s) \<longrightarrow> 100 < hs_scroll_y s)
         \<and> (hs_mounted s \<longrightarrow>
              (\<exists>s'. hero_step (WindowScroll y) s = Some s' \<and> (''scrolled'' \<in> set (hs_classes s') \<longleftrightarrow> 100 < y)))"
  using hero_reachable_inv [OF assms] by (auto simp: hero_inv_def scrolled_handle_scroll)

text \<open>The converse of the third conjunct fails: the effect does not run the handler
  when it registers it, so a hero mounted on a page already scrolled past 100px lacks
  the class until the next scroll.\<close>

theorem hero_mount_unsynced:
  "\<exists>s. hero_run [HeroMount] (hero_init 500) = Some s
       \<and> hs_mounted s \<and> 100 < hs_scroll_y s \<and> ''scrolled'' \<notin> set (hs_classes s)"
  by (simp add: hero_init_def hero_image_classes_def)

text \<open>
  C40. The header's links by session and viewport width: a signed-in user has a link to
  the dashboard only from 640px up, and below 768px gets the menu button, which has no
  action, so below 640px no control of the header leads to the dashboard; a signed-out
  visitor sees the in-page links to the features and testimonials only from 768px up
  and has no menu button at all.
\<close>

theorem header_links_by_width:
  "((\<exists>it \<in> set (header_items True w). item_action it = Some (GoTo (Route ''/dashboard''))) \<longleftrightarrow> sm_breakpoint \<le> w)
   \<and> (MenuButton \<in> set (header_items True w) \<longleftrightarrow> w < md_breakpoint) \<and> item_action MenuButton = None
   \<and> header_anchors (header_items False w) = (if md_breakpoint \<le> w then [''features'', ''testimonials''] else [])
   \<and> MenuButton \<notin> set (header_items False w)"
  by (auto simp: header_items_def header_anchors_def sm_breakpoint_def md_breakpoint_def)

text \<open>
  On the landing page under the root layout, every in-page link of the header
  resolves to exactly one section of the page, whatever the session, the viewport and
  the content arrays.
\<close>

theorem landing_anchors_resolve:
  "\<forall>a \<in> set (header_anchors (lv_header (root_layout si w yr (landing_page st fs hs ts)))).
     anchor_resolves (lv_main (root_layout si w yr (landing_page st fs hs ts))) a"
  by (auto simp: root_layout_def header_items_def header_anchors_def anchor_resolves_def landing_page_def hero_section_def)

theorem hero_scroll_class_witness:
  "\<exists>s. hero_run [HeroMount, WindowScroll 150] (hero_init 0) = Some s
       \<and> hs_mounted s \<and> ''scrolled'' \<in> set (hs_classes s) \<and> 100 < hs_scroll_y s
       \<and> (\<exists>s'. hero_step (WindowScroll 20) s = Some s' \<and> ''scrolled'' \<notin> set (hs_classes s'))"
proof -
  obtain s where run: "hero_run [HeroMount, WindowScroll 150] (hero_init 0) = Some s"
    and m: "hs_mounted s" "''scrolled'' \<in> set (hs_classes s)"
    by (simp add: hero_init_def hero_image_classes_def handle_scroll_def class_add_def)
  have r: "hero_reachable s" by (rule hero_run_reachable [OF hero_reachable.init run])
  from hero_scroll_class [OF r, of 20] m run show ?thesis by auto
qed

theorem landing_anchors_resolve_witness:
  "header_anchors (lv_header (root_layout False 1024 2025 (landing_page [()] [(), ()] ([] :: unit list) [()])))
     = [''features'', ''testimonials'']
   \<and> anchor_resolves (lv_main (root_layout False 1024 2025 (landing_page [()] [(), ()] ([] :: unit list) [()]))) ''features''
   \<and> anchor_resolves (lv_main (root_layout False 1024 2025 (landing_page [()] [(), ()] ([] :: unit list) [()]))) ''testimonials''"
  using landing_anchors_resolve [of False 1024 2025 "[()]" "[(), ()]" "[] :: unit list" "[()]"]
  by (simp add: root_layout_def header_items_def header_anchors_def md_breakpoint_def sm_breakpoint_def)

end
