(* ===== verification/Use_Fetch.thy ===== *)
theory Use_Fetch
  imports Finance_Prelude
begin

text \<open>
  The hook \<open>useFetch\<close> of \<open>src/hooks/use-fetch.js\<close>: three pieces of React state
  (\<open>loading\<close>, \<open>data\<close>, \<open>error\<close>) and \<open>execute\<close>, which sets \<open>loading\<close> and clears
  \<open>error\<close>, awaits the wrapped server action, then stores its result or its error and
  clears \<open>loading\<close> in \<open>finally\<close>.  React batches the updates made between two
  awaits, so each of the three phases is one state change.

  Calls may overlap: the component can call \<open>execute\<close> again before the first call
  settles.  The model therefore runs the hook together with the list of calls in flight
  (each identified by the order in which it was issued); the settled value is stored
  with the identity of its call, which is how React compares it (\<open>Object.is\<close>) when an
  effect depends on \<open>data\<close>.
\<close>

record 'r fetch_state =
  f_loading :: bool
  f_data :: "(nat \<times> 'r) option"
  f_error :: "string option"

definition fetch_init :: "'r fetch_state" where
  "fetch_init = \<lparr>f_loading = False, f_data = None, f_error = None\<rparr>"

text \<open>\<open>setLoading(true); setError(null)\<close> before the \<open>await\<close>.\<close>

definition fetch_start :: "'r fetch_state \<Rightarrow> 'r fetch_state" where
  "fetch_start s = s\<lparr>f_loading := True, f_error := None\<rparr>"

text \<open>\<open>setData(result)\<close> and, in \<open>finally\<close>, \<open>setLoading(false)\<close>.\<close>

definition fetch_resolve :: "nat \<Rightarrow> 'r \<Rightarrow> 'r fetch_state \<Rightarrow> 'r fetch_state" where
  "fetch_resolve c r s = s\<lparr>f_data := Some (c, r), f_loading := False\<rparr>"

text \<open>\<open>setError(err)\<close>, rethrow, and \<open>setLoading(false)\<close> in \<open>finally\<close>; \<open>data\<close> is kept.\<close>

definition fetch_reject :: "string \<Rightarrow> 'r fetch_state \<Rightarrow> 'r fetch_state" where
  "fetch_reject e s = s\<lparr>f_error := Some e, f_loading := False\<rparr>"

text \<open>The hook with the calls in flight and the number of calls issued so far.\<close>

record 'r fetch_sys =
  hook :: "'r fetch_state"
  pending :: "nat list"
  issued :: nat

datatype 'r fetch_event = Execute | Resolve nat 'r | Reject nat string

definition fetch_sys_init :: "'r fetch_sys" where
  "fetch_sys_init = \<lparr>hook = fetch_init, pending = [], issued = 0\<rparr>"

text \<open>A settlement of a call that is not in flight cannot happen: \<open>None\<close>.\<close>

fun fetch_step :: "'r fetch_event \<Rightarrow> 'r fetch_sys \<Rightarrow> 'r fetch_sys option" where
  "fetch_step Execute s =
     Some (s\<lparr>hook := fetch_start (hook s), pending := pending s @ [issued s], issued := Suc (issued s)\<rparr>)"
| "fetch_step (Resolve c r) s =
     (if c \<in> set (pending s)
      then Some (s\<lparr>hook := fetch_resolve c r (hook s), pending := remove1 c (pending s)\<rparr>)
      else None)"
| "fetch_step (Reject c e) s =
     (if c \<in> set (pending s)
      then Some (s\<lparr>hook := fetch_reject e (hook s), pending := remove1 c (pending s)\<rparr>)
      else None)"

fun fetch_run :: "'r fetch_event list \<Rightarrow> 'r fetch_sys \<Rightarrow> 'r fetch_sys option" where
  "fetch_run [] s = Some s"
| "fetch_run (ev # evs) s = (case fetch_step ev s of None \<Rightarrow> None | Some s' \<Rightarrow> fetch_run evs s')"

inductive fetch_reachable :: "'r fetch_sys \<Rightarrow> bool" where
  init: "fetch_reachable fetch_sys_init"
| step: "fetch_reachable s \<Longrightarrow> fetch_step ev s = Some s' \<Longrightarrow> fetch_reachable s'"

inductive_cases fetch_reachable_cases: "fetch_reachable s"

fun_cases fetch_step_Resolve: "fetch_step (Resolve c r) s = Some s'"
fun_cases fetch_step_Reject: "fetch_step (Reject c e) s = Some s'"

text \<open>The invariant of the combined system.\<close>

definition fetch_inv :: "'r fetch_sys \<Rightarrow> bool" where
  "fetch_inv s \<longleftrightarrow>
     distinct (pending s) \<and> (\<forall>c \<in> set (pending s). c < issued s)
     \<and> (f_loading (hook s) \<longrightarrow> pending s \<noteq> [])
     \<and> (case f_data (hook s) of None \<Rightarrow> True | Some (c, _) \<Rightarrow> c < issued s \<and> c \<notin> set (pending s))"

lemma fetch_inv_init: "fetch_inv fetch_sys_init"
  by (simp add: fetch_inv_def fetch_sys_init_def fetch_init_def)

lemma fetch_inv_step:
  assumes "fetch_inv s" and "fetch_step ev s = Some s'"
  shows "fetch_inv s'"
  using assms
  by (cases ev)
     (auto simp: fetch_inv_def fetch_start_def fetch_resolve_def fetch_reject_def
        set_remove1_eq less_Suc_eq split: if_splits option.splits prod.splits)

lemma fetch_reachable_inv: "fetch_reachable s \<Longrightarrow> fetch_inv s"
  by (induction rule: fetch_reachable.induct) (auto intro: fetch_inv_init fetch_inv_step)

lemma fetch_run_reachable:
  "fetch_reachable s \<Longrightarrow> fetch_run evs s = Some s' \<Longrightarrow> fetch_reachable s'"
  by (induction evs arbitrary: s) (auto split: option.splits intro: fetch_reachable.step)

subsection \<open>Properties of the hook\<close>

text \<open>
  C23. In every reachable state of the hook and its calls, \<open>loading\<close> is set only while
  some call is in flight, the calls in flight are distinct, and the stored \<open>data\<close>
  comes from a call that has settled.
\<close>

theorem fetch_invariant:
  assumes "fetch_reachable s"
  shows "(f_loading (hook s) \<longrightarrow> pending s \<noteq> []) \<and> distinct (pending s)
         \<and> (\<forall>c r. f_data (hook s) = Some (c, r) \<longrightarrow> c \<notin> set (pending s))"
  using fetch_reachable_inv [OF assms] by (auto simp: fetch_inv_def)

text \<open>
  C28. \<open>loading\<close> does not track overlapping calls: when one of two calls in flight
  settles, \<open>loading\<close> becomes false although the other call is still running.
\<close>

theorem fetch_overlap_clears_loading:
  assumes "fetch_reachable s" and "c \<in> set (pending s)" and "c' \<in> set (pending s)" and "c \<noteq> c'"
  shows "\<exists>s'. fetch_step (Resolve c r) s = Some s' \<and> \<not> f_loading (hook s') \<and> c' \<in> set (pending s')"
proof -
  have "distinct (pending s)" using fetch_reachable_inv [OF assms(1)] by (simp add: fetch_inv_def)
  then show ?thesis using assms(2-4) by (simp add: fetch_resolve_def set_remove1_eq)
qed

text \<open>
  One call of \<open>execute\<close> that succeeds leaves \<open>loading\<close> false, the result as
  \<open>data\<close> and no error; one that fails leaves \<open>loading\<close> false, the error, and the
  \<open>data\<close> of the previous successful call.
\<close>

theorem fetch_execute_settles:
  "map_option hook (fetch_run [Execute, Resolve (issued s) r] s)
     = Some \<lparr>f_loading = False, f_data = Some (issued s, r), f_error = None\<rparr>
   \<and> map_option hook (fetch_run [Execute, Reject (issued s) e] s)
     = Some \<lparr>f_loading = False, f_data = f_data (hook s), f_error = Some e\<rparr>"
  by (simp add: fetch_start_def fetch_resolve_def fetch_reject_def)

theorem fetch_invariant_witness:
  "\<exists>s. fetch_run [Execute, Execute, Resolve 0 True] fetch_sys_init = Some s \<and> fetch_reachable s
      \<and> (f_loading (hook s) \<longrightarrow> pending s \<noteq> []) \<and> distinct (pending s)
      \<and> (\<forall>c r. f_data (hook s) = Some (c, r) \<longrightarrow> c \<notin> set (pending s))"
proof -
  obtain s where run: "fetch_run [Execute, Execute, Resolve 0 True] fetch_sys_init = Some s"
    by (simp add: fetch_sys_init_def)
  have r: "fetch_reachable s" by (rule fetch_run_reachable [OF fetch_reachable.init run])
  show ?thesis using run r fetch_invariant [OF r] by blast
qed

theorem fetch_overlap_clears_loading_witness:
  "\<exists>s'. fetch_step (Resolve 0 True) \<lparr>hook = \<lparr>f_loading = True, f_data = None, f_error = None\<rparr>, pending = [0, 1], issued = 2\<rparr> = Some s'
     \<and> \<not> f_loading (hook s') \<and> 1 \<in> set (pending s')"
proof -
  have "fetch_run [Execute, Execute] fetch_sys_init
        = Some (\<lparr>hook = \<lparr>f_loading = True, f_data = None, f_error = None\<rparr>, pending = [0, 1], issued = 2\<rparr> :: bool fetch_sys)"
    by (simp add: fetch_sys_init_def fetch_init_def fetch_start_def)
  from fetch_run_reachable [OF fetch_reachable.init this]
  show ?thesis by (rule fetch_overlap_clears_loading) simp_all
qed

end
