(* ===== verification/Transaction_Table.thy ===== *)
theory Transaction_Table
  imports Ledger Js_Array Use_Fetch "HOL-Library.List_Lexorder" "HOL-Library.Char_ord"
begin

text \<open>
  The transaction table of \<open>src/app/(main)/account/_components/transaction-table.jsx\<close>:
  its React state (selection, sort configuration, search term, type and recurrence
  filters, current page), the memoised filtered and sorted rows, the page slice, the
  handlers, and the bulk delete through \<open>useFetch\<close> with the effect that clears the
  selection.  The filter values are the strings the \<open>Select\<close> components produce, and
  the empty string means no filter, as in the source.  Every user action is an event of
  \<open>table_step\<close>; an action whose control is disabled or not rendered is not an event
  (\<open>None\<close>).  The \<open>transactions\<close> prop is replaced by \<open>Refresh\<close> when the server
  re-renders the page.
\<close>

definition items_per_page :: nat where
  "items_per_page = 10"

definition tx_type_name :: "tx_type \<Rightarrow> string" where
  "tx_type_name k = (case k of INCOME \<Rightarrow> ''INCOME'' | EXPENSE \<Rightarrow> ''EXPENSE'')"

subsection \<open>Filtering and sorting\<close>

text \<open>\<open>toLowerCase\<close> on the ASCII letters.\<close>

definition js_lower_char :: "char \<Rightarrow> char" where
  "js_lower_char c =
     (case map_of (zip ''ABCDEFGHIJKLMNOPQRSTUVWXYZ'' ''abcdefghijklmnopqrstuvwxyz'') c of
        None \<Rightarrow> c | Some l \<Rightarrow> l)"

definition js_lower :: "string \<Rightarrow> string" where
  "js_lower s = map js_lower_char s"

text \<open>\<open>hay.includes(needle)\<close>: the needle occurs at some position of the haystack.\<close>

definition js_includes :: "string \<Rightarrow> string \<Rightarrow> bool" where
  "js_includes hay needle = list_ex (\<lambda>i. take (length needle) (drop i hay) = needle) [0..<Suc (length hay)]"

text \<open>\<open>transaction.description?.toLowerCase().includes(searchLower)\<close>: a row without a
  description is \<open>undefined\<close>, hence filtered out.\<close>

definition search_match :: "string \<Rightarrow> transaction \<Rightarrow> bool" where
  "search_match term t =
     (case tx_description t of None \<Rightarrow> False | Some d \<Rightarrow> js_includes (js_lower d) (js_lower term))"

definition recurring_match :: "string \<Rightarrow> transaction \<Rightarrow> bool" where
  "recurring_match f t = (if f = ''recurring'' then tx_is_recurring t else \<not> tx_is_recurring t)"

text \<open>The comparator of \<open>result.sort\<close>: the difference of the dates (its sign), of the
  amounts, or \<open>localeCompare\<close> of the categories (code-point order), negated for a
  descending sort; any other field compares equal.\<close>

definition table_cmp :: "string \<Rightarrow> string \<Rightarrow> transaction \<Rightarrow> transaction \<Rightarrow> int" where
  "table_cmp field dir a b =
     (let c = (if field = ''date'' then ccomp (tx_date a) (tx_date b)
               else if field = ''amount'' then tx_amount a - tx_amount b
               else if field = ''category'' then ccomp (tx_category a) (tx_category b)
               else 0)
      in if dir = ''asc'' then c else - c)"

record table_state =
  rows :: "transaction list"
  selected_ids :: "txn_id list"
  sort_field :: string
  sort_dir :: string
  search_term :: string
  type_filter :: string
  recurring_filter :: string
  current_page :: nat

definition filtered_and_sorted :: "table_state \<Rightarrow> transaction list" where
  "filtered_and_sorted st =
     (let r0 = rows st;
          r1 = (if search_term st \<noteq> [] then filter (search_match (search_term st)) r0 else r0);
          r2 = (if type_filter st \<noteq> [] then filter (\<lambda>t. tx_type_name (tx_type t) = type_filter st) r1 else r1);
          r3 = (if recurring_filter st \<noteq> [] then filter (recurring_match (recurring_filter st)) r2 else r2)
      in js_sort (table_cmp (sort_field st) (sort_dir st)) r3)"

subsection \<open>Pagination\<close>

text \<open>\<open>Math.ceil(length / ITEMS_PER_PAGE)\<close>.\<close>

definition total_pages :: "nat \<Rightarrow> nat" where
  "total_pages n = (n + items_per_page - 1) div items_per_page"

definition page_slice :: "transaction list \<Rightarrow> nat \<Rightarrow> transaction list" where
  "page_slice xs p = js_slice xs ((p - 1) * items_per_page) ((p - 1) * items_per_page + items_per_page)"

definition paginated :: "table_state \<Rightarrow> transaction list" where
  "paginated st = page_slice (filtered_and_sorted st) (current_page st)"

text \<open>The header checkbox: \<open>selectedIds.length === paginated.length && paginated.length > 0\<close>.\<close>

definition header_checked :: "table_state \<Rightarrow> bool" where
  "header_checked st \<longleftrightarrow> length (selected_ids st) = length (paginated st) \<and> paginated st \<noteq> []"

text \<open>\<open>hasActiveFilters\<close>.\<close>

definition has_active_filters :: "table_state \<Rightarrow> bool" where
  "has_active_filters st \<longleftrightarrow> search_term st \<noteq> [] \<or> type_filter st \<noteq> [] \<or> recurring_filter st \<noteq> []"

subsection \<open>Handlers\<close>

definition handle_sort :: "string \<Rightarrow> table_state \<Rightarrow> table_state" where
  "handle_sort field st =
     st\<lparr>sort_field := field,
        sort_dir := (if sort_field st = field \<and> sort_dir st = ''asc'' then ''desc'' else ''asc'')\<rparr>"

definition handle_select :: "txn_id \<Rightarrow> table_state \<Rightarrow> table_state" where
  "handle_select i st =
     st\<lparr>selected_ids := (if i \<in> set (selected_ids st) then filter (\<lambda>x. x \<noteq> i) (selected_ids st)
                         else selected_ids st @ [i])\<rparr>"

definition handle_select_all :: "table_state \<Rightarrow> table_state" where
  "handle_select_all st =
     st\<lparr>selected_ids := (if length (selected_ids st) = length (paginated st) then []
                         else map tx_id (paginated st))\<rparr>"

definition handle_clear_filters :: "table_state \<Rightarrow> table_state" where
  "handle_clear_filters st = st\<lparr>search_term := [], type_filter := [], recurring_filter := [], current_page := 1\<rparr>"

definition handle_page_change :: "nat \<Rightarrow> table_state \<Rightarrow> table_state" where
  "handle_page_change p st = st\<lparr>current_page := p, selected_ids := []\<rparr>"

text \<open>The \<open>onChange\<close>/\<open>onValueChange\<close> callbacks of the three filter controls.\<close>

definition set_search :: "string \<Rightarrow> table_state \<Rightarrow> table_state" where
  "set_search v st = st\<lparr>search_term := v, current_page := 1\<rparr>"

definition set_type_filter :: "string \<Rightarrow> table_state \<Rightarrow> table_state" where
  "set_type_filter v st = st\<lparr>type_filter := v, current_page := 1\<rparr>"

definition set_recurring_filter :: "string \<Rightarrow> table_state \<Rightarrow> table_state" where
  "set_recurring_filter v st = st\<lparr>recurring_filter := v, current_page := 1\<rparr>"

subsection \<open>The table with its delete hook\<close>

text \<open>
  \<open>deleteFn\<close> is \<open>useFetch(bulkDeleteTransactions)\<close>; the value it settles with is
  the action's result object, represented by its \<open>success\<close> flag.  The effect on
  \<open>[deleted, deleteLoading]\<close> runs after a render in which one of them changed
  (\<open>del_deps\<close> holds their values at the previous render).  \<open>del_args\<close> records the
  id lists sent to the server and \<open>toasts\<close> the messages shown (\<open>Deleting n
  transactions...\<close>, \<open>Transactions deleted successfully\<close>, \<open>Filters cleared\<close>).
\<close>

datatype table_toast = DeletingToast nat | DeletedToast | FiltersClearedToast

record table_sys =
  tbl :: table_state
  del :: "bool fetch_sys"
  del_deps :: "(nat \<times> bool) option \<times> bool"
  del_args :: "txn_id list list"
  toasts :: "table_toast list"

definition table_init :: "transaction list \<Rightarrow> table_sys" where
  "table_init ts =
     \<lparr>tbl = \<lparr>rows = ts, selected_ids = [], sort_field = ''date'', sort_dir = ''desc'',
             search_term = [], type_filter = [], recurring_filter = [], current_page = 1\<rparr>,
      del = fetch_sys_init, del_deps = (None, False), del_args = [], toasts = []\<rparr>"

definition delete_effect :: "table_sys \<Rightarrow> table_sys" where
  "delete_effect s =
     (let deps = (f_data (hook (del s)), f_loading (hook (del s)))
      in if deps = del_deps s then s
         else if fst deps \<noteq> None \<and> \<not> snd deps
         then s\<lparr>del_deps := deps, tbl := (tbl s)\<lparr>selected_ids := []\<rparr>,
                toasts := toasts s @ [DeletedToast]\<rparr>
         else s\<lparr>del_deps := deps\<rparr>)"

text \<open>\<open>deleteFn(ids)\<close>: starts a call of the hook; the promise is not awaited.\<close>

definition call_delete :: "txn_id list \<Rightarrow> table_sys \<Rightarrow> table_sys option" where
  "call_delete ids s =
     map_option (\<lambda>d. s\<lparr>del := d, del_args := del_args s @ [ids]\<rparr>) (fetch_step Execute (del s))"

datatype table_event =
    SearchInput string | TypeSelect string | RecurringSelect string | HeaderClick string
  | RowCheck txn_id | HeaderCheck | PrevPage | NextPage | PageButton nat | ClearFilters
  | BulkDelete bool | RowDelete txn_id | DeleteDone nat bool | DeleteFailed nat string
  | Refresh "transaction list"

definition with_tbl :: "(table_state \<Rightarrow> table_state) \<Rightarrow> table_sys \<Rightarrow> table_sys option" where
  "with_tbl f s = Some (s\<lparr>tbl := f (tbl s)\<rparr>)"

definition visible_ids :: "table_state \<Rightarrow> txn_id set" where
  "visible_ids st = tx_id ` set (paginated st)"

fun table_handle :: "table_event \<Rightarrow> table_sys \<Rightarrow> table_sys option" where
  "table_handle (SearchInput v) s = with_tbl (set_search v) s"
| "table_handle (TypeSelect v) s =
     (if v \<in> {''INCOME'', ''EXPENSE''} then with_tbl (set_type_filter v) s else None)"
| "table_handle (RecurringSelect v) s =
     (if v \<in> {''recurring'', ''non-recurring''} then with_tbl (set_recurring_filter v) s else None)"
| "table_handle (HeaderClick f) s =
     (if f \<in> {''date'', ''category'', ''amount''} then with_tbl (handle_sort f) s else None)"
| "table_handle (RowCheck i) s = (if i \<in> visible_ids (tbl s) then with_tbl (handle_select i) s else None)"
| "table_handle HeaderCheck s = with_tbl handle_select_all s"
| "table_handle PrevPage s =
     (let st = tbl s; n = total_pages (length (filtered_and_sorted st))
      in if 1 < n \<and> current_page st \<noteq> 1 then with_tbl (handle_page_change (current_page st - 1)) s else None)"
| "table_handle NextPage s =
     (let st = tbl s; n = total_pages (length (filtered_and_sorted st))
      in if 1 < n \<and> current_page st \<noteq> n then with_tbl (handle_page_change (current_page st + 1)) s else None)"
| "table_handle (PageButton p) s =
     (let n = total_pages (length (filtered_and_sorted (tbl s)))
      in if 1 < n \<and> 1 \<le> p \<and> p \<le> n then with_tbl (handle_page_change p) s else None)"
| "table_handle ClearFilters s =
     (if has_active_filters (tbl s) then
        Some (s\<lparr>tbl := handle_clear_filters (tbl s), toasts := toasts s @ [FiltersClearedToast]\<rparr>)
      else None)"
| "table_handle (BulkDelete confirmed) s =
     (if selected_ids (tbl s) = [] then None
      else if \<not> confirmed then Some s
      else call_delete (selected_ids (tbl s)) (s\<lparr>toasts := toasts s @ [DeletingToast (length (selected_ids (tbl s)))]\<rparr>))"
| "table_handle (RowDelete i) s = (if i \<in> visible_ids (tbl s) then call_delete [i] s else None)"
| "table_handle (DeleteDone c r) s = map_option (\<lambda>d. s\<lparr>del := d\<rparr>) (fetch_step (Resolve c r) (del s))"
| "table_handle (DeleteFailed c e) s = map_option (\<lambda>d. s\<lparr>del := d\<rparr>) (fetch_step (Reject c e) (del s))"
| "table_handle (Refresh ts) s =
     (if distinct (map tx_id ts) then with_tbl (\<lambda>st. st\<lparr>rows := ts\<rparr>) s else None)"

definition table_step :: "table_event \<Rightarrow> table_sys \<Rightarrow> table_sys option" where
  "table_step ev s = map_option delete_effect (table_handle ev s)"

fun table_run :: "table_event list \<Rightarrow> table_sys \<Rightarrow> table_sys option" where
  "table_run [] s = Some s"
| "table_run (ev # evs) s = (case table_step ev s of None \<Rightarrow> None | Some s' \<Rightarrow> table_run evs s')"

inductive table_reachable :: "transaction list \<Rightarrow> table_sys \<Rightarrow> bool" for ts0 where
  init: "distinct (map tx_id ts0) \<Longrightarrow> table_reachable ts0 (table_init ts0)"
| step: "table_reachable ts0 s \<Longrightarrow> table_step ev s = Some s' \<Longrightarrow> table_reachable ts0 s'"


subsection \<open>Specification of the visible rows and the invariant\<close>

text \<open>A row passes the three filters of the memo.\<close>

definition row_visible :: "table_state \<Rightarrow> transaction \<Rightarrow> bool" where
  "row_visible st t \<longleftrightarrow>
     (search_term st = [] \<or> search_match (search_term st) t)
     \<and> (type_filter st = [] \<or> tx_type_name (tx_type t) = type_filter st)
     \<and> (recurring_filter st = [] \<or> recurring_match (recurring_filter st) t)"

text \<open>The invariant of the table: the selection has no duplicates, the page is at
  least 1, the rows have distinct ids, the delete hook satisfies its invariant, and the
  effect's dependencies are those of the last render.\<close>

definition table_inv :: "table_sys \<Rightarrow> bool" where
  "table_inv s \<longleftrightarrow>
     distinct (selected_ids (tbl s)) \<and> 1 \<le> current_page (tbl s) \<and> distinct (map tx_id (rows (tbl s)))
     \<and> fetch_inv (del s) \<and> del_deps s = (f_data (hook (del s)), f_loading (hook (del s)))"

text \<open>Rows used by the scenarios below.\<close>

abbreviation table_row :: "txn_id \<Rightarrow> string \<Rightarrow> cents \<Rightarrow> nat \<Rightarrow> transaction" where
  "table_row i d a dd \<equiv> \<lparr>tx_id = i, tx_user = 1, tx_account = 3, tx_type = EXPENSE, tx_amount = a,
     tx_category = ''food'', tx_date = Instant (Date 2024 1 dd) 0, tx_description = Some d,
     tx_is_recurring = False, tx_interval = None, tx_next_date = None\<rparr>"


subsection \<open>Sorting and pagination\<close>


lemma filter_guard: "(if b then filter P xs else xs) = filter (\<lambda>x. \<not> b \<or> P x) xs"
  by (cases b) simp_all

lemma filtered_and_sorted_eq:
  "filtered_and_sorted st = js_sort (table_cmp (sort_field st) (sort_dir st)) (filter (row_visible st) (rows st))"
  unfolding filtered_and_sorted_def Let_def filter_guard filter_filter
  by (simp add: row_visible_def [abs_def])

lemma table_cmp_sign:
  "js_sort (table_cmp field dir) xs =
     (if field = ''date'' then
        (if dir = ''asc'' then js_sort (\<lambda>a b. ccomp (tx_date a) (tx_date b)) xs
         else js_sort (\<lambda>a b. - ccomp (tx_date a) (tx_date b)) xs)
      else if field = ''amount'' then
        (if dir = ''asc'' then js_sort (\<lambda>a b. ccomp (tx_amount a) (tx_amount b)) xs
         else js_sort (\<lambda>a b. - ccomp (tx_amount a) (tx_amount b)) xs)
      else if field = ''category'' then
        (if dir = ''asc'' then js_sort (\<lambda>a b. ccomp (tx_category a) (tx_category b)) xs
         else js_sort (\<lambda>a b. - ccomp (tx_category a) (tx_category b)) xs)
      else js_sort (\<lambda>a b. 0) xs)"
  by (auto simp: table_cmp_def intro!: js_sort_sign_cong)


lemma concat_chunks:
  "concat (map (\<lambda>p. take k (drop (p * k) xs)) [0..<n]) = take (n * k) xs"
proof (induction n)
  case (Suc n)
  have "take (Suc n * k) xs = take (n * k) xs @ take k (drop (n * k) xs)"
    by (metis add.commute mult_Suc take_add)
  then show ?case using Suc by simp
qed simp

text \<open>
  C27. The pages \<open>1 .. totalPages\<close> cut the sorted rows into consecutive
  slices that together give back exactly the rows, each of at most
  \<open>ITEMS_PER_PAGE\<close> rows.
\<close>

theorem pages_partition:
  "concat (map (page_slice xs) [1..<Suc (total_pages (length xs))]) = xs
   \<and> (\<forall>p. length (page_slice xs p) \<le> items_per_page)"
proof -
  have e: "[1..<Suc n] = map Suc [0..<n]" for n :: nat by (simp add: map_Suc_upt)
  have "map (page_slice xs) [1..<Suc (total_pages (length xs))]
        = map (\<lambda>p. take items_per_page (drop (p * items_per_page) xs)) [0..<total_pages (length xs)]"
    unfolding e map_map by (simp add: page_slice_def js_slice_def comp_def)
  moreover have "length xs \<le> total_pages (length xs) * items_per_page"
    by (simp add: total_pages_def items_per_page_def)
  ultimately show ?thesis
    by (simp add: concat_chunks page_slice_def js_slice_def items_per_page_def)
qed


text \<open>
  Clicking the same column header twice restores the sort direction when the table
  is already sorted by that column, and sorts it descending otherwise (the first click
  on a new column sorts ascending).
\<close>

theorem header_sort_toggle:
  assumes "sort_dir st \<in> {''asc'', ''desc''}"
  shows "sort_field (handle_sort f (handle_sort f st)) = f
         \<and> sort_dir (handle_sort f (handle_sort f st)) = (if sort_field st = f then sort_dir st else ''desc'')"
  using assms by (auto simp: handle_sort_def)

theorem header_sort_toggle_witness:
  "sort_field (handle_sort ''date'' (handle_sort ''date'' (tbl (table_init [])))) = ''date''
   \<and> sort_dir (handle_sort ''date'' (handle_sort ''date'' (tbl (table_init [])))) = ''desc''
   \<and> sort_dir (handle_sort ''amount'' (handle_sort ''amount'' (tbl (table_init [])))) = ''desc''"
  using header_sort_toggle [of "tbl (table_init [])" "''date''"]
    header_sort_toggle [of "tbl (table_init [])" "''amount''"]
  by (simp add: table_init_def)

subsection \<open>The invariant and the scenarios of the table\<close>

lemma distinct_paginated:
  "distinct (map tx_id (rows st)) \<Longrightarrow> distinct (map tx_id (paginated st))"
  by (simp add: paginated_def page_slice_def js_slice_def filtered_and_sorted_eq take_map [symmetric]
      drop_map [symmetric] distinct_map_filter)

lemma delete_effect_inv:
  assumes "distinct (selected_ids (tbl s))" "1 \<le> current_page (tbl s)"
    "distinct (map tx_id (rows (tbl s)))" "fetch_inv (del s)"
  shows "table_inv (delete_effect s)"
  using assms by (simp add: delete_effect_def table_inv_def Let_def)

lemma call_delete_inv:
  "call_delete ids s = Some s' \<Longrightarrow> fetch_inv (del s) \<Longrightarrow> tbl s' = tbl s \<and> fetch_inv (del s')"
  by (cases "fetch_step Execute (del s)")
     (auto simp: call_delete_def simp del: fetch_step.simps intro: fetch_inv_step)

lemma table_handle_inv:
  assumes "table_inv s" and "table_handle ev s = Some s'"
  shows "distinct (selected_ids (tbl s')) \<and> 1 \<le> current_page (tbl s')
         \<and> distinct (map tx_id (rows (tbl s'))) \<and> fetch_inv (del s')"
  using assms
proof (cases ev)
  case (BulkDelete b)
  with assms show ?thesis
    using call_delete_inv [of "selected_ids (tbl s)" "s\<lparr>toasts := toasts s @ [DeletingToast (length (selected_ids (tbl s)))]\<rparr>" s']
    by (auto simp: table_inv_def split: if_splits)
next
  case (RowDelete i)
  with assms show ?thesis
    using call_delete_inv [of "[i]" s s'] by (auto simp: table_inv_def split: if_splits)
next
  case (DeleteDone c r)
  with assms show ?thesis
    by (cases "fetch_step (Resolve c r) (del s)")
       (auto simp: table_inv_def simp del: fetch_step.simps intro: fetch_inv_step)
next
  case (DeleteFailed c e)
  with assms show ?thesis
    by (cases "fetch_step (Reject c e) (del s)")
       (auto simp: table_inv_def simp del: fetch_step.simps intro: fetch_inv_step)
qed (auto simp: table_inv_def with_tbl_def set_search_def set_type_filter_def set_recurring_filter_def
       handle_sort_def handle_select_def handle_select_all_def handle_page_change_def
       handle_clear_filters_def distinct_paginated Let_def
     split: if_splits)

lemma table_inv_step: "table_inv s \<Longrightarrow> table_step ev s = Some s' \<Longrightarrow> table_inv s'"
  using table_handle_inv [of s ev] by (auto simp: table_step_def intro!: delete_effect_inv)

lemma table_inv_init: "distinct (map tx_id ts) \<Longrightarrow> table_inv (table_init ts)"
  unfolding table_inv_def table_init_def
  by (simp add: fetch_inv_init) (simp add: fetch_sys_init_def fetch_init_def)

lemma table_reachable_inv: "table_reachable ts0 s \<Longrightarrow> table_inv s"
  by (induction rule: table_reachable.induct) (auto intro: table_inv_init table_inv_step)

lemma table_run_reachable:
  "table_reachable ts0 s \<Longrightarrow> table_run evs s = Some s' \<Longrightarrow> table_reachable ts0 s'"
  by (induction evs arbitrary: s) (auto split: option.splits intro: table_reachable.step)

lemmas table_eval =
  table_init_def table_step_def with_tbl_def visible_ids_def paginated_def page_slice_def
  js_slice_def filtered_and_sorted_def search_match_def js_includes_def js_lower_def js_lower_char_def
  table_cmp_def js_sort_def handle_select_def set_search_def delete_effect_def header_checked_def
  call_delete_def items_per_page_def fetch_sys_init_def fetch_init_def fetch_start_def
  fetch_resolve_def fetch_reject_def handle_page_change_def total_pages_def calendar_simps

text \<open>
  C22. Whatever the user does, the selection has no duplicate ids, the current page is
  at least 1, the rows of a page have distinct ids, and the delete hook shows
  \<open>loading\<close> only while a deletion is in flight.
\<close>

theorem table_invariant:
  assumes "table_reachable ts0 s"
  shows "distinct (selected_ids (tbl s)) \<and> 1 \<le> current_page (tbl s)
         \<and> distinct (map tx_id (paginated (tbl s)))
         \<and> (f_loading (hook (del s)) \<longrightarrow> pending (del s) \<noteq> [])"
  using table_reachable_inv [OF assms] distinct_paginated [of "tbl s"]
  by (simp add: table_inv_def fetch_inv_def)

theorem table_invariant_witness:
  "\<exists>s. table_run [RowCheck 1, HeaderCheck] (table_init [table_row 1 ''Coffee'' 450 10, table_row 2 ''Rent'' 90000 1]) = Some s
      \<and> table_reachable [table_row 1 ''Coffee'' 450 10, table_row 2 ''Rent'' 90000 1] s
      \<and> distinct (selected_ids (tbl s)) \<and> 1 \<le> current_page (tbl s)
      \<and> distinct (map tx_id (paginated (tbl s)))
      \<and> (f_loading (hook (del s)) \<longrightarrow> pending (del s) \<noteq> [])"
proof -
  define rows0 where "rows0 = [table_row 1 ''Coffee'' 450 10, table_row 2 ''Rent'' 90000 1]"
  obtain s where run: "table_run [RowCheck 1, HeaderCheck] (table_init rows0) = Some s"
    by (simp add: rows0_def table_eval handle_select_all_def)
  have r: "table_reachable rows0 s"
    using table_run_reachable [OF table_reachable.init run] by (simp add: rows0_def)
  show ?thesis using run r table_invariant [OF r] by (auto simp: rows0_def)
qed



text \<open>
  After a deletion that removes the last row of the last page, the server refresh
  leaves \<open>currentPage\<close> past the last page: the table shows no rows
  although ten match, and the pagination controls are gone (every page event is
  refused), until a filter is changed.
\<close>

lemma page_past_end:
  "\<exists>s. table_run [NextPage, RowDelete 1, DeleteDone 0 True,
                    Refresh (map (\<lambda>i. table_row i ''Lunch'' 1000 i) [2..<12])]
           (table_init (map (\<lambda>i. table_row i ''Lunch'' 1000 i) [1..<12])) = Some s
      \<and> current_page (tbl s) = 2 \<and> length (filtered_and_sorted (tbl s)) = 10 \<and> paginated (tbl s) = []
      \<and> table_step PrevPage s = None \<and> table_step NextPage s = None
      \<and> (\<forall>p. table_step (PageButton p) s = None)"
  by (simp add: table_eval upt_rec Let_def)

text \<open>
  C18. After one successful deletion, a later bulk deletion that fails still clears the
  selection and shows "Transactions deleted successfully": the effect sees the stale
  \<open>data\<close> of the earlier call once \<open>loading\<close> drops.
\<close>

theorem failed_delete_reports_success:
  assumes "table_reachable ts0 s" and "f_data (hook (del s)) \<noteq> None"
    and "pending (del s) = []" and "selected_ids (tbl s) \<noteq> []"
  shows "\<exists>s'. table_run [BulkDelete True, DeleteFailed (issued (del s)) e] s = Some s'
           \<and> selected_ids (tbl s') = [] \<and> f_error (hook (del s')) = Some e
           \<and> toasts s' = toasts s @ [DeletingToast (length (selected_ids (tbl s))), DeletedToast]"
proof -
  have inv: "table_inv s" using assms(1) by (rule table_reachable_inv)
  then have deps: "del_deps s = (f_data (hook (del s)), False)"
    using assms(3) by (simp add: table_inv_def fetch_inv_def)
  then show ?thesis
    using assms(2,4)
    by (simp add: table_step_def call_delete_def delete_effect_def fetch_start_def fetch_reject_def Let_def)
qed

theorem failed_delete_reports_success_witness:
  "\<exists>s s'. table_run [RowCheck 1, BulkDelete True, DeleteDone 0 True, Refresh [table_row 2 ''Rent'' 90000 1],
                      RowCheck 2]
             (table_init [table_row 1 ''Coffee'' 450 10, table_row 2 ''Rent'' 90000 1]) = Some s
      \<and> table_run [BulkDelete True, DeleteFailed 1 ''network''] s = Some s'
      \<and> selected_ids (tbl s') = [] \<and> toasts s' = [DeletingToast 1, DeletedToast, DeletingToast 1, DeletedToast]"
proof -
  define rows0 where "rows0 = [table_row 1 ''Coffee'' 450 10, table_row 2 ''Rent'' 90000 1]"
  obtain s where run: "table_run [RowCheck 1, BulkDelete True, DeleteDone 0 True, Refresh [table_row 2 ''Rent'' 90000 1],
                      RowCheck 2] (table_init rows0) = Some s"
    and st: "f_data (hook (del s)) = Some (0, True)" "pending (del s) = []" "issued (del s) = 1"
      "selected_ids (tbl s) = [2]" "toasts s = [DeletingToast 1, DeletedToast]"
    by (simp add: rows0_def table_eval)
  have "table_reachable rows0 s"
    using table_run_reachable [OF table_reachable.init run] by (simp add: rows0_def)
  from failed_delete_reports_success [OF this, of "''network''"] st
  show ?thesis using run by (auto simp: rows0_def)
qed




end
