(* ===== verification/Js_Number.thy ===== *)
theory Js_Number
  imports Budget
begin

text \<open>
  Conversions between JavaScript numbers and strings as the components use them:
  \<open>parseFloat\<close> (the budget editor's input, \<open>budget-progress.jsx\<close>), \<open>toString\<close> of an
  amount (the editor's initial text \<open>initialBudget.amount.toString()\<close>), and
  \<open>toFixed(f)\<close> (every amount and percentage on screen).  Numbers are the exact
  rationals of \<open>jsnum\<close>; amounts are cents, whose decimal strings have at most two
  places, so the shortest round-tripping decimal that \<open>toString\<close> prints is the
  amount with its trailing zeros removed.  Exponential notation of \<open>toString\<close> and
  \<open>toFixed\<close> (magnitudes of \<open>10^21\<close> and more) is not modelled.
\<close>

subsection \<open>Decimal digits\<close>

definition digit_chars :: string where
  "digit_chars = ''0123456789''"

definition digit_char :: "nat \<Rightarrow> char" where
  "digit_char n = digit_chars ! (n mod 10)"

definition digit_val :: "char \<Rightarrow> nat option" where
  "digit_val c = map_of (zip digit_chars [0..<10]) c"

definition is_digit :: "char \<Rightarrow> bool" where
  "is_digit c \<longleftrightarrow> digit_val c \<noteq> None"

fun nat_str :: "nat \<Rightarrow> string" where
  "nat_str n = (if n < 10 then [digit_char n] else nat_str (n div 10) @ [digit_char (n mod 10)])"

declare nat_str.simps [simp del]

definition digits_val :: "string \<Rightarrow> nat" where
  "digits_val ds = foldl (\<lambda>a c. 10 * a + the (digit_val c)) 0 ds"

text \<open>\<open>n\<close> written with exactly \<open>k\<close> digits (leading zeros), as the fraction of
  \<open>toFixed\<close>.\<close>

definition pad_digits :: "nat \<Rightarrow> nat \<Rightarrow> string" where
  "pad_digits k n = map (\<lambda>i. digit_char (n div 10 ^ (k - 1 - i))) [0..<k]"

subsection \<open>\<open>parseFloat\<close>\<close>

text \<open>The white space \<open>parseFloat\<close> skips (the ASCII part of \<open>StrWhiteSpaceChar\<close>).\<close>

definition js_space :: "char \<Rightarrow> bool" where
  "js_space c \<longleftrightarrow> c \<in> set '' \<newline>'' \<or> c = CHR 0x09 \<or> c = CHR 0x0B \<or> c = CHR 0x0C \<or> c = CHR 0x0D"

definition pow10 :: "int \<Rightarrow> rat" where
  "pow10 e = (if 0 \<le> e then 10 ^ nat e else 1 / 10 ^ nat (- e))"

text \<open>The exponent part \<open>e[+-]digits\<close> if one follows, else 0.\<close>

definition parse_exponent :: "string \<Rightarrow> int" where
  "parse_exponent r =
     (case r of
        c # r' \<Rightarrow>
          (if c = CHR ''e'' \<or> c = CHR ''E'' then
             (let (sg, r'') = (case r' of d # r2 \<Rightarrow> (if d = CHR ''-'' then (-1, r2) else if d = CHR ''+'' then (1, r2) else (1, r'))
                                          | [] \<Rightarrow> (1, r'));
                  ds = takeWhile is_digit r''
              in if ds = [] then 0 else sg * int (digits_val ds))
           else 0)
      | [] \<Rightarrow> 0)"

text \<open>The digits, the optional fraction and the optional exponent at the start of
  a string, with the sign already read; \<open>NaN\<close> when there are no digits.\<close>

definition parse_decimal :: "rat \<Rightarrow> string \<Rightarrow> jsnum" where
  "parse_decimal sg s2 =
     (let ip = takeWhile is_digit s2; r1 = dropWhile is_digit s2;
          fp = (case r1 of c # r \<Rightarrow> (if c = CHR ''.'' then takeWhile is_digit r else []) | [] \<Rightarrow> []);
          r2 = (case r1 of c # r \<Rightarrow> (if c = CHR ''.'' then dropWhile is_digit r else r1) | [] \<Rightarrow> r1)
      in if ip = [] \<and> fp = [] then NaN
         else Num (sg * (of_nat (digits_val ip) + of_nat (digits_val fp) / 10 ^ length fp)
                   * pow10 (parse_exponent r2)))"

text \<open>\<open>parseFloat\<close>: the longest prefix of the trimmed string that is a decimal
  literal, or \<open>Infinity\<close>, after an optional sign.\<close>

definition parse_float :: "string \<Rightarrow> jsnum" where
  "parse_float s =
     (let s1 = dropWhile js_space s;
          (sg, s2) = (case s1 of c # r \<Rightarrow> (if c = CHR ''-'' then (-1 :: rat, r) else if c = CHR ''+'' then (1, r) else (1, s1))
                               | [] \<Rightarrow> (1, s1))
      in if take 8 s2 = ''Infinity'' then (if sg < 0 then NegInf else PosInf) else parse_decimal sg s2)"

subsection \<open>\<open>toString\<close> and \<open>toFixed\<close>\<close>

text \<open>\<open>String(amount)\<close> for an amount of \<open>c\<close> cents.\<close>

definition cents_str :: "cents \<Rightarrow> string" where
  "cents_str c =
     (let a = nat \<bar>c\<bar>; f = a mod 100
      in (if c < 0 then ''-'' else []) @ nat_str (a div 100)
         @ (if f = 0 then [] else if f mod 10 = 0 then [CHR ''.'', digit_char (f div 10)]
            else [CHR ''.'', digit_char (f div 10), digit_char f]))"

text \<open>\<open>x.toFixed(k)\<close>: the integer \<open>n\<close> nearest to \<open>|x| * 10^k\<close>, the larger one on a
  tie, printed with \<open>k\<close> decimals; a negative \<open>x\<close> keeps its sign even when \<open>n = 0\<close>.\<close>

definition to_fixed :: "nat \<Rightarrow> rat \<Rightarrow> string" where
  "to_fixed k x =
     (let n = nat \<lfloor>\<bar>x\<bar> * 10 ^ k + 1 / 2\<rfloor>
      in (if x < 0 then ''-'' else []) @ nat_str (n div 10 ^ k)
         @ (if k = 0 then [] else CHR ''.'' # pad_digits k (n mod 10 ^ k)))"

fun js_to_fixed :: "nat \<Rightarrow> jsnum \<Rightarrow> string" where
  "js_to_fixed k (Num x) = to_fixed k x"
| "js_to_fixed k PosInf = ''Infinity''"
| "js_to_fixed k NegInf = ''-Infinity''"
| "js_to_fixed k NaN = ''NaN''"

subsection \<open>Properties of the conversions\<close>

lemma digit_val_nth: "k < 10 \<Longrightarrow> digit_val (digit_chars ! k) = Some k"
proof -
  assume "k < 10"
  then have "k \<in> {0, 1, 2, 3, 4, 5, 6, 7, 8, 9}" by auto
  then show ?thesis by (auto simp: digit_val_def digit_chars_def upt_rec)
qed

lemma digit_val_digit_char [simp]: "digit_val (digit_char n) = Some (n mod 10)"
  by (simp add: digit_char_def digit_val_nth)

lemma is_digit_digit_char [simp]: "is_digit (digit_char n)"
  by (simp add: is_digit_def)

lemma not_digit_specials [simp]:
  "\<not> is_digit CHR ''.''" "\<not> is_digit CHR ''-''" "\<not> is_digit CHR ''+''"
  by (simp_all add: is_digit_def digit_val_def digit_chars_def)

lemma digit_char_not_specials [simp]:
  "digit_char n \<noteq> CHR ''-''" "digit_char n \<noteq> CHR ''+''" "digit_char n \<noteq> CHR ''I''"
  "\<not> js_space (digit_char n)"
  using is_digit_digit_char [of n] not_digit_specials
  by (auto simp: is_digit_def digit_val_def digit_chars_def js_space_def simp del: is_digit_digit_char)

lemma digits_val_Nil [simp]: "digits_val [] = 0"
  by (simp add: digits_val_def)

lemma digits_val_snoc [simp]: "digits_val (ds @ [c]) = 10 * digits_val ds + the (digit_val c)"
  by (simp add: digits_val_def)

lemma nat_str_digits: "\<forall>c \<in> set (nat_str n). is_digit c"
  by (induction n rule: nat_str.induct) (subst nat_str.simps, auto)

lemma nat_str_Cons: "\<exists>c cs. nat_str n = c # cs \<and> (\<exists>k. c = digit_char k)"
proof (induction n rule: nat_str.induct)
  case (1 n)
  show ?case
  proof (cases "n < 10")
    case True then show ?thesis by (subst nat_str.simps) auto
  next
    case False then show ?thesis using 1 by (subst nat_str.simps) auto
  qed
qed

lemma digits_val_nat_str [simp]: "digits_val (nat_str n) = n"
  by (induction n rule: nat_str.induct) (subst nat_str.simps, simp add: digits_val_def)

lemma takeWhile_digits_append:
  "\<forall>c \<in> set ds. is_digit c \<Longrightarrow> takeWhile is_digit (ds @ r) = ds @ takeWhile is_digit r"
  by (induction ds) auto

lemma dropWhile_digits_append:
  "\<forall>c \<in> set ds. is_digit c \<Longrightarrow> dropWhile is_digit (ds @ r) = dropWhile is_digit r"
  by (induction ds) auto

lemma takeWhile_all_digits: "\<forall>c \<in> set ds. is_digit c \<Longrightarrow> takeWhile is_digit ds = ds"
  by (induction ds) auto

lemma dropWhile_all_digits: "\<forall>c \<in> set ds. is_digit c \<Longrightarrow> dropWhile is_digit ds = []"
  by (induction ds) auto

lemma parse_decimal_nat_str:
  assumes "\<forall>c \<in> set fp. is_digit c"
  shows "parse_decimal sg (nat_str q @ (if fp = [] then [] else CHR ''.'' # fp))
         = Num (sg * (of_nat q + of_nat (digits_val fp) / 10 ^ length fp))"
proof -
  let ?tail = "if fp = [] then [] else CHR ''.'' # fp"
  have tw: "takeWhile is_digit (nat_str q @ ?tail) = nat_str q"
    using takeWhile_digits_append [OF nat_str_digits [of q], of ?tail] by auto
  have dw: "dropWhile is_digit (nat_str q @ ?tail) = ?tail"
    using dropWhile_digits_append [OF nat_str_digits [of q], of ?tail] by auto
  have ne: "nat_str q \<noteq> []" using nat_str_Cons [of q] by auto
  have fp: "takeWhile is_digit fp = fp" "dropWhile is_digit fp = []"
    using assms by (simp_all add: takeWhile_all_digits dropWhile_all_digits)
  show ?thesis
    unfolding parse_decimal_def Let_def tw dw
    using ne fp by (cases fp) (simp_all add: parse_exponent_def pow10_def)
qed

text \<open>\<open>parseFloat\<close> of a digit string, optionally signed and followed by a fraction.\<close>

lemma parse_float_decimal:
  assumes "\<forall>c \<in> set fp. is_digit c"
  shows "parse_float (nat_str q @ (if fp = [] then [] else CHR ''.'' # fp))
           = Num (of_nat q + of_nat (digits_val fp) / 10 ^ length fp)"
    and "parse_float (CHR ''-'' # nat_str q @ (if fp = [] then [] else CHR ''.'' # fp))
           = Num (- (of_nat q + of_nat (digits_val fp) / 10 ^ length fp))"
proof -
  let ?s = "nat_str q @ (if fp = [] then [] else CHR ''.'' # fp)"
  obtain c cs k where q: "nat_str q = c # cs" and c: "c = digit_char k" using nat_str_Cons by blast
  have s1: "dropWhile js_space ?s = ?s" by (simp add: q c)
  have ca: "(case ?s of c # r \<Rightarrow> (if c = CHR ''-'' then (-1 :: rat, r) else if c = CHR ''+'' then (1, r) else (1, ?s))
                       | [] \<Rightarrow> (1, ?s)) = (1, ?s)" by (simp add: q c)
  have ni: "take 8 ?s \<noteq> ''Infinity''" by (simp add: q c)
  show "parse_float ?s = Num (of_nat q + of_nat (digits_val fp) / 10 ^ length fp)"
    unfolding parse_float_def Let_def s1 ca using ni parse_decimal_nat_str [OF assms, of 1 q] by simp
  have s1': "dropWhile js_space (CHR ''-'' # ?s) = CHR ''-'' # ?s" by (simp add: js_space_def)
  show "parse_float (CHR ''-'' # ?s) = Num (- (of_nat q + of_nat (digits_val fp) / 10 ^ length fp))"
    unfolding parse_float_def Let_def s1' using ni parse_decimal_nat_str [OF assms, of "-1" q] by simp
qed

lemma cents_str_shape:
  "\<exists>fp. (\<forall>c \<in> set fp. is_digit c)
        \<and> cents_str c = (if c < 0 then ''-'' else []) @ nat_str (nat \<bar>c\<bar> div 100) @ (if fp = [] then [] else CHR ''.'' # fp)
        \<and> of_nat (digits_val fp) / 10 ^ length fp = (of_nat (nat \<bar>c\<bar> mod 100) / 100 :: rat)"
proof -
  let ?f = "nat \<bar>c\<bar> mod 100"
  have f10: "?f div 10 < 10" by simp
  consider "?f = 0" | "?f \<noteq> 0" "?f mod 10 = 0" | "?f mod 10 \<noteq> 0" by blast
  then show ?thesis
  proof cases
    case 1
    then show ?thesis by (intro exI [of _ "[]"]) (simp add: cents_str_def Let_def)
  next
    case 2
    obtain d where d: "?f = 10 * d" using 2(2) by (metis dvd_def dvd_eq_mod_eq_0)
    then have v: "of_nat (?f div 10) / 10 = (of_nat ?f / 100 :: rat)" by simp
    have cs: "cents_str c = (if c < 0 then ''-'' else []) @ nat_str (nat \<bar>c\<bar> div 100)
                            @ [CHR ''.'', digit_char (?f div 10)]"
      using 2 by (simp add: cents_str_def Let_def)
    have dv: "digits_val [digit_char (?f div 10)] = ?f div 10"
      using f10 by (simp add: digits_val_def)
    show ?thesis
      by (rule exI [of _ "[digit_char (?f div 10)]"]) (simp add: cs dv v)
  next
    case 3
    have nz: "?f \<noteq> 0" using 3 by auto
    have cs: "cents_str c = (if c < 0 then ''-'' else []) @ nat_str (nat \<bar>c\<bar> div 100)
                            @ [CHR ''.'', digit_char (?f div 10), digit_char ?f]"
      using 3 nz by (simp add: cents_str_def Let_def)
    have "digits_val [digit_char (?f div 10), digit_char ?f] = 10 * (?f div 10) + ?f mod 10"
      using f10 digits_val_snoc [of "[digit_char (?f div 10)]" "digit_char ?f"] by (simp add: digits_val_def)
    then have dv: "digits_val [digit_char (?f div 10), digit_char ?f] = ?f" by simp
    show ?thesis
      by (rule exI [of _ "[digit_char (?f div 10), digit_char ?f]"]) (simp add: cs dv)
  qed
qed

text \<open>Printing an amount with \<open>toString\<close> and reading it back with \<open>parseFloat\<close>
  returns the amount exactly, for every amount in cents (negative, zero, with or
  without a fractional part).\<close>

lemma parse_float_cents_str: "parse_float (cents_str c) = Num (of_int c / 100)"
proof -
  obtain fp where d: "\<forall>c \<in> set fp. is_digit c"
    and s: "cents_str c = (if c < 0 then ''-'' else []) @ nat_str (nat \<bar>c\<bar> div 100) @ (if fp = [] then [] else CHR ''.'' # fp)"
    and v: "of_nat (digits_val fp) / 10 ^ length fp = (of_nat (nat \<bar>c\<bar> mod 100) / 100 :: rat)"
    using cents_str_shape by blast
  let ?q = "nat \<bar>c\<bar> div 100" and ?t = "if fp = [] then [] else CHR ''.'' # fp"
  have n: "?q * 100 + nat \<bar>c\<bar> mod 100 = nat \<bar>c\<bar>" by (rule div_mult_mod_eq)
  then have "rat_of_nat ?q * 100 + rat_of_nat (nat \<bar>c\<bar> mod 100) = rat_of_nat (nat \<bar>c\<bar>)"
    by (metis of_nat_add of_nat_mult of_nat_numeral)
  then have a: "of_nat ?q + of_nat (digits_val fp) / 10 ^ length fp = (of_int \<bar>c\<bar> / 100 :: rat)"
    unfolding v by (simp add: field_simps)
  show ?thesis
  proof (cases "c < 0")
    case True
    then have "cents_str c = CHR ''-'' # nat_str ?q @ ?t" using s by simp
    moreover have "- (of_int \<bar>c\<bar> / 100) = (of_int c / 100 :: rat)" using True by simp
    ultimately show ?thesis using parse_float_decimal(2) [OF d, of ?q] a by simp
  next
    case False
    then have "cents_str c = nat_str ?q @ ?t" using s by simp
    moreover have "of_int \<bar>c\<bar> / 100 = (of_int c / 100 :: rat)" using False by simp
    ultimately show ?thesis using parse_float_decimal(1) [OF d, of ?q] a by simp
  qed
qed

lemma pad_digits_Suc: "pad_digits (Suc k) n = pad_digits k (n div 10) @ [digit_char n]"
proof -
  have "map (\<lambda>i. digit_char (n div 10 ^ (Suc k - 1 - i))) [0..<k]
        = map (\<lambda>i. digit_char (n div 10 div 10 ^ (k - 1 - i))) [0..<k]"
  proof (rule map_cong [OF refl])
    fix i assume "i \<in> set [0..<k]"
    then have "Suc k - 1 - i = Suc (k - 1 - i)" by auto
    then show "digit_char (n div 10 ^ (Suc k - 1 - i)) = digit_char (n div 10 div 10 ^ (k - 1 - i))"
      by (simp add: div_mult2_eq)
  qed
  then show ?thesis by (simp add: pad_digits_def)
qed

lemma pad_digits_props:
  "length (pad_digits k n) = k \<and> (\<forall>c \<in> set (pad_digits k n). is_digit c)
   \<and> digits_val (pad_digits k n) = n mod 10 ^ k"
proof (induction k arbitrary: n)
  case 0
  then show ?case by (simp add: pad_digits_def)
next
  case (Suc k)
  have "n mod 10 ^ Suc k = 10 * (n div 10 mod 10 ^ k) + n mod 10"
    by (simp add: mod_mult2_eq)
  then show ?case using Suc [of "n div 10"] by (simp add: pad_digits_Suc)
qed

lemma to_fixed_shape:
  "\<exists>fp. (\<forall>c \<in> set fp. is_digit c)
        \<and> to_fixed k x = (if x < 0 then ''-'' else []) @ nat_str (nat \<lfloor>\<bar>x\<bar> * 10 ^ k + 1 / 2\<rfloor> div 10 ^ k)
                          @ (if fp = [] then [] else CHR ''.'' # fp)
        \<and> of_nat (digits_val fp) / 10 ^ length fp = (of_nat (nat \<lfloor>\<bar>x\<bar> * 10 ^ k + 1 / 2\<rfloor> mod 10 ^ k) / 10 ^ k :: rat)"
proof (cases "k = 0")
  case True
  then show ?thesis by (intro exI [of _ "[]"]) (simp add: to_fixed_def Let_def)
next
  case False
  let ?fp = "pad_digits k (nat \<lfloor>\<bar>x\<bar> * 10 ^ k + 1 / 2\<rfloor> mod 10 ^ k)"
  have p: "length ?fp = k" "\<forall>c \<in> set ?fp. is_digit c"
    "digits_val ?fp = nat \<lfloor>\<bar>x\<bar> * 10 ^ k + 1 / 2\<rfloor> mod 10 ^ k"
    using pad_digits_props [of k] by simp_all
  have ne: "?fp \<noteq> []" using p(1) False by auto
  show ?thesis
    by (rule exI [of _ ?fp]) (simp add: p ne False to_fixed_def Let_def)
qed

text \<open>\<open>|x| * 10^k\<close> rounded to the nearest integer, ties up, is within one half.\<close>

lemma round_half_up_bound:
  assumes "0 \<le> (z :: rat)"
  shows "\<bar>of_nat (nat \<lfloor>z + 1 / 2\<rfloor>) - z\<bar> \<le> 1 / 2"
proof -
  have "0 \<le> \<lfloor>z + 1 / 2\<rfloor>" using assms by simp
  then have n: "(of_nat (nat \<lfloor>z + 1 / 2\<rfloor>) :: rat) = of_int \<lfloor>z + 1 / 2\<rfloor>" by simp
  have a: "of_int \<lfloor>z + 1 / 2\<rfloor> \<le> z + 1 / 2" and b: "z + 1 / 2 < of_int (\<lfloor>z + 1 / 2\<rfloor> + 1)"
    using floor_correct [of "z + 1 / 2"] by blast+
  have "- (1 / 2) \<le> of_int \<lfloor>z + 1 / 2\<rfloor> - z" using b by linarith
  moreover have "of_int \<lfloor>z + 1 / 2\<rfloor> - z \<le> 1 / 2" using a by linarith
  ultimately show ?thesis unfolding n abs_le_iff by simp
qed

lemma parse_to_fixed:
  "parse_float (to_fixed k x)
     = Num ((if x < 0 then -1 else 1) * (of_nat (nat \<lfloor>\<bar>x\<bar> * 10 ^ k + 1 / 2\<rfloor>) / 10 ^ k))"
proof -
  let ?n = "nat \<lfloor>\<bar>x\<bar> * 10 ^ k + 1 / 2\<rfloor>"
  obtain fp where d: "\<forall>c \<in> set fp. is_digit c"
    and s: "to_fixed k x = (if x < 0 then ''-'' else []) @ nat_str (?n div 10 ^ k) @ (if fp = [] then [] else CHR ''.'' # fp)"
    and v: "of_nat (digits_val fp) / 10 ^ length fp = (of_nat (?n mod 10 ^ k) / 10 ^ k :: rat)"
    using to_fixed_shape by blast
  have "of_nat (?n div 10 ^ k) * 10 ^ k + of_nat (?n mod 10 ^ k) = (of_nat ?n :: rat)"
    by (metis of_nat_add of_nat_mult of_nat_numeral of_nat_power div_mult_mod_eq)
  then have val: "of_nat (?n div 10 ^ k) + of_nat (digits_val fp) / 10 ^ length fp = (of_nat ?n / 10 ^ k :: rat)"
    unfolding v by (simp add: field_simps)
  show ?thesis
  proof (cases "x < 0")
    case True
    then have "to_fixed k x = CHR ''-'' # nat_str (?n div 10 ^ k) @ (if fp = [] then [] else CHR ''.'' # fp)"
      using s by simp
    then show ?thesis using True parse_float_decimal(2) [OF d, of "?n div 10 ^ k"] val by simp
  next
    case False
    then have "to_fixed k x = nat_str (?n div 10 ^ k) @ (if fp = [] then [] else CHR ''.'' # fp)"
      using s by simp
    then show ?thesis using False parse_float_decimal(1) [OF d, of "?n div 10 ^ k"] val by simp
  qed
qed

text \<open>Every number shown with \<open>toFixed(k)\<close> is a decimal literal that \<open>parseFloat\<close>
  reads back as a value within half a unit of the last printed place of the exact
  value (ties rounded up, a negative value keeping its sign).\<close>

lemma parse_to_fixed_bound:
  "\<exists>y. parse_float (to_fixed k x) = Num y \<and> \<bar>y - x\<bar> \<le> 1 / (2 * 10 ^ k)"
proof -
  let ?n = "nat \<lfloor>\<bar>x\<bar> * 10 ^ k + 1 / 2\<rfloor>"
  have b: "\<bar>of_nat ?n - \<bar>x\<bar> * 10 ^ k\<bar> \<le> 1 / 2"
    by (rule round_half_up_bound) simp
  have "\<bar>of_nat ?n / 10 ^ k - \<bar>x\<bar>\<bar> = \<bar>of_nat ?n - \<bar>x\<bar> * 10 ^ k\<bar> / (10 ^ k :: rat)"
    by (simp add: field_simps)
  also have "\<dots> \<le> 1 / (2 * 10 ^ k)" using b by (simp add: field_simps)
  finally have bd: "\<bar>of_nat ?n / 10 ^ k - \<bar>x\<bar>\<bar> \<le> (1 / (2 * 10 ^ k) :: rat)" .
  have "\<bar>(if x < 0 then -1 else 1) * (of_nat ?n / 10 ^ k) - x\<bar> = \<bar>of_nat ?n / 10 ^ k - \<bar>x\<bar>\<bar>"
    by (cases "x < 0") simp_all
  then show ?thesis using parse_to_fixed [of k x] bd by auto
qed

text \<open>An amount in cents printed with two decimals reads back exactly.\<close>

lemma parse_to_fixed_cents: "parse_float (to_fixed 2 (of_int c / 100)) = Num (of_int c / 100)"
proof -
  have e: "\<bar>of_int c / 100\<bar> * 10 ^ 2 + 1 / 2 = (of_int \<bar>c\<bar> + 1 / 2 :: rat)" by simp
  have "\<lfloor>\<bar>of_int c / 100 :: rat\<bar> * 10 ^ 2 + 1 / 2\<rfloor> = \<bar>c\<bar>"
    unfolding e by (rule floor_unique) simp_all
  then have "(of_nat (nat \<lfloor>\<bar>of_int c / 100 :: rat\<bar> * 10 ^ 2 + 1 / 2\<rfloor>) :: rat) = of_int \<bar>c\<bar>" by simp
  then show ?thesis unfolding parse_to_fixed by (cases "c < 0") simp_all
qed

lemma to_fixed_neg: "0 < x \<Longrightarrow> to_fixed k (- x) = CHR ''-'' # to_fixed k x"
  by (simp add: to_fixed_def Let_def)

end
