(* ===== verification/Table_View.thy ===== *)
theory Table_View
  imports Transaction_Table Js_Number Account_View
begin

text \<open>
  What \<open>TransactionTable\<close> (\<open>src/app/(main)/account/_components/transaction-table.jsx\<close>)
  renders from its state: the card header with the row count and the bulk delete
  button, the overlay while a deletion runs, the header checkbox and the sort marks of
  the three sortable columns, the empty state with its advice, and one row per
  transaction of the page with its checkbox, amount, recurrence badge and the target
  of its Edit action.  Dates are kept as instants (their \<open>date-fns\<close> formatting is
  not modelled) and category colours come from \<open>@/data/categories\<close>, which is not under
  \<open>src/\<close>.
\<close>

datatype sort_mark = SortUp | SortDown

text \<open>\<open>RECURRING_INTERVALS\<close>: the badge text of an interval.\<close>

fun interval_label :: "interval \<Rightarrow> string" where
  "interval_label DAILY = ''Daily''"
| "interval_label WEEKLY = ''Weekly''"
| "interval_label MONTHLY = ''Monthly''"
| "interval_label YEARLY = ''Yearly''"

text \<open>A recurring row shows \<open>RECURRING_INTERVALS[recurringInterval]\<close> (nothing for a
  missing interval) and \<open>new Date(nextRecurringDate)\<close> in its tooltip (the epoch for a
  missing date); a one-time row shows the "One-time" badge.\<close>

datatype recurrence_badge = RecurringBadge string instant | OneTimeBadge

record row_view =
  rv_id :: txn_id
  rv_checked :: bool
  rv_date :: instant
  rv_description :: string
  rv_category :: string
  rv_amount :: string
  rv_expense_style :: bool
  rv_badge :: recurrence_badge
  rv_edit_href :: string

definition row_view :: "txn_id list \<Rightarrow> transaction \<Rightarrow> row_view" where
  "row_view sel t =
     \<lparr>rv_id = tx_id t, rv_checked = tx_id t \<in> set sel, rv_date = tx_date t,
      rv_description = (case tx_description t of None \<Rightarrow> ''Untitled Transaction''
                        | Some d \<Rightarrow> if d = [] then ''Untitled Transaction'' else d),
      rv_category = tx_category t,
      rv_amount = (if tx_type t = EXPENSE then ''-'' else ''+'') @ CHR ''$'' # to_fixed 2 (of_int (tx_amount t) / 100),
      rv_expense_style = (tx_type t = EXPENSE),
      rv_badge = (if tx_is_recurring t
                  then RecurringBadge (case tx_interval t of None \<Rightarrow> [] | Some iv \<Rightarrow> interval_label iv)
                         (case tx_next_date t of None \<Rightarrow> epoch | Some n \<Rightarrow> n)
                  else OneTimeBadge),
      rv_edit_href = ''/transaction/create?edit='' @ nat_str (tx_id t)\<rparr>"

record table_view =
  tv_count_text :: string
  tv_delete_button :: "nat option"
  tv_overlay :: bool
  tv_header_checked :: bool
  tv_marks :: "(string \<times> sort_mark option) list"
  tv_body :: "string + row_view list"

text \<open>The sort mark of a column header: shown on the sorted column, up when ascending.\<close>

definition sort_mark_of :: "table_state \<Rightarrow> string \<Rightarrow> sort_mark option" where
  "sort_mark_of st f = (if sort_field st = f then Some (if sort_dir st = ''asc'' then SortUp else SortDown) else None)"

definition table_view :: "table_sys \<Rightarrow> table_view" where
  "table_view s =
     (let st = tbl s; pg = paginated st
      in \<lparr>tv_count_text = nat_str (length (filtered_and_sorted st)) @ '' transactions found'',
          tv_delete_button = (if selected_ids st \<noteq> [] then Some (length (selected_ids st)) else None),
          tv_overlay = f_loading (hook (del s)),
          tv_header_checked = header_checked st,
          tv_marks = map (\<lambda>f. (f, sort_mark_of st f)) [''date'', ''category'', ''amount''],
          tv_body = (if pg = [] then Inl (if has_active_filters st then ''Try adjusting your filters''
                                         else ''Add some transactions to get started'')
                     else Inr (map (row_view (selected_ids st)) pg))\<rparr>)"

subsection \<open>Properties of the rendered table\<close>


end
