(* ===== verification/Dashboard_Page.thy ===== *)
theory Dashboard_Page
  imports Budget Account_View Transaction_Table
begin

text \<open>
  The two server pages that compose the components: \<open>DashboardPage\<close>
  (\<open>src/app/(main)/dashboard/page.jsx\<close>) with the props it passes to
  \<open>BudgetProgress\<close> and \<open>DashboardOverview\<close> (\<open>transaction-overview.jsx\<close>: the
  account selector and the coloured pie slices), and \<open>AccountPage\<close>
  (\<open>src/app/(main)/account/[id]/page.jsx\<close>) with its statistics, its recent list, and
  the props of the chart and of the table.  The server actions that read the store
  for these pages (\<open>getUserAccounts\<close>, \<open>getDashboardData\<close>,
  \<open>getAccountWithTransactions\<close>) are not under \<open>src/\<close>: their results are inputs.
  An error thrown by \<open>getCurrentBudget\<close> aborts the dashboard (the left value).
\<close>

subsection \<open>The dashboard\<close>

record dashboard_view =
  dv_total_balance :: cents
  dv_monthly_income :: cents
  dv_monthly_expenses :: cents
  dv_budget :: "budget option"
  dv_current_expenses :: cents
  dv_percent_used :: jsnum
  dv_account_count :: nat
  dv_selected :: "account_id option"

definition dashboard_page ::
  "db \<Rightarrow> string option \<Rightarrow> account list \<Rightarrow> transaction list \<Rightarrow> instant \<Rightarrow> api_error + dashboard_view" where
  "dashboard_page d auth accs ts now =
     (let budget_data =
            (case default_account accs of
               None \<Rightarrow> Inr None
             | Some a \<Rightarrow> map_sum id Some (get_current_budget d auth now (Some (a_id a))));
          mts = monthly_transactions ts now
      in map_sum id
           (\<lambda>bd. let (b, e) = (case bd of None \<Rightarrow> (None, 0) | Some (b, e) \<Rightarrow> (b, e))
                 in \<lparr>dv_total_balance = total_balance accs,
                     dv_monthly_income = sum_of_type INCOME mts,
                     dv_monthly_expenses = sum_of_type EXPENSE mts,
                     dv_budget = b, dv_current_expenses = e,
                     dv_percent_used = progress_percent b e,
                     dv_account_count = length accs,
                     dv_selected = initial_selected_account accs\<rparr>)
           budget_data)"

text \<open>\<open>COLORS\<close> of the overview and the slice colour \<open>COLORS[index % COLORS.length]\<close>.\<close>

definition pie_colors :: "string list" where
  "pie_colors = [''#3B82F6'', ''#10B981'', ''#F59E0B'', ''#EF4444'', ''#8B5CF6'', ''#06B6D4'', ''#84CC16'']"

definition pie_slices :: "transaction list \<Rightarrow> (string \<times> cents \<times> string) list" where
  "pie_slices es =
     map (\<lambda>(i, c, v). (c, v, pie_colors ! (i mod length pie_colors))) (enumerate 0 (pie_chart_data es))"

text \<open>The overview's account selector: \<open>onValueChange={setSelectedAccountId}\<close>
  offers the accounts' ids; the recent list, the month's expenses and the slices
  follow the selection.\<close>

record overview_view =
  ov_selected :: "account_id option"
  ov_recent :: "transaction list"
  ov_slices :: "(string \<times> cents \<times> string) list"
  ov_total :: cents

definition overview_render :: "transaction list \<Rightarrow> instant \<Rightarrow> account_id option \<Rightarrow> overview_view" where
  "overview_render ts now sel =
     (let es = current_month_expenses ts sel now
      in \<lparr>ov_selected = sel, ov_recent = overview_recent sel ts, ov_slices = pie_slices es,
          ov_total = foldl (\<lambda>s t. s + tx_amount t) 0 es\<rparr>)"

definition overview_select :: "account list \<Rightarrow> account_id \<Rightarrow> account_id option \<Rightarrow> account_id option" where
  "overview_select accs v sel = (if v \<in> a_id ` set accs then Some v else sel)"

subsection \<open>The account page\<close>

record account_page_view =
  ap_account :: account
  ap_income :: cents
  ap_expenses :: cents
  ap_net :: cents
  ap_net_sign :: string
  ap_recent :: "transaction list"
  ap_chart_rows :: "transaction list"
  ap_table :: table_sys

text \<open>The whole body runs inside \<open>try\<close>: \<open>getAccountWithTransactions(id)\<close> may throw
  (the left value of its result) or return nothing.  \<open>notFound()\<close> signals the 404 by
  throwing, and the page's own \<open>catch\<close> catches that throw like any other error, so both
  cases render "Error Loading Account".  \<open>transactions.sort(...)\<close> sorts the array in
  place, so the chart and the table receive the rows newest first.\<close>

datatype page_error = ErrorLoadingAccount

definition account_page ::
  "string + (account \<times> transaction list) option \<Rightarrow> page_error + account_page_view" where
  "account_page data =
     (case data of
        Inl _ \<Rightarrow> Inl ErrorLoadingAccount
      | Inr None \<Rightarrow> Inl ErrorLoadingAccount
      | Inr (Some (a, ts)) \<Rightarrow>
          (let sorted = js_sort (\<lambda>x y. ccomp (tx_date y) (tx_date x)) ts;
               nf = net_flow ts
           in Inr \<lparr>ap_account = a, ap_income = sum_of_type INCOME ts, ap_expenses = sum_of_type EXPENSE ts,
                   ap_net = nf, ap_net_sign = (if 0 \<le> nf then ''+'' else ''''),
                   ap_recent = account_recent ts, ap_chart_rows = sorted, ap_table = table_init sorted\<rparr>))"

subsection \<open>Properties of the account page\<close>

text \<open>
  C34. The account page: a missing account, like a failed load, renders the error
  page and never the not-found page; for a loaded account the chart and the table
  both receive the rows sorted newest first (the in-place sort of the recent list),
  the recent list is the first three of them, and the net flow is income minus
  expenses, signed "+" exactly when it is not negative.
\<close>

theorem account_page_outcomes:
  "account_page (Inr None) = Inl ErrorLoadingAccount \<and> account_page (Inl e) = Inl ErrorLoadingAccount
   \<and> (\<exists>v. account_page (Inr (Some (a, ts))) = Inr v
        \<and> ap_chart_rows v = sort_key (\<lambda>t. RevOrd (tx_date t)) ts
        \<and> rows (tbl (ap_table v)) = ap_chart_rows v
        \<and> ap_recent v = take 3 (ap_chart_rows v)
        \<and> ap_net v = ap_income v - ap_expenses v
        \<and> (ap_net_sign v = ''+'' \<longleftrightarrow> 0 \<le> ap_net v))"
  by (simp add: account_page_def js_sort_date_desc account_recent_def recent_transactions_eq
      table_init_def net_flow_def Let_def)

end
