(* ===== verification/Dashboard_Widgets.thy ===== *)
theory Dashboard_Widgets
  imports Budget Use_Fetch
begin

text \<open>
  The three dashboard widgets that write to the server through \<open>useFetch\<close>: the budget
  editor of \<open>BudgetProgress\<close> (\<open>src/app/(main)/dashboard/_components/budget-progress.jsx\<close>)
  calling \<open>updateBudget\<close>, the default-account switch of \<open>AccountCard\<close>
  (\<open>account-card.jsx\<close>) calling \<open>updateDefaultAccount\<close>, and the
  \<open>CreateAccountDrawer\<close> (\<open>src/components/create-account-drawer.jsx\<close>) calling
  \<open>createAccount\<close>.  Each is a record of the
  component's state with its hook, a step per user action or settlement, and the
  component's effects run after every step, each when its dependency changed since the
  last render.  \<open>parseFloat\<close> is a parameter \<open>pf\<close> of the editor (the properties hold
  for every parser), and so is the text \<open>initialBudget?.amount?.toString() || ""\<close>
  the editor starts from and returns to on cancel.  \<open>updateBudget\<close> reports a failure by
  returning \<open>{success: false, error}\<close>, the left value of its result.
\<close>

subsection \<open>The budget editor\<close>

datatype editor_toast = InvalidAmountToast | BudgetUpdatedToast | UpdateErrorToast string

record budget_editor =
  be_editing :: bool
  be_text :: string
  be_upd :: "(api_error + budget) fetch_sys"
  be_seen_data :: "(nat \<times> (api_error + budget)) option"
  be_seen_error :: "string option"
  be_sent :: "jsnum list"
  be_toasts :: "editor_toast list"

definition editor_init :: "string \<Rightarrow> budget_editor" where
  "editor_init s0 =
     \<lparr>be_editing = False, be_text = s0, be_upd = fetch_sys_init, be_seen_data = None,
      be_seen_error = None, be_sent = [], be_toasts = []\<rparr>"

text \<open>The effect on \<open>[updatedBudget]\<close> (close the editor and toast on \<open>success\<close>),
  then the effect on \<open>[error]\<close> (toast the message).\<close>

definition editor_effects :: "budget_editor \<Rightarrow> budget_editor" where
  "editor_effects s =
     (let d = f_data (hook (be_upd s)); e = f_error (hook (be_upd s));
          s1 = (if d = be_seen_data s then s
                else (case d of
                        Some (_, Inr _) \<Rightarrow> s\<lparr>be_editing := False, be_toasts := be_toasts s @ [BudgetUpdatedToast]\<rparr>
                      | _ \<Rightarrow> s)\<lparr>be_seen_data := d\<rparr>)
      in if e = be_seen_error s1 then s1
         else (case e of
                 Some m \<Rightarrow> s1\<lparr>be_toasts := be_toasts s1 @ [UpdateErrorToast m]\<rparr>
               | None \<Rightarrow> s1)\<lparr>be_seen_error := e\<rparr>)"

datatype editor_event =
    EditClick | TypeAmount string | SaveClick | CancelClick
  | UpdateReturned nat "api_error + budget" | UpdateThrew nat string

text \<open>The pencil is shown when not editing; the input, save and cancel buttons are
  shown when editing and disabled while the update is loading.  Saving runs
  \<open>handleUpdateBudget\<close>: an invalid amount toasts, a valid one calls the action.\<close>

fun editor_handle ::
  "(string \<Rightarrow> jsnum) \<Rightarrow> string \<Rightarrow> editor_event \<Rightarrow> budget_editor \<Rightarrow> budget_editor option" where
  "editor_handle pf s0 EditClick s = (if \<not> be_editing s then Some (s\<lparr>be_editing := True\<rparr>) else None)"
| "editor_handle pf s0 (TypeAmount v) s =
     (if be_editing s \<and> \<not> f_loading (hook (be_upd s)) then Some (s\<lparr>be_text := v\<rparr>) else None)"
| "editor_handle pf s0 SaveClick s =
     (if be_editing s \<and> \<not> f_loading (hook (be_upd s)) then
        (case handle_update_budget (pf (be_text s)) of
           None \<Rightarrow> Some (s\<lparr>be_toasts := be_toasts s @ [InvalidAmountToast]\<rparr>)
         | Some a \<Rightarrow> map_option (\<lambda>u. s\<lparr>be_upd := u, be_sent := be_sent s @ [a]\<rparr>) (fetch_step Execute (be_upd s)))
      else None)"
| "editor_handle pf s0 CancelClick s =
     (if be_editing s \<and> \<not> f_loading (hook (be_upd s)) then Some (s\<lparr>be_text := s0, be_editing := False\<rparr>) else None)"
| "editor_handle pf s0 (UpdateReturned c r) s =
     map_option (\<lambda>u. s\<lparr>be_upd := u\<rparr>) (fetch_step (Resolve c r) (be_upd s))"
| "editor_handle pf s0 (UpdateThrew c m) s =
     map_option (\<lambda>u. s\<lparr>be_upd := u\<rparr>) (fetch_step (Reject c m) (be_upd s))"

definition editor_step ::
  "(string \<Rightarrow> jsnum) \<Rightarrow> string \<Rightarrow> editor_event \<Rightarrow> budget_editor \<Rightarrow> budget_editor option" where
  "editor_step pf s0 ev s = map_option editor_effects (editor_handle pf s0 ev s)"

fun editor_run ::
  "(string \<Rightarrow> jsnum) \<Rightarrow> string \<Rightarrow> editor_event list \<Rightarrow> budget_editor \<Rightarrow> budget_editor option" where
  "editor_run pf s0 [] s = Some s"
| "editor_run pf s0 (ev # evs) s =
     (case editor_step pf s0 ev s of None \<Rightarrow> None | Some s' \<Rightarrow> editor_run pf s0 evs s')"

inductive editor_reachable :: "(string \<Rightarrow> jsnum) \<Rightarrow> string \<Rightarrow> budget_editor \<Rightarrow> bool" for pf s0 where
  init: "editor_reachable pf s0 (editor_init s0)"
| step: "editor_reachable pf s0 s \<Longrightarrow> editor_step pf s0 ev s = Some s' \<Longrightarrow> editor_reachable pf s0 s'"

subsection \<open>The default-account switch\<close>

datatype card_toast = NeedDefaultToast | DefaultUpdatedToast | DefaultErrorToast string

record card_state =
  cs_upd :: "bool fetch_sys"
  cs_seen_data :: "(nat \<times> bool) option"
  cs_seen_error :: "string option"
  cs_sent :: "account_id list"
  cs_toasts :: "card_toast list"

definition card_init :: card_state where
  "card_init = \<lparr>cs_upd = fetch_sys_init, cs_seen_data = None, cs_seen_error = None, cs_sent = [], cs_toasts = []\<rparr>"

text \<open>\<open>handleDefaultChange\<close>: the switch is disabled while loading; the default account
  only warns, any other account calls the action with its id.\<close>

definition handle_default_change :: "account \<Rightarrow> card_state \<Rightarrow> card_state option" where
  "handle_default_change a s =
     (if f_loading (hook (cs_upd s)) then None
      else if a_is_default a then Some (s\<lparr>cs_toasts := cs_toasts s @ [NeedDefaultToast]\<rparr>)
      else map_option (\<lambda>u. s\<lparr>cs_upd := u, cs_sent := cs_sent s @ [a_id a]\<rparr>) (fetch_step Execute (cs_upd s)))"

text \<open>The effects on \<open>[updatedAccount]\<close> (toast on \<open>success\<close>) and on \<open>[error]\<close>.\<close>

definition card_effects :: "card_state \<Rightarrow> card_state" where
  "card_effects s =
     (let d = f_data (hook (cs_upd s)); e = f_error (hook (cs_upd s));
          s1 = (if d = cs_seen_data s then s
                else (case d of
                        Some (_, True) \<Rightarrow> s\<lparr>cs_toasts := cs_toasts s @ [DefaultUpdatedToast]\<rparr>
                      | _ \<Rightarrow> s)\<lparr>cs_seen_data := d\<rparr>)
      in if e = cs_seen_error s1 then s1
         else (case e of
                 Some m \<Rightarrow> s1\<lparr>cs_toasts := cs_toasts s1 @ [DefaultErrorToast m]\<rparr>
               | None \<Rightarrow> s1)\<lparr>cs_seen_error := e\<rparr>)"

subsection \<open>The create-account drawer\<close>

text \<open>
  \<open>CreateAccountDrawer\<close> (\<open>src/components/create-account-drawer.jsx\<close>): the drawer's
  \<open>open\<close> state, the react-hook-form values with their defaults, and
  \<open>useFetch(createAccount)\<close>.  The zod schema \<open>accountSchema\<close> is not under
  \<open>src/\<close>: the resolver's verdict is a parameter \<open>ok\<close>; an invalid form shows the
  field errors and calls nothing.  The effect on \<open>[newAccount, reset]\<close> toasts, resets
  the form and closes the drawer whenever a new result arrives; the effect on
  \<open>[error]\<close> toasts the error.
\<close>

record account_form =
  af_name :: string
  af_type :: string
  af_balance :: string
  af_is_default :: bool

definition form_defaults :: account_form where
  "form_defaults = \<lparr>af_name = [], af_type = ''CURRENT'', af_balance = [], af_is_default = False\<rparr>"

text \<open>\<open>error.message || fallback\<close>: the empty message is falsy.\<close>

definition js_or_msg :: "string \<Rightarrow> string \<Rightarrow> string" where
  "js_or_msg m d = (if m = [] then d else m)"

datatype drawer_toast = AccountCreatedToast | CreateErrorToast string

record drawer_state =
  dr_open :: bool
  dr_form :: account_form
  dr_create :: "bool fetch_sys"
  dr_seen_data :: "(nat \<times> bool) option"
  dr_seen_error :: "string option"
  dr_sent :: "account_form list"
  dr_toasts :: "drawer_toast list"

definition drawer_init :: drawer_state where
  "drawer_init =
     \<lparr>dr_open = False, dr_form = form_defaults, dr_create = fetch_sys_init, dr_seen_data = None,
      dr_seen_error = None, dr_sent = [], dr_toasts = []\<rparr>"

definition drawer_effects :: "drawer_state \<Rightarrow> drawer_state" where
  "drawer_effects s =
     (let d = f_data (hook (dr_create s)); e = f_error (hook (dr_create s));
          s1 = (if d = dr_seen_data s then s
                else (if d \<noteq> None
                      then s\<lparr>dr_toasts := dr_toasts s @ [AccountCreatedToast], dr_form := form_defaults,
                             dr_open := False\<rparr>
                      else s)\<lparr>dr_seen_data := d\<rparr>)
      in if e = dr_seen_error s1 then s1
         else (case e of
                 Some m \<Rightarrow> s1\<lparr>dr_toasts := dr_toasts s1 @ [CreateErrorToast (js_or_msg m ''Failed to create account'')]\<rparr>
               | None \<Rightarrow> s1)\<lparr>dr_seen_error := e\<rparr>)"

datatype drawer_event =
    SetOpen bool | SetName string | SetAccountType string | SetBalance string | SetDefault bool
  | SubmitForm | CreateReturned nat bool | CreateThrew nat string

text \<open>The two type items of the \<open>Select\<close> are \<open>CURRENT\<close> and \<open>SAVINGS\<close>; the submit
  button is disabled while the call is loading.\<close>

fun drawer_handle :: "(account_form \<Rightarrow> bool) \<Rightarrow> drawer_event \<Rightarrow> drawer_state \<Rightarrow> drawer_state option" where
  "drawer_handle ok (SetOpen b) s = Some (s\<lparr>dr_open := b\<rparr>)"
| "drawer_handle ok (SetName v) s = (if dr_open s then Some (s\<lparr>dr_form := (dr_form s)\<lparr>af_name := v\<rparr>\<rparr>) else None)"
| "drawer_handle ok (SetAccountType v) s =
     (if dr_open s \<and> v \<in> {''CURRENT'', ''SAVINGS''} then Some (s\<lparr>dr_form := (dr_form s)\<lparr>af_type := v\<rparr>\<rparr>) else None)"
| "drawer_handle ok (SetBalance v) s = (if dr_open s then Some (s\<lparr>dr_form := (dr_form s)\<lparr>af_balance := v\<rparr>\<rparr>) else None)"
| "drawer_handle ok (SetDefault b) s = (if dr_open s then Some (s\<lparr>dr_form := (dr_form s)\<lparr>af_is_default := b\<rparr>\<rparr>) else None)"
| "drawer_handle ok SubmitForm s =
     (if dr_open s \<and> \<not> f_loading (hook (dr_create s)) then
        (if ok (dr_form s)
         then map_option (\<lambda>u. s\<lparr>dr_create := u, dr_sent := dr_sent s @ [dr_form s]\<rparr>) (fetch_step Execute (dr_create s))
         else Some s)
      else None)"
| "drawer_handle ok (CreateReturned c r) s = map_option (\<lambda>u. s\<lparr>dr_create := u\<rparr>) (fetch_step (Resolve c r) (dr_create s))"
| "drawer_handle ok (CreateThrew c m) s = map_option (\<lambda>u. s\<lparr>dr_create := u\<rparr>) (fetch_step (Reject c m) (dr_create s))"

definition drawer_step :: "(account_form \<Rightarrow> bool) \<Rightarrow> drawer_event \<Rightarrow> drawer_state \<Rightarrow> drawer_state option" where
  "drawer_step ok ev s = map_option drawer_effects (drawer_handle ok ev s)"

fun drawer_run :: "(account_form \<Rightarrow> bool) \<Rightarrow> drawer_event list \<Rightarrow> drawer_state \<Rightarrow> drawer_state option" where
  "drawer_run ok [] s = Some s"
| "drawer_run ok (ev # evs) s = (case drawer_step ok ev s of None \<Rightarrow> None | Some s' \<Rightarrow> drawer_run ok evs s')"

inductive drawer_reachable :: "(account_form \<Rightarrow> bool) \<Rightarrow> drawer_state \<Rightarrow> bool" for ok where
  init: "drawer_reachable ok drawer_init"
| step: "drawer_reachable ok s \<Longrightarrow> drawer_step ok ev s = Some s' \<Longrightarrow> drawer_reachable ok s'"

text \<open>The drawer's invariant: the hook's, the effects have seen the current \<open>data\<close> and
  \<open>error\<close>, one form was sent per call issued, and each passed the resolver.\<close>

definition drawer_inv :: "(account_form \<Rightarrow> bool) \<Rightarrow> drawer_state \<Rightarrow> bool" where
  "drawer_inv ok s \<longleftrightarrow>
     fetch_inv (dr_create s) \<and> dr_seen_data s = f_data (hook (dr_create s))
     \<and> dr_seen_error s = f_error (hook (dr_create s))
     \<and> length (dr_sent s) = issued (dr_create s) \<and> list_all ok (dr_sent s)"

subsection \<open>The invariant of the budget editor\<close>

text \<open>The hook's invariant holds, the effects have seen the current \<open>data\<close> and
  \<open>error\<close>, and every amount sent to the server passed the client check.\<close>

definition editor_inv :: "budget_editor \<Rightarrow> bool" where
  "editor_inv s \<longleftrightarrow>
     fetch_inv (be_upd s) \<and> be_seen_data s = f_data (hook (be_upd s))
     \<and> be_seen_error s = f_error (hook (be_upd s))
     \<and> (\<forall>a \<in> set (be_sent s). a = PosInf \<or> (\<exists>q. a = Num q \<and> 0 < q))"

subsection \<open>Properties of the budget editor\<close>


lemma editor_effects_fields:
  "be_upd (editor_effects s) = be_upd s \<and> be_sent (editor_effects s) = be_sent s
   \<and> be_seen_data (editor_effects s) = f_data (hook (be_upd s))
   \<and> be_seen_error (editor_effects s) = f_error (hook (be_upd s))"
  by (simp add: editor_effects_def Let_def split: option.split sum.split prod.split)

lemma handle_update_budget_Some:
  "handle_update_budget x = Some a \<Longrightarrow> a = x \<and> (a = PosInf \<or> (\<exists>q. a = Num q \<and> 0 < q))"
  by (cases x) (auto simp: handle_update_budget_def split: if_splits)

lemma editor_inv_step:
  assumes "editor_inv s" and "editor_step pf s0 ev s = Some s'"
  shows "editor_inv s'"
proof -
  obtain s1 where h: "editor_handle pf s0 ev s = Some s1" and s': "s' = editor_effects s1"
    using assms(2) by (auto simp: editor_step_def)
  have valid: "\<forall>a. handle_update_budget (pf (be_text s)) = Some a \<longrightarrow> a = PosInf \<or> (\<exists>q. a = Num q \<and> 0 < q)"
    using handle_update_budget_Some by blast
  have "fetch_inv (be_upd s1) \<and> (\<forall>a \<in> set (be_sent s1). a = PosInf \<or> (\<exists>q. a = Num q \<and> 0 < q))"
    using assms(1) h valid
    by (cases ev)
       (auto simp: editor_inv_def simp del: fetch_step.simps intro: fetch_inv_step
          split: if_splits option.splits)
  then show ?thesis using editor_effects_fields [of s1] by (simp add: s' editor_inv_def)
qed

lemma editor_reachable_inv: "editor_reachable pf s0 s \<Longrightarrow> editor_inv s"
proof (induction rule: editor_reachable.induct)
  case init
  show ?case using fetch_inv_init
    by (simp add: editor_inv_def editor_init_def) (simp add: fetch_sys_init_def fetch_init_def)
next
  case (step s ev s')
  show ?case using step.IH step.hyps(2) by (rule editor_inv_step)
qed

lemma editor_run_reachable:
  "editor_reachable pf s0 s \<Longrightarrow> editor_run pf s0 evs s = Some s' \<Longrightarrow> editor_reachable pf s0 s'"
  by (induction evs arbitrary: s) (auto split: option.splits intro: editor_reachable.step)

text \<open>
  Whatever the user types, the budget editor calls updateBudget only with a
  positive number or Infinity: the client check of handleUpdateBudget guards every
  call.
\<close>

theorem editor_sends_valid_amounts:
  "editor_reachable pf s0 s \<Longrightarrow> \<forall>a \<in> set (be_sent s). a = PosInf \<or> (\<exists>q. a = Num q \<and> 0 < q)"
  using editor_reachable_inv by (simp add: editor_inv_def)



theorem editor_sends_valid_amounts_witness:
  "\<exists>s. editor_run (\<lambda>x. if x = ''150'' then Num 150 else NaN) ''100''
         [EditClick, TypeAmount ''150'', SaveClick] (editor_init ''100'') = Some s
      \<and> editor_reachable (\<lambda>x. if x = ''150'' then Num 150 else NaN) ''100'' s
      \<and> be_sent s = [Num 150]
      \<and> (\<forall>a \<in> set (be_sent s). a = PosInf \<or> (\<exists>q. a = Num q \<and> 0 < q))"
proof -
  obtain s where run: "editor_run (\<lambda>x. if x = ''150'' then Num 150 else NaN) ''100''
         [EditClick, TypeAmount ''150'', SaveClick] (editor_init ''100'') = Some s"
    and sent: "be_sent s = [Num 150]"
    by (simp add: editor_step_def editor_init_def editor_effects_def handle_update_budget_def
        fetch_sys_init_def fetch_init_def fetch_start_def Let_def)
  have r: "editor_reachable (\<lambda>x. if x = ''150'' then Num 150 else NaN) ''100'' s"
    by (rule editor_run_reachable [OF editor_reachable.init run])
  show ?thesis using run r sent editor_sends_valid_amounts [OF r] by blast
qed


subsection \<open>Properties of the create-account drawer\<close>

lemma drawer_effects_fields:
  "dr_create (drawer_effects s) = dr_create s \<and> dr_sent (drawer_effects s) = dr_sent s
   \<and> dr_seen_data (drawer_effects s) = f_data (hook (dr_create s))
   \<and> dr_seen_error (drawer_effects s) = f_error (hook (dr_create s))"
  by (simp add: drawer_effects_def Let_def split: option.split)

lemma drawer_inv_step:
  assumes "drawer_inv ok s" and "drawer_step ok ev s = Some s'"
  shows "drawer_inv ok s'"
proof -
  obtain s1 where h: "drawer_handle ok ev s = Some s1" and s': "s' = drawer_effects s1"
    using assms(2) by (auto simp: drawer_step_def)
  have "fetch_inv (dr_create s1)"
    using assms(1) h
    by (cases ev)
       (auto simp: drawer_inv_def simp del: fetch_step.simps intro: fetch_inv_step split: if_splits)
  moreover have "length (dr_sent s1) = issued (dr_create s1) \<and> list_all ok (dr_sent s1)"
    using assms(1) h
    by (cases ev) (auto simp: drawer_inv_def split: if_splits)
  ultimately have "fetch_inv (dr_create s1) \<and> length (dr_sent s1) = issued (dr_create s1) \<and> list_all ok (dr_sent s1)"
    by blast
  then show ?thesis using drawer_effects_fields [of s1] by (simp add: s' drawer_inv_def)
qed

lemma drawer_reachable_inv: "drawer_reachable ok s \<Longrightarrow> drawer_inv ok s"
proof (induction rule: drawer_reachable.induct)
  case init
  show ?case by (simp add: drawer_inv_def drawer_init_def fetch_inv_init) (simp add: fetch_sys_init_def fetch_init_def)
next
  case (step s ev s')
  show ?case using step.IH step.hyps(2) by (rule drawer_inv_step)
qed

lemma drawer_run_reachable:
  "drawer_reachable ok s \<Longrightarrow> drawer_run ok evs s = Some s' \<Longrightarrow> drawer_reachable ok s'"
  by (induction evs arbitrary: s) (auto split: option.splits intro: drawer_reachable.step)

lemma drawer_inv_facts:
  assumes "drawer_inv ok s"
  shows "dr_seen_data s = f_data (hook (dr_create s))" "dr_seen_error s = f_error (hook (dr_create s))"
    "\<forall>c r. f_data (hook (dr_create s)) = Some (c, r) \<longrightarrow> c < issued (dr_create s) \<and> c \<notin> set (pending (dr_create s))"
    "pending (dr_create s) = [] \<Longrightarrow> \<not> f_loading (hook (dr_create s))"
  using assms by (auto simp: drawer_inv_def fetch_inv_def split: option.splits)

lemma drawer_submit_invalid:
  assumes "drawer_inv ok s" and "dr_open s" and "pending (dr_create s) = []" and "\<not> ok (dr_form s)"
  shows "drawer_step ok SubmitForm s = Some s"
proof -
  have "drawer_effects s = s"
    using drawer_inv_facts(1,2) [OF assms(1)] by (cases s) (simp add: drawer_effects_def Let_def)
  then show ?thesis using assms drawer_inv_facts(4) [OF assms(1)] by (simp add: drawer_step_def)
qed

lemma drawer_submit_valid:
  assumes "drawer_inv ok s" and "dr_open s" and "pending (dr_create s) = []" and "ok (dr_form s)"
  shows "\<exists>s1. drawer_step ok SubmitForm s = Some s1 \<and> dr_open s1 \<and> dr_form s1 = dr_form s
           \<and> dr_toasts s1 = dr_toasts s \<and> dr_sent s1 = dr_sent s @ [dr_form s]
           \<and> issued (dr_create s) \<in> set (pending (dr_create s1)) \<and> f_error (hook (dr_create s1)) = None
           \<and> drawer_inv ok s1"
proof -
  let ?u = "(dr_create s)\<lparr>hook := fetch_start (hook (dr_create s)),
             pending := pending (dr_create s) @ [issued (dr_create s)], issued := Suc (issued (dr_create s))\<rparr>"
  let ?s0 = "s\<lparr>dr_create := ?u, dr_sent := dr_sent s @ [dr_form s]\<rparr>"
  have h: "drawer_handle ok SubmitForm s = Some ?s0"
    using assms drawer_inv_facts(4) [OF assms(1)] by simp
  have st: "drawer_step ok SubmitForm s = Some (drawer_effects ?s0)"
    unfolding drawer_step_def h by simp
  have d: "f_data (hook ?u) = dr_seen_data ?s0"
    using drawer_inv_facts(1) [OF assms(1)] by (simp add: fetch_start_def)
  have e: "drawer_effects ?s0 =
           (if f_error (hook ?u) = dr_seen_error ?s0 then ?s0 else ?s0\<lparr>dr_seen_error := f_error (hook ?u)\<rparr>)"
    using d by (simp add: drawer_effects_def Let_def fetch_start_def)
  have inv1: "drawer_inv ok (drawer_effects ?s0)"
    using drawer_inv_step [OF assms(1) st] .
  show ?thesis
    using st e inv1 assms(2) by (simp add: fetch_start_def)
qed

lemma drawer_returned:
  assumes "drawer_inv ok s" and "c \<in> set (pending (dr_create s))"
  shows "\<exists>s'. drawer_step ok (CreateReturned c r) s = Some s' \<and> \<not> dr_open s' \<and> dr_form s' = form_defaults
           \<and> dr_toasts s' = dr_toasts s @ [AccountCreatedToast] \<and> dr_sent s' = dr_sent s"
proof -
  have nd: "Some (c, r) \<noteq> dr_seen_data s"
    using drawer_inv_facts(1,3) [OF assms(1)] assms(2) by (metis option.inject)
  have ne: "f_error (hook (dr_create s)) = dr_seen_error s"
    using drawer_inv_facts(2) [OF assms(1)] by simp
  show ?thesis
    using assms(2) nd ne by (simp add: drawer_step_def drawer_effects_def fetch_resolve_def Let_def)
qed

lemma drawer_threw:
  assumes "drawer_inv ok s" and "c \<in> set (pending (dr_create s))" and "f_error (hook (dr_create s)) = None"
  shows "\<exists>s'. drawer_step ok (CreateThrew c m) s = Some s' \<and> dr_open s' = dr_open s \<and> dr_form s' = dr_form s
           \<and> dr_toasts s' = dr_toasts s @ [CreateErrorToast (js_or_msg m ''Failed to create account'')]"
proof -
  have sd: "f_data (hook (dr_create s)) = dr_seen_data s" "dr_seen_error s = None"
    using drawer_inv_facts(1,2) [OF assms(1)] assms(3) by simp_all
  show ?thesis
    using assms(2) sd by (simp add: drawer_step_def drawer_effects_def fetch_reject_def Let_def)
qed

lemma drawer_create_valid:
  assumes "drawer_inv ok s" and "dr_open s" and "pending (dr_create s) = []" and "ok (dr_form s)"
  shows "(\<exists>s'. drawer_run ok [SubmitForm, CreateReturned (issued (dr_create s)) r] s = Some s'
             \<and> \<not> dr_open s' \<and> dr_form s' = form_defaults
             \<and> dr_toasts s' = dr_toasts s @ [AccountCreatedToast] \<and> dr_sent s' = dr_sent s @ [dr_form s])
         \<and> (\<exists>s'. drawer_run ok [SubmitForm, CreateThrew (issued (dr_create s)) m] s = Some s'
             \<and> dr_open s' \<and> dr_form s' = dr_form s
             \<and> dr_toasts s' = dr_toasts s @ [CreateErrorToast (js_or_msg m ''Failed to create account'')])"
proof -
  obtain s1 where st: "drawer_step ok SubmitForm s = Some s1" and s1: "dr_open s1" "dr_form s1 = dr_form s"
    "dr_toasts s1 = dr_toasts s" "dr_sent s1 = dr_sent s @ [dr_form s]"
    "issued (dr_create s) \<in> set (pending (dr_create s1))" "f_error (hook (dr_create s1)) = None"
    "drawer_inv ok s1"
    using drawer_submit_valid [OF assms] by blast
  obtain s2 where "drawer_step ok (CreateReturned (issued (dr_create s)) r) s1 = Some s2"
    "\<not> dr_open s2" "dr_form s2 = form_defaults" "dr_toasts s2 = dr_toasts s1 @ [AccountCreatedToast]"
    "dr_sent s2 = dr_sent s1"
    using drawer_returned [OF s1(7,5)] by blast
  moreover obtain s3 where "drawer_step ok (CreateThrew (issued (dr_create s)) m) s1 = Some s3"
    "dr_open s3 = dr_open s1" "dr_form s3 = dr_form s1"
    "dr_toasts s3 = dr_toasts s1 @ [CreateErrorToast (js_or_msg m ''Failed to create account'')]"
    using drawer_threw [OF s1(7,5,6)] by blast
  ultimately show ?thesis using st s1 by auto
qed

text \<open>
  The drawer calls createAccount only with forms the resolver of accountSchema
  accepted, one form per call issued.
\<close>

theorem drawer_sends_only_valid:
  "drawer_reachable ok s \<Longrightarrow> (\<forall>f \<in> set (dr_sent s). ok f) \<and> length (dr_sent s) = issued (dr_create s)"
  by (drule drawer_reachable_inv) (simp add: drawer_inv_def list_all_iff)

text \<open>
  C32. Submitting the open drawer with no call in flight: an invalid form changes
  nothing and calls nothing; when createAccount returns, "Account created
  successfully" is shown once, the form is reset to its defaults and the drawer
  closes; when it throws, the error (or "Failed to create account" for an empty
  message) is shown and the drawer stays open with the form as typed.
\<close>

theorem drawer_create_outcomes:
  assumes "drawer_reachable ok s" and "dr_open s" and "pending (dr_create s) = []"
  shows "(\<not> ok (dr_form s) \<longrightarrow> drawer_run ok [SubmitForm] s = Some s)
         \<and> (ok (dr_form s) \<longrightarrow>
             (\<exists>s'. drawer_run ok [SubmitForm, CreateReturned (issued (dr_create s)) r] s = Some s'
                \<and> \<not> dr_open s' \<and> dr_form s' = form_defaults
                \<and> dr_toasts s' = dr_toasts s @ [AccountCreatedToast] \<and> dr_sent s' = dr_sent s @ [dr_form s])
           \<and> (\<exists>s'. drawer_run ok [SubmitForm, CreateThrew (issued (dr_create s)) m] s = Some s'
                \<and> dr_open s' \<and> dr_form s' = dr_form s
                \<and> dr_toasts s' = dr_toasts s @ [CreateErrorToast (js_or_msg m ''Failed to create account'')]))"
proof -
  have inv: "drawer_inv ok s" using assms(1) by (rule drawer_reachable_inv)
  have invalid: "\<not> ok (dr_form s) \<longrightarrow> drawer_run ok [SubmitForm] s = Some s"
    using drawer_submit_invalid [OF inv assms(2,3)] by simp
  have valid: "ok (dr_form s) \<longrightarrow>
             (\<exists>s'. drawer_run ok [SubmitForm, CreateReturned (issued (dr_create s)) r] s = Some s'
                \<and> \<not> dr_open s' \<and> dr_form s' = form_defaults
                \<and> dr_toasts s' = dr_toasts s @ [AccountCreatedToast] \<and> dr_sent s' = dr_sent s @ [dr_form s])
           \<and> (\<exists>s'. drawer_run ok [SubmitForm, CreateThrew (issued (dr_create s)) m] s = Some s'
                \<and> dr_open s' \<and> dr_form s' = dr_form s
                \<and> dr_toasts s' = dr_toasts s @ [CreateErrorToast (js_or_msg m ''Failed to create account'')])"
    using drawer_create_valid [OF inv assms(2,3)] by blast
  show ?thesis using invalid valid by blast
qed

theorem drawer_sends_only_valid_witness:
  "\<exists>s. drawer_run (\<lambda>f. af_name f \<noteq> []) [SetOpen True, SubmitForm, SetName ''Main'', SubmitForm] drawer_init = Some s
      \<and> drawer_reachable (\<lambda>f. af_name f \<noteq> []) s
      \<and> dr_sent s = [form_defaults\<lparr>af_name := ''Main''\<rparr>]
      \<and> (\<forall>f \<in> set (dr_sent s). af_name f \<noteq> []) \<and> length (dr_sent s) = issued (dr_create s)"
proof -
  obtain s where run: "drawer_run (\<lambda>f. af_name f \<noteq> []) [SetOpen True, SubmitForm, SetName ''Main'', SubmitForm]
      drawer_init = Some s" and sent: "dr_sent s = [form_defaults\<lparr>af_name := ''Main''\<rparr>]"
    by (simp add: drawer_step_def drawer_init_def drawer_effects_def form_defaults_def
        fetch_sys_init_def fetch_init_def fetch_start_def Let_def)
  have r: "drawer_reachable (\<lambda>f. af_name f \<noteq> []) s"
    by (rule drawer_run_reachable [OF drawer_reachable.init run])
  show ?thesis using run r sent drawer_sends_only_valid [OF r] by blast
qed

theorem drawer_create_outcomes_witness:
  "\<exists>s. drawer_run (\<lambda>f. af_name f \<noteq> []) [SetOpen True, SetName ''Main''] drawer_init = Some s
      \<and> (\<exists>s'. drawer_run (\<lambda>f. af_name f \<noteq> []) [SubmitForm, CreateThrew 0 []] s = Some s'
             \<and> dr_open s' \<and> dr_toasts s' = [CreateErrorToast ''Failed to create account''])"
proof -
  let ?ok = "\<lambda>f. af_name f \<noteq> []"
  obtain s where run: "drawer_run ?ok [SetOpen True, SetName ''Main''] drawer_init = Some s"
    and st: "dr_open s" "pending (dr_create s) = []" "issued (dr_create s) = 0" "af_name (dr_form s) = ''Main''"
      "dr_toasts s = []"
    by (simp add: drawer_step_def drawer_init_def drawer_effects_def form_defaults_def
        fetch_sys_init_def fetch_init_def Let_def)
  have r: "drawer_reachable ?ok s"
    by (rule drawer_run_reachable [OF drawer_reachable.init run])
  from drawer_create_outcomes [OF r st(1,2), of True "[]"] st run
  show ?thesis by (auto simp: js_or_msg_def)
qed

end
