(* ===== verification/Widget_Views.thy ===== *)
theory Widget_Views
  imports Dashboard_Widgets Js_Number Transaction_Table
begin

text \<open>
  What the two dashboard widgets show: the card of \<open>BudgetProgress\<close>
  (\<open>src/app/(main)/dashboard/_components/budget-progress.jsx\<close>) with its amounts,
  label, percentage and progress bar, the text the budget editor starts from, and the
  card of \<open>AccountCard\<close> (\<open>account-card.jsx\<close>) with its link, type label, switch
  and balance.  Amounts are printed with \<open>toFixed\<close> (\<open>Js_Number\<close>).
\<close>

subsection \<open>The budget card\<close>

text \<open>\<open>useState(initialBudget?.amount?.toString() || "")\<close>: the editor's text.\<close>

definition editor_text :: "budget option \<Rightarrow> string" where
  "editor_text ib = (case ib of None \<Rightarrow> [] | Some b \<Rightarrow> cents_str (b_amount b))"

record budget_card =
  bc_spent :: string
  bc_of_budget :: string
  bc_label :: string
  bc_label_color :: string
  bc_percent :: string
  bc_bar_value :: jsnum
  bc_bar_color :: string

datatype budget_card_view = NoBudgetSet | BudgetShown budget_card

text \<open>The card when not editing: without a budget, "No budget set"; with one, the
  amount spent (\<open>(currentExpenses || 0).toFixed(2)\<close>), the budget, the label and its
  colour, \<open>percentUsed.toFixed(1)\<close>, and the bar with the band colour.\<close>

definition budget_card_view :: "budget option \<Rightarrow> cents \<Rightarrow> budget_card_view" where
  "budget_card_view ib e =
     (case ib of
        None \<Rightarrow> NoBudgetSet
      | Some b \<Rightarrow>
          (let p = progress_percent ib e
           in BudgetShown
                \<lparr>bc_spent = CHR ''$'' # to_fixed 2 (of_int e / 100),
                 bc_of_budget = ''of $'' @ to_fixed 2 (of_int (b_amount b) / 100) @ '' spent'',
                 bc_label = get_progress_text p, bc_label_color = get_progress_text_color p,
                 bc_percent = js_to_fixed 1 p @ ''% used'', bc_bar_value = p,
                 bc_bar_color = get_progress_color p\<rparr>))"

subsection \<open>The account card\<close>

datatype account_icon = CreditCardIcon | SettingsIcon

record account_card_view =
  acv_href :: string
  acv_highlighted :: bool
  acv_icon :: account_icon
  acv_name :: string
  acv_type_label :: string
  acv_type_color :: string
  acv_switch_checked :: bool
  acv_switch_disabled :: bool
  acv_balance :: string

text \<open>\<open>type.charAt(0) + type.slice(1).toLowerCase() + " Account"\<close>.\<close>

definition account_type_label :: "string \<Rightarrow> string" where
  "account_type_label ty = take 1 ty @ js_lower (drop 1 ty) @ '' Account''"

definition account_card_view :: "account \<Rightarrow> bool \<Rightarrow> account_card_view" where
  "account_card_view a loading =
     \<lparr>acv_href = ''/account/'' @ nat_str (a_id a), acv_highlighted = a_is_default a,
      acv_icon = (if a_type a = ''CURRENT'' then CreditCardIcon else SettingsIcon),
      acv_name = a_name a, acv_type_label = account_type_label (a_type a),
      acv_type_color = (if a_type a = ''CURRENT'' then ''text-blue-600'' else ''text-emerald-600''),
      acv_switch_checked = a_is_default a, acv_switch_disabled = loading,
      acv_balance = CHR ''$'' # to_fixed 2 (of_int (a_balance a) / 100)\<rparr>"

subsection \<open>Properties of the widget views\<close>

text \<open>
  C30. Opening the budget editor on a stored budget of a positive amount and saving
  without editing sends updateBudget exactly the stored amount: the editor's text
  \<open>amount.toString()\<close> reads back through \<open>parseFloat\<close> without loss and passes
  the client check.
\<close>

theorem editor_save_unchanged:
  assumes "0 < b_amount b"
  shows "\<exists>s. editor_run parse_float (editor_text (Some b)) [EditClick, SaveClick]
               (editor_init (editor_text (Some b))) = Some s
             \<and> be_sent s = [Num (of_int (b_amount b) / 100)] \<and> be_editing s"
proof -
  have p: "parse_float (editor_text (Some b)) = Num (of_int (b_amount b) / 100)"
    by (simp add: editor_text_def parse_float_cents_str)
  have "handle_update_budget (Num (of_int (b_amount b) / 100)) = Some (Num (of_int (b_amount b) / 100))"
    using assms by (simp add: handle_update_budget_def)
  then show ?thesis
    using p by (simp add: editor_step_def editor_init_def editor_effects_def fetch_sys_init_def
        fetch_init_def fetch_start_def Let_def)
qed


theorem editor_save_unchanged_witness:
  "\<exists>s. editor_run parse_float ''1500.5'' [EditClick, SaveClick] (editor_init ''1500.5'') = Some s
       \<and> be_sent s = [Num (150050 / 100)]"
proof -
  have t: "editor_text (Some (sample_budget\<lparr>b_amount := 150050\<rparr>)) = ''1500.5''"
    by (simp add: editor_text_def cents_str_def nat_str.simps digit_char_def digit_chars_def)
  have "0 < b_amount (sample_budget\<lparr>b_amount := 150050\<rparr>)" by simp
  from editor_save_unchanged [OF this] show ?thesis unfolding t by auto
qed


end
