(* ===== verification/Account_Page_View.thy ===== *)
theory Account_Page_View
  imports Dashboard_Page Widget_Views
begin

text \<open>
  What the account page shows around its table: the header of \<open>AccountPage\<close>
  (\<open>src/app/(main)/account/[id]/page.jsx\<close>: name, type label, balance, number of
  transactions, income and expense cards) and the card of \<open>AccountChart\<close>
  (\<open>src/app/(main)/account/_components/account-chart.jsx\<close>: the range selector, the
  three summary cards, the bars and the empty state).  Both print a net amount as
  \<open>{net >= 0 ? '+' : ''}${net.toFixed(2)}\<close>, so the minus sign of a negative net
  comes after the currency sign.
\<close>

text \<open>The net amount as both components print it.\<close>

definition net_text :: "cents \<Rightarrow> string" where
  "net_text v = (if 0 \<le> v then ''+'' else []) @ CHR ''$'' # to_fixed 2 (of_int v / 100)"

record account_header_view =
  ahv_name :: string
  ahv_type_label :: string
  ahv_balance :: string
  ahv_count :: string
  ahv_income :: string
  ahv_expenses :: string

text \<open>The header and the two statistic cards; \<open>account._count.transactions\<close> comes
  with the account from the server (the argument \<open>n\<close>).\<close>

definition account_header_view :: "account \<Rightarrow> nat \<Rightarrow> transaction list \<Rightarrow> account_header_view" where
  "account_header_view a n ts =
     \<lparr>ahv_name = a_name a, ahv_type_label = account_type_label (a_type a),
      ahv_balance = CHR ''$'' # to_fixed 2 (of_int (a_balance a) / 100),
      ahv_count = nat_str n @ '' transactions'',
      ahv_income = CHR ''$'' # to_fixed 2 (of_int (sum_of_type INCOME ts) / 100),
      ahv_expenses = CHR ''$'' # to_fixed 2 (of_int (sum_of_type EXPENSE ts) / 100)\<rparr>"

record chart_view =
  cv_options :: "(string \<times> string) list"
  cv_income :: string
  cv_expense :: string
  cv_net :: string
  cv_net_up :: bool
  cv_bars :: "chart_point list"
  cv_empty_state :: bool

text \<open>The chart card for the selected range: the \<open>Select\<close> lists \<open>DATE_RANGES\<close>;
  the totals are the \<open>reduce\<close> over the bars; the empty state is shown below the
  (empty) chart when there are no bars.\<close>

definition chart_view :: "string \<Rightarrow> instant \<Rightarrow> transaction list \<Rightarrow> chart_view option" where
  "chart_view r now ts =
     map_option
       (\<lambda>ps. let (i, e) = chart_totals ps
             in \<lparr>cv_options = map (\<lambda>(k, l, _). (k, l)) date_ranges,
                 cv_income = CHR ''$'' # to_fixed 2 (of_int i / 100),
                 cv_expense = CHR ''$'' # to_fixed 2 (of_int e / 100),
                 cv_net = net_text (i - e), cv_net_up = (0 \<le> i - e),
                 cv_bars = ps, cv_empty_state = (ps = [])\<rparr>)
       (chart_data r now ts)"

subsection \<open>Properties of the account page views\<close>

lemma net_text_cases:
  "net_text v = (if 0 \<le> v then ''+$'' @ to_fixed 2 (of_int v / 100) else ''$-'' @ to_fixed 2 (of_int (- v) / 100))"
proof (cases "0 \<le> v")
  case False
  have "to_fixed 2 (- (of_int (- v) / 100)) = CHR ''-'' # to_fixed 2 (of_int (- v) / 100)"
    using False by (intro to_fixed_neg) simp
  moreover have "- (of_int (- v) / 100) = (of_int v / 100 :: rat)" by simp
  ultimately show ?thesis using False by (simp add: net_text_def)
qed (simp add: net_text_def)

text \<open>
  C36. The summary cards of the chart: for a valid range, the income and expense
  amounts printed under the chart read back exactly as the sums of the income and of
  the other transactions dated in the range, and the net flow is printed "+$..." when
  not negative and "$-..." (the minus after the currency sign) when negative.
\<close>

theorem chart_view_totals:
  assumes "chart_start r now = Some start"
  shows "\<exists>cv. chart_view r now ts = Some cv
           \<and> parse_float (tl (cv_income cv))
               = Num (of_int (sum_list (map tx_amount (filter (\<lambda>t. chart_filter start now t \<and> tx_type t = INCOME) ts))) / 100)
           \<and> parse_float (tl (cv_expense cv))
               = Num (of_int (sum_list (map tx_amount (filter (\<lambda>t. chart_filter start now t \<and> tx_type t \<noteq> INCOME) ts))) / 100)
           \<and> cv_net cv = (let v = sum_list (map tx_amount (filter (\<lambda>t. chart_filter start now t \<and> tx_type t = INCOME) ts))
                                 - sum_list (map tx_amount (filter (\<lambda>t. chart_filter start now t \<and> tx_type t \<noteq> INCOME) ts))
                          in if 0 \<le> v then ''+$'' @ to_fixed 2 (of_int v / 100) else ''$-'' @ to_fixed 2 (of_int (- v) / 100))"
proof -
  obtain ps where ps: "chart_data r now ts = Some ps" using assms by (simp add: chart_data_def)
  have t: "chart_totals ps =
      (sum_list (map tx_amount (filter (\<lambda>t. chart_filter start now t \<and> tx_type t = INCOME) ts)),
       sum_list (map tx_amount (filter (\<lambda>t. chart_filter start now t \<and> tx_type t \<noteq> INCOME) ts)))"
    using chart_totals_exact [OF assms, of ts] ps by simp
  show ?thesis
    using t by (simp add: chart_view_def ps parse_to_fixed_cents net_text_cases Let_def)
qed

theorem chart_view_totals_witness:
  "chart_start ''ALL'' (Instant (Date 2024 0 20) 43200000) = Some (Instant (Date 1970 0 1) 0)
   \<and> (\<exists>cv. chart_view ''ALL'' (Instant (Date 2024 0 20) 43200000)
             [sample_txn 1 EXPENSE 5000 ''food'' (Instant (Date 2023 11 20) 0)] = Some cv
           \<and> cv_net cv = ''$-'' @ to_fixed 2 (of_int 5000 / 100))"
proof -
  have s: "chart_start ''ALL'' (Instant (Date 2024 0 20) 43200000) = Some (Instant (Date 1970 0 1) 0)"
    by (simp add: chart_start_def date_ranges_def start_of_day_def epoch_def)
  show ?thesis
    using chart_view_totals [OF s, of "[sample_txn 1 EXPENSE 5000 ''food'' (Instant (Date 2023 11 20) 0)]"] s
    by (simp add: chart_filter_def end_of_day_def calendar_simps) blast
qed

end
