(* ===== verification/Dashboard_Screen.thy ===== *)
theory Dashboard_Screen
  imports Dashboard_Page Widget_Views
begin

text \<open>
  What the dashboard shows (\<open>src/app/(main)/dashboard/page.jsx\<close>, lines 45 to 143):
  the three metric cards, the budget card of \<open>BudgetProgress\<close>, the card pair of
  \<open>DashboardOverview\<close> (\<open>transaction-overview.jsx\<close>: the account selector, the
  recent transactions and the expense breakdown with its legend), and the accounts
  section with its count and one \<open>AccountCard\<close> per account.  The numbers come from
  \<open>dashboard_page\<close> and \<open>overview_render\<close> (\<open>Dashboard_Page\<close>); this theory
  only turns them into the texts on screen.
\<close>

text \<open>\<open>${x.toFixed(2)}\<close> of an amount in cents.\<close>

definition money_text :: "cents \<Rightarrow> string" where
  "money_text c = CHR ''$'' # to_fixed 2 (of_int c / 100)"

subsection \<open>The overview cards\<close>

record recent_item =
  ri_id :: txn_id
  ri_expense :: bool
  ri_description :: string
  ri_date :: instant
  ri_amount :: string
  ri_category :: string

text \<open>One line of the recent transactions: the arrow and colour by type, the
  description or "Untitled Transaction", the date, the signed amount and the
  category.\<close>

definition recent_item :: "transaction \<Rightarrow> recent_item" where
  "recent_item t =
     \<lparr>ri_id = tx_id t, ri_expense = (tx_type t = EXPENSE),
      ri_description = (case tx_description t of None \<Rightarrow> ''Untitled Transaction''
                        | Some d \<Rightarrow> if d = [] then ''Untitled Transaction'' else d),
      ri_date = tx_date t,
      ri_amount = (if tx_type t = EXPENSE then ''-'' else ''+'') @ money_text (tx_amount t),
      ri_category = tx_category t\<rparr>"

text \<open>The expense breakdown: the empty state, or the month's total and a legend of
  (category, colour, amount) lines, one per pie slice.\<close>

datatype breakdown_card = NoExpensesThisMonth | Breakdown string "(string \<times> string \<times> string) list"

record overview_card =
  oc_options :: "(account_id \<times> string) list"
  oc_selected :: "account_id option"
  oc_recent :: "string + recent_item list"
  oc_breakdown :: breakdown_card

definition overview_card :: "account list \<Rightarrow> overview_view \<Rightarrow> overview_card" where
  "overview_card accs ov =
     \<lparr>oc_options = map (\<lambda>a. (a_id a, a_name a)) accs,
      oc_selected = ov_selected ov,
      oc_recent = (if ov_recent ov = [] then Inl ''No recent transactions''
                   else Inr (map recent_item (ov_recent ov))),
      oc_breakdown = (if ov_slices ov = [] then NoExpensesThisMonth
                      else Breakdown (money_text (ov_total ov))
                             (map (\<lambda>(c, v, col). (c, col, money_text v)) (ov_slices ov)))\<rparr>"

subsection \<open>The dashboard\<close>

text \<open>\<open>{accounts.length} account{accounts.length !== 1 ? 's' : ''}\<close>.\<close>

definition accounts_count_text :: "nat \<Rightarrow> string" where
  "accounts_count_text n = nat_str n @ '' account'' @ (if n \<noteq> 1 then ''s'' else [])"

record dashboard_screen =
  ds_total_balance :: string
  ds_monthly_income :: string
  ds_monthly_expenses :: string
  ds_budget :: budget_card_view
  ds_overview :: overview_card
  ds_accounts_count :: string
  ds_account_cards :: "account_card_view list"

text \<open>The page as first rendered: the budget card is not editing, the overview shows
  the initially selected account, and no account switch is loading.\<close>

definition dashboard_screen ::
  "dashboard_view \<Rightarrow> account list \<Rightarrow> transaction list \<Rightarrow> instant \<Rightarrow> dashboard_screen" where
  "dashboard_screen v accs ts now =
     \<lparr>ds_total_balance = money_text (dv_total_balance v),
      ds_monthly_income = money_text (dv_monthly_income v),
      ds_monthly_expenses = money_text (dv_monthly_expenses v),
      ds_budget = budget_card_view (dv_budget v) (dv_current_expenses v),
      ds_overview = overview_card accs (overview_render ts now (dv_selected v)),
      ds_accounts_count = accounts_count_text (length accs),
      ds_account_cards = (if 0 < length accs then map (\<lambda>a. account_card_view a False) accs else [])\<rparr>"

subsection \<open>Properties of the dashboard screen\<close>

lemma parse_money_text: "parse_float (tl (money_text c)) = Num (of_int c / 100)"
  by (simp add: money_text_def parse_to_fixed_cents)

lemma map_enumerate_snd: "map (\<lambda>p. f (snd p)) (enumerate n xs) = map f xs"
  by (induction xs arbitrary: n) auto

lemma map_enumerate_fst: "map (\<lambda>p. g (fst p)) (enumerate n xs) = map g [n..<n + length xs]"
  by (induction xs arbitrary: n) (auto simp: upt_rec)

lemma pie_chart_data_Nil: "pie_chart_data es = [] \<longleftrightarrow> es = []"
  by (simp add: pie_chart_data_def)

lemma distinct_pie_chart_data: "distinct (map fst (pie_chart_data es))"
  by (simp add: pie_chart_data_def comp_def)

lemma legend_amounts:
  "map (\<lambda>(c, col, a). (c, parse_float (tl a))) (map (\<lambda>(c, v, col). (c, col, money_text v)) (pie_slices es))
   = map (\<lambda>(c, v). (c, Num (of_int v / 100))) (pie_chart_data es)"
proof -
  have "map (\<lambda>(c, col, a). (c, parse_float (tl a))) (map (\<lambda>(c, v, col). (c, col, money_text v)) (pie_slices es))
        = map (\<lambda>(i, c, v). (c, Num (of_int v / 100))) (enumerate 0 (pie_chart_data es))"
    by (simp add: pie_slices_def comp_def split_def parse_money_text)
  also have "\<dots> = map (\<lambda>(c, v). (c, Num (of_int v / 100))) (pie_chart_data es)"
    using map_enumerate_snd [where f = "\<lambda>(c, v). (c, Num (of_int v / 100))" and n = 0] by (simp add: split_def)
  finally show ?thesis .
qed

lemma legend_names:
  "map fst (map (\<lambda>(c, v, col). (c, col, money_text v)) (pie_slices es)) = map fst (pie_chart_data es)"
  using map_enumerate_snd [where f = fst and n = 0 and xs = "pie_chart_data es"]
  by (simp add: pie_slices_def comp_def split_def)

lemma legend_colours:
  "map (\<lambda>(c, col, a). col) (map (\<lambda>(c, v, col). (c, col, money_text v)) (pie_slices es))
   = map (\<lambda>i. pie_colors ! (i mod 7)) [0..<length (pie_chart_data es)]"
  using map_enumerate_fst [where g = "\<lambda>i. pie_colors ! (i mod 7)" and n = 0 and xs = "pie_chart_data es"]
  by (simp add: pie_slices_def comp_def split_def pie_colors_def)

lemma overview_slices_total:
  "ov_slices (overview_render ts now sel) = pie_slices (current_month_expenses ts sel now)"
  "ov_total (overview_render ts now sel) = sum_list (map snd (pie_chart_data (current_month_expenses ts sel now)))"
  by (simp_all add: overview_render_def Let_def overview_breakdown_total)

lemma pie_slices_Nil: "pie_slices es = [] \<longleftrightarrow> es = []"
proof -
  have "enumerate 0 xs = [] \<longleftrightarrow> xs = []" for xs :: "(string \<times> cents) list"
    by (cases xs) simp_all
  then show ?thesis by (simp add: pie_slices_def pie_chart_data_Nil)
qed



end
