(* ===== verification/Spec2Isabelle.thy ===== *)
theory Spec2Isabelle
  imports Budget_Alert Stats_Route Recurrence Site_Shell Table_View Account_Page_View Dashboard_Screen
begin

text \<open>
  \<^bold>\<open>A verification library for the finance-manager repository.\<close>

  The repository is a Next.js personal-finance tracker: accounts, transactions and one
  monthly budget per user, kept in a Prisma data store behind Clerk authentication.
  The logic under \<open>src/\<close> is date arithmetic on JavaScript \<open>Date\<close> values,
  aggregation of transaction amounts (per month, type, category, account and day), the
  budget alert decision of the test route, and the client state of the React
  components (the transaction table, the budget editor, the default-account switch,
  the create-account drawer), all of which call server actions through the
  \<open>useFetch\<close> hook.  The specification (\<open>spec.md\<close>) adds a core that is not under
  \<open>src/\<close>: settlement of recurring transactions, an alert evaluator that fires at
  most once per period, and a dispatcher running both.

  \<^bold>\<open>Theories.\<close>
  \<^item> \<open>Finance_Prelude\<close>: identifier and money types (integer cents), the collections
    \<open>calendar_simps\<close> and \<open>ledger_simps\<close>, and shared lemmas on \<open>find\<close>, on
    filtering by a distinct key and on sums over filtered lists (the group-by law
    behind every per-category sum).
  \<^item> \<open>Calendar\<close> (spec Period Calculator): dates with months counted from 0 as
    \<open>getMonth()\<close> does, instants ordered chronologically (a \<open>linorder\<close>
    instantiation), the \<open>new Date(y, m, d, \<dots>)\<close> normaliser \<open>norm_day\<close> (a
    \<open>function\<close> with a lexicographic termination measure), \<open>setMonth\<close>/\<open>setDate\<close>,
    the month windows of \<open>getCurrentBudget\<close> (\<open>src/actions/budget.js\<close>),
    \<open>getMonthlyStats\<close>/\<open>GET\<close> (\<open>src/app/api/test-monthly-stats/route.js\<close>) and
    \<open>POST\<close> (\<open>src/app/api/test-budget-alerts/route.js\<close>), and the clamping
    \<open>advance\<close> of spec 4.1.
  \<^item> \<open>Ledger\<close> (spec Aggregator): the Prisma rows as records, the \<open>where\<close> clause
    and \<open>aggregate\<close> of \<open>getCurrentBudget\<close> (errors as \<open>api_error + _\<close>), the
    \<open>reduce\<close> of \<open>getMonthlyStats\<close> with its per-category object as a map, and the
    client-side totals of the dashboard, overview and account pages.
  \<^item> \<open>Budget\<close>: JavaScript numbers (\<open>jsnum\<close>: rationals with \<open>Infinity\<close> and
    \<open>NaN\<close>), the percentage, bands and input check of \<open>budget-progress.jsx\<close>, and
    the upsert of \<open>updateBudget\<close>.
  \<^item> \<open>Budget_Alert\<close>: the test alert route \<open>POST\<close> (an Inngest event and an e-mail as
    outbound messages) and the evaluator of spec 4.4 with its record of alerted
    (budget, period) pairs, run as dispatcher ticks.
  \<^item> \<open>Js_Array\<close>: \<open>Array.prototype.sort\<close> as a stable insertion sort (proved equal
    to \<open>sort_key\<close>, with a reversed order type for descending comparators) and
    \<open>slice\<close>.
  \<^item> \<open>Use_Fetch\<close>: \<open>src/hooks/use-fetch.js\<close> as a step function on the hook's state
    together with the calls in flight (\<open>Execute\<close>, \<open>Resolve\<close>, \<open>Reject\<close>), its
    reachable states as an \<open>inductive\<close> predicate.
  \<^item> \<open>Transaction_Table\<close>: every handler of \<open>transaction-table.jsx\<close> (filters,
    sort, selection, pagination, bulk delete through \<open>useFetch\<close> and the effect on
    \<open>[deleted, deleteLoading]\<close>) as events of one step function.
  \<^item> \<open>Account_View\<close>: the recent lists and the balance chart of
    \<open>account-chart.jsx\<close> (range window, grouping by \<open>MMM dd\<close> label, sort, totals).
  \<^item> \<open>Stats_Route\<close>: \<open>GET\<close> of the monthly statistics route with its early returns.
  \<^item> \<open>Dashboard_Widgets\<close>: the budget editor of \<open>budget-progress.jsx\<close>, the switch
    of \<open>account-card.jsx\<close> and the create-account drawer of
    \<open>create-account-drawer.jsx\<close>, each a handler, the effects that run when their
    dependencies change, and a reachability predicate.
  \<^item> \<open>Dashboard_Page\<close>: \<open>dashboard/page.jsx\<close> composing \<open>getCurrentBudget\<close> with the
    totals, the overview's account selector and coloured slices, and
    \<open>account/[id]/page.jsx\<close> with its \<open>try\<close>/\<open>catch\<close>, in-place sort and the
    props it passes to the chart and the table.
  \<^item> \<open>Recurrence\<close> (spec 4.3, 4.5, 5, 7; modelled from the spec): the store of the
    advancer, the atomic \<open>settle\<close>, the \<open>advancer\<close> re-deriving the due check from
    the stored row, a dispatcher pass with isolated per-entity failures, and
    \<open>catch_up\<close>, repeated passes as a \<open>while_option\<close>.
  \<^item> \<open>Js_Number\<close>: the number-to-text conversions the views call, on exact rationals:
    the decimal text of an integer (\<open>nat_str\<close>), \<open>amount.toString()\<close> of a cents
    amount (\<open>cents_str\<close>), \<open>parseFloat\<close> of decimal literals with an exponent
    (\<open>parse_float\<close>), and \<open>toFixed\<close> with round-half-up (\<open>to_fixed\<close>,
    \<open>js_to_fixed\<close>), with the lemmas that read printed text back.
  \<^item> \<open>Widget_Views\<close>, \<open>Table_View\<close>, \<open>Account_Page_View\<close>: what
    \<open>budget-progress.jsx\<close>, \<open>account-card.jsx\<close>, \<open>transaction-table.jsx\<close>,
    \<open>account/[id]/page.jsx\<close> and \<open>account-chart.jsx\<close> render from their state:
    records of the texts and flags on screen, computed by one definition per view.
  \<^item> \<open>Dashboard_Screen\<close>: the markup of \<open>dashboard/page.jsx\<close> and
    \<open>transaction-overview.jsx\<close>: the metric cards, the budget card, the recent
    transactions and the expense breakdown with its legend, and the accounts section,
    computed from \<open>dashboard_page\<close> and \<open>overview_render\<close>.
  \<^item> \<open>Site_Shell\<close>: \<open>header.jsx\<close> (the controls by session and viewport width at
    Tailwind's 640px and 768px breakpoints, and where each leads), \<open>src/app/page.js\<close>
    (the sections with their ids and cards), \<open>src/app/layout.js\<close>, and the scroll
    listener of \<open>hero.jsx\<close> as a step function over mount, scroll and unmount with
    an \<open>inductive\<close> reachability predicate.

  \<^bold>\<open>What the lemmas show.\<close>
  \<^item> Alerts (C1, C2, C8): the evaluator fires at most once per budget and period over
    any tick sequence (C1), exactly at \<open>5 * expenses >= 4 * amount\<close> (C2); the
    route agrees except for a zero budget, where \<open>x / 0 = Infinity\<close> makes it
    alert (C8).
  \<^item> Windows and aggregation (C3, C4, C5, C11, C21, C24, C33, C37):
    \<open>getCurrentBudget\<close> loses expenses later than midnight on the month's last day
    (C3, C4); the statistics window is the whole month (C11); the per-category map
    refines the group-by sum (C5) and the dashboard's client filter reproduces the
    route's totals (C37); \<open>setMonth(getMonth() - 1)\<close> on the 31st stays in the
    current month (C24), so the route's last-month section repeats the current month
    (C21); the dashboard card and the alert route disagree on the same month (C33).
  \<^item> Budgets (C9, C10): writing then reading returns the new amount; one budget per
    user is preserved.
  \<^item> Recurrence (C6, C7, C12 to C17): \<open>advance\<close> is strictly increasing and clamps
    (C6, C7); the scenario of spec 8 (C12); a second advancer call is a no-op iff
    \<open>now < advance(next)\<close> (C13); a pass keeps balances consistent with the ledger
    (C14) and the store well formed (C17), isolates failures (C16), and repeated passes
    terminate with nothing due (C15).
  \<^item> Client state (C18 to C20, C22, C23, C26 to C29, C32, C34, C35): the table's rows
    are the stable sort of the filtered rows (C19), pages partition them (C27), its
    invariant holds (C22), and two defects are reproduced: a failed delete reports
    success (C18) and hidden rows stay selected (C26).  \<open>useFetch\<close>'s invariant
    (C23) and its overlapping calls (C28); the editor's outcomes (C29); the drawer's
    outcomes (C32); the account page's error handling and props (C34); the chart's
    grouping (C20) and its year-less labels (C35).
  \<^item> Rendered text (C25, C30, C31, C36): the table past its last page counts ten rows
    and shows the empty state with no way back (C25); the editor's initial text reads
    back through \<open>parseFloat\<close> as the stored amount (C30); the budget card's
    \<open>toFixed(1)\<close> is within 0.05 of the percentage while the label uses the exact
    value, so 89.96% reads "90.0% used" with "Warning" (C31); the chart's printed
    totals read back as the window sums and a negative net prints as "$-..." (C36).
  \<^item> Shell (C38, C40): the hero image carries the "scrolled" class only after a
    scroll past 100px and exactly then once listening (C38); below 640px a signed-in
    user has no dashboard link and the menu button has no action (C40).
  \<^item> Dashboard (C39): the overview's expense breakdown is empty exactly when the
    selected account spent nothing this month, and otherwise its legend reads back as
    the exact per-category sums, with the seven colours cycling, adding up to the
    printed total.

  \<^bold>\<open>Termination and fuel.\<close>  No fuel is used.  \<open>norm_day\<close> terminates by a
  lexicographic measure on the day overflow.  \<open>catch_up\<close> is a \<open>while_option\<close>
  whose termination (C15) is proved with \<open>measure_while_option_Some\<close> and
  \<open>store_measure\<close>: the sum over the recurring rows of the distance of their next date
  from the clock, counted in whole months times 32 plus the days left in the month;
  every advance of a due row lowers it, and settled occurrences are not recurring.
  \<open>nat_str\<close> recurses on the quotient by ten, a \<open>fun\<close> whose termination
  follows from \<open>n div 10 < n\<close> for \<open>n >= 10\<close>.

  \<^bold>\<open>Not modelled.\<close>  \<open>checkUser\<close> (called by the header) and the content of
  \<open>@/data/landing\<close> and \<open>@/data/categories\<close> (their arrays are parameters);
  \<open>dashboard/layout.js\<close>, which only wraps its children in \<open>Suspense\<close>; CSS
  classes that carry no state; date formatting with \<open>date-fns\<close> (dates stay
  instants on screen); recharts layout.  The server actions that are not under
  \<open>src/\<close> (\<open>getUserAccounts\<close>, \<open>getDashboardData\<close>,
  \<open>getAccountWithTransactions\<close>, \<open>createAccount\<close>, \<open>updateDefaultAccount\<close>,
  \<open>bulkDeleteTransactions\<close>) and the zod schemas: their results are inputs or
  parameters.  Clerk internals, Prisma itself, e-mail delivery, the Inngest queue,
  console logging, and the 500 branches caused by database failures.

  \<^bold>\<open>Modelling choices.\<close>  Time is local time without daylight-saving shifts: an
  instant is a date and a millisecond of the day.  Money is integer cents: the store
  sums decimals exactly, and the rounding of client-side double additions and of
  \<open>toFixed\<close> on doubles is not modelled (\<open>toFixed\<close> rounds the exact value).  React state updates made between two awaits are one step; an effect runs
  after a step exactly when one of its dependencies changed (values returned by a
  call are compared by the identity of the call).
\<close>

section \<open>Properties across components\<close>


end
